theory Spec2Isabelle
  imports Complex_Main "HOL-Library.Multiset"
begin

section \<open>Data model of the hero canvas simulation\<close>

text \<open>
  The particle objects of \<^verbatim>\<open>nodes\<close>. JavaScript numbers are modelled as real numbers
  (no rounding, no infinities); the one variable that can hold NaN, \<^verbatim>\<open>scrollProgress\<close>,
  has a type of its own below. Particles are objects compared by reference
  (\<^verbatim>\<open>o === n\<close>): the array \<^verbatim>\<open>nodes\<close> is the store, a list of particle values, and a
  reference to a particle is its index in that list.
\<close>

record Particle =
  x :: real
  y :: real
  homeX :: real
  homeY :: real
  vx :: real
  vy :: real
  r :: real
  color :: string

text \<open>An entry of \<^verbatim>\<open>shockwaves\<close>: \<^verbatim>\<open>{ x, y, time }\<close>.\<close>

record Shockwave =
  sx :: real
  sy :: real
  time :: real

text \<open>
  The values of \<^verbatim>\<open>scrollProgress\<close>: a number, or NaN. The scroll handler computes it by a
  division whose two operands can both be zero, and \<^verbatim>\<open>0 / 0\<close> is NaN in JavaScript.
\<close>

datatype jsnum = NaN | Num real

text \<open>
  The variables that \<^verbatim>\<open>initHeroCanvas\<close> closes over and that the tick and the renderer read.
\<close>

record Env =
  width :: real
  height :: real
  centerX :: real
  centerY :: real
  mouseX :: real
  mouseY :: real
  scrollProgress :: jsnum
  shockwaves :: "Shockwave list"

definition HOME_STRENGTH :: real where "HOME_STRENGTH = 0.005"
definition CURSOR_REPULSION :: real where "CURSOR_REPULSION = 8000"
definition DAMPING :: real where "DAMPING = 0.88"
definition BALL_COUNT :: nat where "BALL_COUNT = 280"

definition COLORS :: "string list" where
  "COLORS = [''#009cde'', ''#46c8b2'', ''#f5d800'', ''#ff8b22'', ''#ff6859'', ''#fc4d77'']"

section \<open>The quadtree\<close>

text \<open>
  \<^verbatim>\<open>class QuadTree\<close>: the fields \<^verbatim>\<open>x, y, w, h, depth, items\<close> and \<^verbatim>\<open>children\<close>, which is
  either \<^verbatim>\<open>null\<close> (constructor \<open>Leaf\<close>) or an array of exactly four trees (constructor
  \<open>Node\<close>, the four elements in array order). The items are references into \<^verbatim>\<open>nodes\<close>.
\<close>

datatype QuadTree =
    Leaf (qx: real) (qy: real) (qw: real) (qh: real) (depth: nat) (items: "nat list")
  | Node (qx: real) (qy: real) (qw: real) (qh: real) (depth: nat) (items: "nat list")
         QuadTree QuadTree QuadTree QuadTree

text \<open>\<^verbatim>\<open>_getIndex(node)\<close>: the child that holds the whole box of the particle, or \<open>-1\<close>.\<close>

definition getIndex :: "QuadTree \<Rightarrow> Particle \<Rightarrow> int" where
  "getIndex t p =
     (let mx = qx t + qw t / 2;
          my = qy t + qh t / 2;
          rr = r p;
          top = (y p - rr < my \<and> y p + rr < my);
          bottom = (y p - rr > my);
          left = (x p - rr < mx \<and> x p + rr < mx);
          right = (x p - rr > mx)
      in if right \<and> top then 0
         else if right \<and> bottom then 2
         else if left \<and> top then 1
         else if left \<and> bottom then 3
         else -1)"

text \<open>\<^verbatim>\<open>this.children[idx]\<close> and the assignment to it, for \<open>idx\<close> in \<open>0..3\<close>.\<close>

fun child :: "QuadTree \<Rightarrow> int \<Rightarrow> QuadTree" where
  "child (Node x0 y0 w0 h0 d its a b c e) idx =
     (if idx = 0 then a else if idx = 1 then b else if idx = 2 then c else e)"
| "child (Leaf x0 y0 w0 h0 d its) idx = Leaf x0 y0 w0 h0 d its"

fun set_child :: "QuadTree \<Rightarrow> int \<Rightarrow> QuadTree \<Rightarrow> QuadTree" where
  "set_child (Node x0 y0 w0 h0 d its a b c e) idx k =
     (if idx = 0 then Node x0 y0 w0 h0 d its k b c e
      else if idx = 1 then Node x0 y0 w0 h0 d its a k c e
      else if idx = 2 then Node x0 y0 w0 h0 d its a b k e
      else Node x0 y0 w0 h0 d its a b c k)"
| "set_child (Leaf x0 y0 w0 h0 d its) idx k = Leaf x0 y0 w0 h0 d its"

text \<open>\<^verbatim>\<open>_split()\<close>: four empty children one level deeper; the items stay.\<close>

definition split_qt :: "QuadTree \<Rightarrow> QuadTree" where
  "split_qt t =
     (let hw = qw t / 2; hh = qh t / 2; d = depth t + 1
      in Node (qx t) (qy t) (qw t) (qh t) (depth t) (items t)
           (Leaf (qx t + hw) (qy t) hw hh d [])
           (Leaf (qx t) (qy t) hw hh d [])
           (Leaf (qx t) (qy t + hh) hw hh d [])
           (Leaf (qx t + hw) (qy t + hh) hw hh d []))"

text \<open>
  \<^verbatim>\<open>insert(node)\<close>, and the loop \<^verbatim>\<open>while (i--)\<close> that follows \<^verbatim>\<open>_split()\<close> as
  \<open>redistribute\<close>, whose last argument is the loop counter \<open>i\<close> before the decrement.
  \<open>ps\<close> is the store, \<open>n\<close> the reference inserted. The loop runs only on a tree that has
  just been split; on a tree without children (where the source would fail on \<^verbatim>\<open>null\<close>)
  the model returns the tree.
\<close>

function insert_qt :: "Particle list \<Rightarrow> nat \<Rightarrow> QuadTree \<Rightarrow> QuadTree"
  and redistribute :: "Particle list \<Rightarrow> QuadTree \<Rightarrow> nat \<Rightarrow> QuadTree" where
  "insert_qt ps n (Node x0 y0 w0 h0 d its a b c e) =
     (let idx = getIndex (Node x0 y0 w0 h0 d its a b c e) (ps ! n)
      in if idx \<noteq> -1
         then set_child (Node x0 y0 w0 h0 d its a b c e) idx
                (insert_qt ps n (child (Node x0 y0 w0 h0 d its a b c e) idx))
         else Node x0 y0 w0 h0 d (its @ [n]) a b c e)"
| "insert_qt ps n (Leaf x0 y0 w0 h0 d its) =
     (if length (its @ [n]) > 8 \<and> d < 6
      then redistribute ps (split_qt (Leaf x0 y0 w0 h0 d (its @ [n]))) (length (its @ [n]))
      else Leaf x0 y0 w0 h0 d (its @ [n]))"
| "redistribute ps t 0 = t"
| "redistribute ps (Leaf x0 y0 w0 h0 d its) (Suc i) = Leaf x0 y0 w0 h0 d its"
| "redistribute ps (Node x0 y0 w0 h0 d its a b c e) (Suc i) =
     (let idx = getIndex (Node x0 y0 w0 h0 d its a b c e) (ps ! (its ! i))
      in if idx \<noteq> -1
         then redistribute ps
                (set_child (Node x0 y0 w0 h0 d (take i its @ drop (Suc i) its) a b c e) idx
                   (insert_qt ps (its ! i) (child (Node x0 y0 w0 h0 d its a b c e) idx)))
                i
         else redistribute ps (Node x0 y0 w0 h0 d its a b c e) i)"
  by pat_completeness auto

text \<open>
  \<^verbatim>\<open>retrieve(node, result)\<close>: the candidates of the child the particle fits in (or of
  all four children when it fits in none), then the items of this node, appended to
  \<open>result\<close>.
\<close>

fun retrieve :: "QuadTree \<Rightarrow> Particle \<Rightarrow> nat list \<Rightarrow> nat list" where
  "retrieve (Leaf x0 y0 w0 h0 d its) p result = result @ its"
| "retrieve (Node x0 y0 w0 h0 d its a b c e) p result =
     (let idx = getIndex (Node x0 y0 w0 h0 d its a b c e) p;
          result1 =
            (if idx \<noteq> -1
             then (if idx = 0 then retrieve a p result
                   else if idx = 1 then retrieve b p result
                   else if idx = 2 then retrieve c p result
                   else retrieve e p result)
             else retrieve e p (retrieve c p (retrieve b p (retrieve a p result))))
      in result1 @ its)"

text \<open>
  The first two lines of \<^verbatim>\<open>simulate\<close>: a fresh tree over the viewport, every particle
  inserted in array order.
\<close>

definition build :: "Env \<Rightarrow> Particle list \<Rightarrow> QuadTree" where
  "build env nodes =
     fold (\<lambda>i qt. insert_qt nodes i qt) [0..<length nodes]
       (Leaf 0 0 (width env) (height env) 0 [])"

section \<open>The tick\<close>

text \<open>Step 1 of the loop body, the pull towards the home position.\<close>

definition home_pull :: "Particle \<Rightarrow> Particle" where
  "home_pull n =
     (let gdx = homeX n - x n;
          gdy = homeY n - y n
      in n\<lparr>vx := vx n + gdx * HOME_STRENGTH, vy := vy n + gdy * HOME_STRENGTH\<rparr>)"

text \<open>
  Step 2, the scroll dispersion. The test \<^verbatim>\<open>scrollProgress > 0\<close> is false for NaN.
  \<^verbatim>\<open>Math.sqrt(...) || 1\<close> replaces a distance of zero by one.
\<close>

definition scroll_disperse :: "Env \<Rightarrow> Particle \<Rightarrow> Particle" where
  "scroll_disperse env n =
     (case scrollProgress env of
        NaN \<Rightarrow> n
      | Num p \<Rightarrow>
          if p > 0
          then (let sdx = x n - centerX env;
                    sdy = y n - centerY env;
                    sq = sqrt (sdx * sdx + sdy * sdy);
                    sDist = (if sq = 0 then 1 else sq);
                    disperseForce = p * 2.5
                in n\<lparr>vx := vx n + (sdx / sDist) * disperseForce,
                     vy := vy n + (sdy / sDist) * disperseForce\<rparr>)
          else n)"

text \<open>Step 3, the repulsion from the cursor.\<close>

definition cursor_repel :: "Env \<Rightarrow> Particle \<Rightarrow> Particle" where
  "cursor_repel env n =
     (let cdx = x n - mouseX env;
          cdy = y n - mouseY env;
          cDistSq = cdx * cdx + cdy * cdy
      in if cDistSq > 0 \<and> cDistSq < 200 * 200
         then (let cDist = sqrt cDistSq;
                   force = CURSOR_REPULSION / cDistSq
               in n\<lparr>vx := vx n + (cdx / cDist) * force, vy := vy n + (cdy / cDist) * force\<rparr>)
         else n)"

text \<open>Step 4: the body of the loop over \<^verbatim>\<open>shockwaves\<close>, and the loop.\<close>

definition shockwave_push :: "real \<Rightarrow> Shockwave \<Rightarrow> Particle \<Rightarrow> Particle" where
  "shockwave_push now sw n =
     (let age = (now - time sw) / 400;
          swdx = x n - sx sw;
          swdy = y n - sy sw;
          swDistSq = swdx * swdx + swdy * swdy;
          swRadius = 300
      in if swDistSq < swRadius * swRadius \<and> swDistSq > 0
         then (let swDist = sqrt swDistSq;
                   swForce = (1 - age) * 15 * (1 - swDist / swRadius)
               in n\<lparr>vx := vx n + (swdx / swDist) * swForce,
                    vy := vy n + (swdy / swDist) * swForce\<rparr>)
         else n)"

definition shockwave_all :: "Env \<Rightarrow> real \<Rightarrow> Particle \<Rightarrow> Particle" where
  "shockwave_all env now n = fold (shockwave_push now) (shockwaves env) n"

text \<open>
  Step 5: \<open>collide_one n o\<close> is the body of the loop over \<^verbatim>\<open>nearby\<close> after the test
  \<^verbatim>\<open>if (o === n) continue\<close>; \<open>collide_all\<close> is the loop, where \<open>i\<close> is the reference of
  \<open>n\<close> and the other particles are read from the store as it is at that moment.
\<close>

definition collide_one :: "Particle \<Rightarrow> Particle \<Rightarrow> Particle" where
  "collide_one n o' =
     (let dx = x n - x o';
          dy = y n - y o';
          distSq = dx * dx + dy * dy;
          minDist = r n + r o' + 1
      in if distSq < minDist * minDist \<and> distSq > 0
         then (let dist = sqrt distSq;
                   overlap = minDist - dist;
                   nx = dx / dist;
                   ny = dy / dist
               in n\<lparr>vx := vx n + nx * overlap * 0.3, vy := vy n + ny * overlap * 0.3\<rparr>)
         else n)"

definition collide_all :: "QuadTree \<Rightarrow> Particle list \<Rightarrow> nat \<Rightarrow> Particle \<Rightarrow> Particle" where
  "collide_all qt nodes i n =
     fold (\<lambda>j m. if j = i then m else collide_one m (nodes ! j)) (retrieve qt n []) n"

text \<open>Step 6, damping and the move.\<close>

definition integrate :: "Particle \<Rightarrow> Particle" where
  "integrate n =
     (let n1 = n\<lparr>vx := vx n * DAMPING\<rparr>;
          n2 = n1\<lparr>vy := vy n1 * DAMPING\<rparr>;
          n3 = n2\<lparr>x := x n2 + vx n2\<rparr>
      in n3\<lparr>y := y n3 + vy n3\<rparr>)"

text \<open>Step 7, the four tests of the soft bounce, in order.\<close>

definition keep_in_bounds :: "Env \<Rightarrow> Particle \<Rightarrow> Particle" where
  "keep_in_bounds env n =
     (let margin = r n;
          n1 = (if x n < margin then n\<lparr>x := margin, vx := vx n * (-0.5)\<rparr> else n);
          n2 = (if x n1 > width env - margin
                then n1\<lparr>x := width env - margin, vx := vx n1 * (-0.5)\<rparr> else n1);
          n3 = (if y n2 < margin then n2\<lparr>y := margin, vy := vy n2 * (-0.5)\<rparr> else n2)
      in if y n3 > height env - margin
         then n3\<lparr>y := height env - margin, vy := vy n3 * (-0.5)\<rparr> else n3)"

text \<open>
  The velocity of particle \<open>i\<close> after steps 1 to 5 (\<open>accumulate\<close>), and the whole loop
  body (\<open>step_particle\<close>), on the store \<open>nodes\<close> as it is when the loop reaches \<open>i\<close>.
\<close>

definition accumulate :: "Env \<Rightarrow> real \<Rightarrow> QuadTree \<Rightarrow> Particle list \<Rightarrow> nat \<Rightarrow> Particle" where
  "accumulate env now qt nodes i =
     collide_all qt nodes i
       (shockwave_all env now (cursor_repel env (scroll_disperse env (home_pull (nodes ! i)))))"

definition step_particle :: "Env \<Rightarrow> real \<Rightarrow> QuadTree \<Rightarrow> Particle list \<Rightarrow> nat \<Rightarrow> Particle" where
  "step_particle env now qt nodes i = keep_in_bounds env (integrate (accumulate env now qt nodes i))"

text \<open>
  The loop \<^verbatim>\<open>for (let i = 0; i < nodes.length; i++)\<close>: particle \<open>i\<close> is updated in
  place, so the store that the later iterations read holds its new state.
\<close>

definition simulate_loop :: "Env \<Rightarrow> real \<Rightarrow> QuadTree \<Rightarrow> Particle list \<Rightarrow> Particle list" where
  "simulate_loop env now qt nodes =
     fold (\<lambda>i ns. ns[i := step_particle env now qt ns i]) [0..<length nodes] nodes"

text \<open>
  \<^verbatim>\<open>shockwaves = shockwaves.filter(s => now - s.time < 400)\<close>, the assignment at the
  start of \<^verbatim>\<open>simulate\<close>.
\<close>

definition prune :: "real \<Rightarrow> Env \<Rightarrow> Env" where
  "prune now env = env\<lparr>shockwaves := filter (\<lambda>s. now - time s < 400) (shockwaves env)\<rparr>"

text \<open>
  \<^verbatim>\<open>simulate()\<close>, with the value of \<^verbatim>\<open>performance.now()\<close> as the argument \<open>now\<close>. It
  returns the variables it assigns: the environment with the filtered \<^verbatim>\<open>shockwaves\<close>, and
  the particles.
\<close>

definition simulate :: "Env \<Rightarrow> real \<Rightarrow> Particle list \<Rightarrow> Env \<times> Particle list" where
  "simulate env now nodes =
     (let qt = build env nodes;
          env1 = prune now env
      in (env1, simulate_loop env1 now qt nodes))"

text \<open>
  \<^verbatim>\<open>draw()\<close> calls \<^verbatim>\<open>simulate()\<close> once per animation frame: \<open>k\<close> frames one after the
  other, each on the variables that the frame before left. The timestamp is the same \<open>now\<close>
  for all of them (it is read by the shockwaves only).
\<close>

primrec frames :: "nat \<Rightarrow> real \<Rightarrow> Env \<times> Particle list \<Rightarrow> Env \<times> Particle list" where
  "frames 0 now s = s"
| "frames (Suc k) now s = frames k now (simulate (fst s) now (snd s))"

section \<open>Generation of the particles\<close>

text \<open>
  \<^verbatim>\<open>generateNodes()\<close>. The calls of \<^verbatim>\<open>Math.random()\<close> are the sequence \<open>rnd\<close>: particle
  \<open>k\<close> takes the draws \<open>8 * k\<close> to \<open>8 * k + 7\<close>, in the order of the source. Each draw of
  \<^verbatim>\<open>Math.random()\<close> lies in \<open>[0, 1)\<close>, so the index into \<^verbatim>\<open>COLORS\<close> is in range.
\<close>

definition make_node :: "Env \<Rightarrow> (nat \<Rightarrow> real) \<Rightarrow> nat \<Rightarrow> Particle" where
  "make_node env rnd k =
     (let angle = rnd (8 * k) * pi * 2;
          dist = 50 + rnd (8 * k + 1) * min (width env) (height env) * 0.35;
          hx = centerX env + cos angle * dist;
          hy = centerY env + sin angle * dist
      in \<lparr>x = rnd (8 * k + 2) * width env,
          y = - 50 - rnd (8 * k + 3) * height env,
          homeX = hx, homeY = hy,
          vx = (rnd (8 * k + 4) - 0.5) * 2,
          vy = rnd (8 * k + 5) * 3,
          r = 4 + rnd (8 * k + 6) * 12,
          color = COLORS ! nat \<lfloor>rnd (8 * k + 7) * real (length COLORS)\<rfloor>\<rparr>)"

definition generateNodes :: "Env \<Rightarrow> (nat \<Rightarrow> real) \<Rightarrow> Particle list" where
  "generateNodes env rnd = map (make_node env rnd) [0..<BALL_COUNT]"

text \<open>
  \<^verbatim>\<open>resize()\<close>, with \<^verbatim>\<open>window.innerWidth\<close> and \<^verbatim>\<open>window.innerHeight\<close> as \<open>w\<close> and \<open>h\<close>; the
  canvas attributes it sets are not part of the model.
\<close>

definition resize :: "Env \<Rightarrow> real \<Rightarrow> real \<Rightarrow> (nat \<Rightarrow> real) \<Rightarrow> Env \<times> Particle list" where
  "resize env w h rnd =
     (let env1 = env\<lparr>width := w, height := h, centerX := w / 2, centerY := h / 2\<rparr>
      in (env1, generateNodes env1 rnd))"

section \<open>The scroll handler\<close>

text \<open>
  The listener of the \<^verbatim>\<open>scroll\<close> event, with \<^verbatim>\<open>rect.top\<close> and \<^verbatim>\<open>rect.height\<close> of the
  hero element as \<open>rtop\<close> and \<open>heroH\<close> (a height, so never negative; when there is no such
  element the listener returns and nothing changes):
  \<^verbatim>\<open>scrollProgress = clamp(-rect.top / (heroH * 0.6), 0, 1)\<close>, where
  \<^verbatim>\<open>clamp = (v, min, max) => Math.min(Math.max(v, min), max)\<close>. The division is the one
  of JavaScript: by a divisor of zero the quotient is NaN when the dividend is zero too, and
  plus or minus Infinity otherwise; \<^verbatim>\<open>Math.max\<close> and \<^verbatim>\<open>Math.min\<close> return NaN for NaN, and
  clamp an infinite quotient to 1 or to 0.
\<close>

definition clamp :: "real \<Rightarrow> real \<Rightarrow> real \<Rightarrow> real" where
  "clamp v lo hi = min (max v lo) hi"

definition scroll_handler :: "Env \<Rightarrow> real \<Rightarrow> real \<Rightarrow> Env" where
  "scroll_handler env rtop heroH =
     env\<lparr>scrollProgress :=
       (if heroH * 0.6 \<noteq> 0 then Num (clamp (- rtop / (heroH * 0.6)) 0 1)
        else if - rtop = 0 then NaN
        else if - rtop > 0 then Num 1
        else Num 0)\<rparr>"

section \<open>The alpha of the renderer\<close>

text \<open>
  From \<^verbatim>\<open>draw()\<close>: the scroll fade, the glow near the cursor, and the value assigned to
  \<^verbatim>\<open>ctx.globalAlpha\<close>. The arithmetic, \<^verbatim>\<open>Math.max\<close> and \<^verbatim>\<open>Math.min\<close> all return NaN when
  \<^verbatim>\<open>scrollProgress\<close> is NaN.
\<close>

definition baseAlpha :: "Env \<Rightarrow> jsnum" where
  "baseAlpha env =
     (case scrollProgress env of
        NaN \<Rightarrow> NaN
      | Num p \<Rightarrow> Num (max 0 (0.6 * (1 - p))))"

definition glowFactor :: "Env \<Rightarrow> Particle \<Rightarrow> real" where
  "glowFactor env n =
     (let gdx = x n - mouseX env;
          gdy = y n - mouseY env;
          gDist = sqrt (gdx * gdx + gdy * gdy);
          glowRange = 150
      in if gDist < glowRange then 1 - gDist / glowRange else 0)"

definition globalAlpha :: "Env \<Rightarrow> Particle \<Rightarrow> jsnum" where
  "globalAlpha env n =
     (case baseAlpha env of
        NaN \<Rightarrow> NaN
      | Num b \<Rightarrow> Num (min 1 (b + glowFactor env n * 0.08)))"

section \<open>Concrete inputs\<close>

text \<open>
  A particle at rest at its home position, and the distance of two centres (the square
  root of \<^verbatim>\<open>distSq\<close> of the collision step).
\<close>

definition ball :: "real \<Rightarrow> real \<Rightarrow> real \<Rightarrow> Particle" where
  "ball px py rad =
     \<lparr>x = px, y = py, homeX = px, homeY = py, vx = 0, vy = 0, r = rad, color = ''#009cde''\<rparr>"

definition center_dist :: "Particle \<Rightarrow> Particle \<Rightarrow> real" where
  "center_dist p q = sqrt ((x p - x q) * (x p - x q) + (y p - y q) * (y p - y q))"

text \<open>
  Nine particles of radius 4 at rest in a viewport of 1000 by 1000, no cursor, no scroll,
  no shockwave. The first two lie on either side of the vertical midline, 8.5 apart.
\<close>

definition field9 :: "Particle list" where
  "field9 = [ball 495.75 200 4, ball 504.25 200 4, ball 100 100 4, ball 100 900 4,
             ball 900 100 4, ball 900 900 4, ball 300 700 4, ball 700 300 4, ball 700 700 4]"

definition env9 :: Env where
  "env9 = \<lparr>width = 1000, height = 1000, centerX = 500, centerY = 500,
            mouseX = - 9999, mouseY = - 9999, scrollProgress = Num 0, shockwaves = []\<rparr>"

text \<open>
  A viewport narrower than the diameter of the particle in it, and a particle that runs
  into the left edge of a wide one.
\<close>

definition narrow_env :: Env where
  "narrow_env = \<lparr>width = 20, height = 1000, centerX = 10, centerY = 500,
            mouseX = - 9999, mouseY = - 9999, scrollProgress = Num 0, shockwaves = []\<rparr>"

definition wide_ball :: Particle where
  "wide_ball = \<lparr>x = 11, y = 50, homeX = 11, homeY = 50, vx = 1, vy = 0, r = 12, color = ''#009cde''\<rparr>"

definition fast_ball :: Particle where
  "fast_ball = \<lparr>x = 5, y = 50, homeX = 5, homeY = 50, vx = - 10, vy = 0, r = 4, color = ''#009cde''\<rparr>"

text \<open>A shockwave created at time 0, and two overlapping particles at rest on one line.\<close>

definition wave :: Shockwave where
  "wave = \<lparr>sx = 100, sy = 100, time = 0\<rparr>"

definition pair2 :: "Particle list" where
  "pair2 = [ball 100 100 4, ball 105 100 4]"

text \<open>A moving particle that runs into one at rest, and two particles at rest far apart.\<close>

definition runner :: Particle where
  "runner = \<lparr>x = 100, y = 100, homeX = 100, homeY = 100, vx = 20, vy = 0, r = 4, color = ''#009cde''\<rparr>"

definition chase2 :: "Particle list" where
  "chase2 = [runner, ball 115 100 4]"

definition apart2 :: "Particle list" where
  "apart2 = [ball 100 100 4, ball 200 100 4]"

text \<open>Two particles that fill a viewport of width 16 from edge to edge.\<close>

definition tight_env :: Env where
  "tight_env = \<lparr>width = 16, height = 1000, centerX = 8, centerY = 500,
            mouseX = - 9999, mouseY = - 9999, scrollProgress = Num 0, shockwaves = []\<rparr>"

definition squeezed2 :: "Particle list" where
  "squeezed2 = [ball 4 50 4, ball 12 50 4]"

text \<open>A random sequence that always draws 0, and the viewport after a resize to 0 by 0.\<close>

definition zero_draws :: "nat \<Rightarrow> real" where
  "zero_draws k = 0"

definition flat_env :: Env where
  "flat_env = \<lparr>width = 0, height = 0, centerX = 0, centerY = 0,
            mouseX = - 9999, mouseY = - 9999, scrollProgress = Num 0, shockwaves = []\<rparr>"

text \<open>
  Three particles at rest at their homes: two that overlap with a third far away, and two
  that overlap with a third just behind the second.
\<close>

definition far3 :: "Particle list" where
  "far3 = [ball 100 100 4, ball 105 100 4, ball 500 500 4]"

definition trio :: "Particle list" where
  "trio = [ball 100 100 4, ball 108 100 4, ball 110 100 4]"

text \<open>
  Two particles of radius 4 on the line \<open>y = 100\<close> with homes \<open>ha\<close> and \<open>hb\<close> on it, given
  by their positions and velocities along the line; and two such particles at rest, each
  0.6 away from its home, 8.99 apart.
\<close>

definition line2 :: "real \<Rightarrow> real \<Rightarrow> real \<times> real \<times> real \<times> real \<Rightarrow> Particle list" where
  "line2 ha hb s =
     (case s of (xa, va, xb, vb) \<Rightarrow>
        [\<lparr>x = xa, y = 100, homeX = ha, homeY = 100, vx = va, vy = 0, r = 4, color = ''#009cde''\<rparr>,
         \<lparr>x = xb, y = 100, homeX = hb, homeY = 100, vx = vb, vy = 0, r = 4, color = ''#009cde''\<rparr>])"

definition rest2 :: "Particle list" where
  "rest2 = line2 100 107.79 (99.4, 0, 108.39, 0)"

section \<open>Auxiliary notions for the proofs\<close>

text \<open>
  The store that the loop of \<^verbatim>\<open>simulate\<close> holds when it reaches particle \<open>i\<close>: the
  particles before \<open>i\<close> in their state after the tick (\<open>post\<close>), the others in their
  state before it (\<open>pre\<close>).
\<close>

definition store_at :: "Particle list \<Rightarrow> Particle list \<Rightarrow> nat \<Rightarrow> Particle list" where
  "store_at pre post i = take i post @ drop i pre"

text \<open>A particle with a vector added to its velocity.\<close>

definition add_v :: "real \<Rightarrow> real \<Rightarrow> Particle \<Rightarrow> Particle" where
  "add_v a b n = n\<lparr>vx := vx n + a, vy := vy n + b\<rparr>"

text \<open>The references held in a tree, counted with their multiplicity.\<close>

fun items_mset :: "QuadTree \<Rightarrow> nat multiset" where
  "items_mset (Leaf x0 y0 w0 h0 d its) = mset its"
| "items_mset (Node x0 y0 w0 h0 d its a b c e) =
     mset its + items_mset a + items_mset b + items_mset c + items_mset e"

text \<open>
  The tick on two particles of \<open>line2\<close> as arithmetic on their positions and velocities
  (\<open>line_tick\<close>), the conditions under which the tick is that arithmetic (\<open>line_ok\<close>: the
  first particle left of the second, both inside the bounds after their moves), and \<open>k\<close>
  ticks.
\<close>

definition line_tick :: "real \<Rightarrow> real \<Rightarrow> real \<times> real \<times> real \<times> real \<Rightarrow> real \<times> real \<times> real \<times> real" where
  "line_tick ha hb s =
     (case s of (xa, va, xb, vb) \<Rightarrow>
        let va1 = va + (ha - xa) * 0.005;
            va2 = (if xb - xa < 9 then va1 - (9 - (xb - xa)) * 0.3 else va1);
            va' = va2 * 0.88;
            xa' = xa + va';
            vb1 = vb + (hb - xb) * 0.005;
            vb2 = (if xb - xa' < 9 then vb1 + (9 - (xb - xa')) * 0.3 else vb1);
            vb' = vb2 * 0.88;
            xb' = xb + vb'
        in (xa', va', xb', vb'))"

definition line_ok :: "real \<Rightarrow> real \<Rightarrow> real \<times> real \<times> real \<times> real \<Rightarrow> bool" where
  "line_ok ha hb s =
     (case s of (xa, va, xb, vb) \<Rightarrow>
        case line_tick ha hb s of (xa', va', xb', vb') \<Rightarrow>
          4 \<le> xa \<and> xa < xb \<and> 4 \<le> xa' \<and> xa' < xb \<and> xa' \<le> 996 \<and> 4 \<le> xb' \<and> xb' \<le> 996)"

primrec line_ticks :: "nat \<Rightarrow> real \<Rightarrow> real \<Rightarrow> real \<times> real \<times> real \<times> real \<Rightarrow> real \<times> real \<times> real \<times> real" where
  "line_ticks 0 ha hb s = s"
| "line_ticks (Suc k) ha hb s = line_ticks k ha hb (line_tick ha hb s)"

text \<open>
  Enclosures for the states of \<open>line2\<close>: a box bounds the two positions and the two
  velocities from below and above. \<open>hop_ok B B'\<close> is a test on the corners of \<open>B\<close> that is
  enough for the tick to map every state in \<open>B\<close> into \<open>B'\<close>; \<open>track_ok\<close> is that test along
  a list of boxes. \<open>push\<close>, \<open>tick_va\<close> and \<open>tick_vb\<close> are the parts of \<open>line_tick\<close>.
\<close>

type_synonym box = "real \<times> real \<times> real \<times> real \<times> real \<times> real \<times> real \<times> real"

definition in_box :: "box \<Rightarrow> real \<times> real \<times> real \<times> real \<Rightarrow> bool" where
  "in_box B s =
     (case B of (l1, u1, l2, u2, l3, u3, l4, u4) \<Rightarrow>
        case s of (xa, va, xb, vb) \<Rightarrow>
          l1 \<le> xa \<and> xa \<le> u1 \<and> l2 \<le> va \<and> va \<le> u2 \<and> l3 \<le> xb \<and> xb \<le> u3 \<and> l4 \<le> vb \<and> vb \<le> u4)"

definition push :: "real \<Rightarrow> real" where
  "push d = (if d < 9 then (9 - d) * (3 / 10) else 0)"

definition tick_va :: "real \<Rightarrow> real \<Rightarrow> real \<Rightarrow> real \<Rightarrow> real" where
  "tick_va ha xa va xb = (va + (ha - xa) * (1 / 200) - push (xb - xa)) * (22 / 25)"

definition tick_vb :: "real \<Rightarrow> real \<Rightarrow> real \<Rightarrow> real \<Rightarrow> real" where
  "tick_vb hb p xb vb = (vb + (hb - xb) * (1 / 200) + push (xb - p)) * (22 / 25)"

definition hop_ok :: "real \<Rightarrow> real \<Rightarrow> box \<Rightarrow> box \<Rightarrow> bool" where
  "hop_ok ha hb B B' =
     (case B of (l1, u1, l2, u2, l3, u3, l4, u4) \<Rightarrow>
        case B' of (l1', u1', l2', u2', l3', u3', l4', u4') \<Rightarrow>
          4 \<le> l1 \<and> u1 < l3 \<and> 4 \<le> l1' \<and> u1' \<le> 996 \<and> u1' < l3 \<and> 4 \<le> l3' \<and> u3' \<le> 996
          \<and> l1' \<le> l1 + tick_va ha l1 l2 l3
          \<and> u1 + tick_va ha u1 u2 u3 \<le> u1'
          \<and> l2' \<le> tick_va ha u1 l2 l3
          \<and> tick_va ha l1 u2 u3 \<le> u2'
          \<and> l3' \<le> l3 + tick_vb hb l1' l3 l4
          \<and> u3 + tick_vb hb u1' u3 u4 \<le> u3'
          \<and> l4' \<le> tick_vb hb (l1' - (u3 - l3)) u3 l4
          \<and> tick_vb hb (u1' + (u3 - l3)) l3 u4 \<le> u4')"

primrec track_ok :: "real \<Rightarrow> real \<Rightarrow> box \<Rightarrow> box list \<Rightarrow> bool" where
  "track_ok ha hb B [] = True"
| "track_ok ha hb B (B' # Bs) = (hop_ok ha hb B B' \<and> track_ok ha hb B' Bs)"

text \<open>
  Boxes around the first 53 states of the pair \<open>pair2\<close> under repeated ticks, each rounded
  outwards to seven decimals.
\<close>

definition track1 :: "box list" where
  "track1 =
    [(98.9439999, 98.9440001, - 1.0560001, - 1.0559999, 105.7772158, 105.7772162, 0.7772158, 0.7772162),
     (97.4473351, 97.4473358, - 1.4966649, - 1.4966643, 106.6346573, 106.6346584, 0.8574413, 0.8574424),
     (96.1415016, 96.1415031, - 1.3058335, - 1.3058327, 107.382013, 107.3820154, 0.7473557, 0.747357),
     (95.0093454, 95.0093479, - 1.1321562, - 1.1321552, 108.029205, 108.0292088, 0.647192, 0.6471935),
     (94.0350067, 94.0350103, - 0.9743387, - 0.9743375, 108.5854053, 108.5854107, 0.5562003, 0.5562019),
     (93.2038345, 93.2038394, - 0.8311723, - 0.8311709, 109.0590856, 109.0590927, 0.4736803, 0.473682),
     (92.5023059, 92.5023123, - 0.7015287, - 0.7015271, 109.4580641, 109.458073, 0.3989785, 0.3989803),
     (91.9179503, 91.9179584, - 0.5843556, - 0.5843538, 109.7895495, 109.7895603, 0.3314854, 0.3314873),
     (91.4392782, 91.4392882, - 0.4786721, - 0.4786702, 110.0601825, 110.0601952, 0.2706329, 0.270635),
     (91.0557138, 91.0557257, - 0.3835645, - 0.3835625, 110.2760745, 110.2760893, 0.2158919, 0.2158941),
     (90.7575317, 90.7575457, - 0.2981821, - 0.29818, 110.4428445, 110.4428615, 0.1667699, 0.1667722),
     (90.5357982, 90.5358142, - 0.2217336, - 0.2217314, 110.5656533, 110.5656726, 0.1228088, 0.1228112),
     (90.382315, 90.3823331, - 0.1534833, - 0.153481, 110.649236, 110.6492576, 0.0835826, 0.0835851)]"

definition track2 :: "box list" where
  "track2 =
    [(90.2895674, 90.2895877, - 0.0927477, - 0.0927453, 110.6979319, 110.6979559, 0.0486958, 0.0486984),
     (90.2506752, 90.2506978, - 0.0388923, - 0.0388898, 110.7157132, 110.7157396, 0.0177811, 0.0177838),
     (90.2593469, 90.2593719, 0.0086716, 0.0086742, 110.7062113, 110.7062402, - 0.009502, - 0.0094992),
     (90.3098366, 90.3098641, 0.0504896, 0.0504923, 110.6727421, 110.6727736, - 0.0334694, - 0.0334665),
     (90.396904, 90.3969341, 0.0870673, 0.0870701, 110.6183288, 110.618363, - 0.0544134, - 0.0544104),
     (90.5157767, 90.5158094, 0.1188726, 0.1188755, 110.5457242, 110.5457612, - 0.0726047, - 0.0726016),
     (90.662115, 90.6621504, 0.1463382, 0.1463412, 110.4574307, 110.4574706, - 0.0882936, - 0.0882904),
     (90.8319792, 90.8320173, 0.169864, 0.1698671, 110.3557195, 110.3557623, - 0.1017114, - 0.1017081),
     (91.0217987, 91.0218396, 0.1898193, 0.1898225, 110.2426482, 110.242694, - 0.1130715, - 0.1130681),
     (91.2283436, 91.2283875, 0.2065447, 0.206548, 110.1200775, 110.1201264, - 0.1225709, - 0.1225674),
     (91.4486981, 91.448745, 0.2203543, 0.2203577, 109.9896866, 109.9897387, - 0.1303911, - 0.1303875),
     (91.6802355, 91.6802854, 0.2315372, 0.2315407, 109.8529877, 109.853043, - 0.1366992, - 0.1366955),
     (91.920595, 91.9206481, 0.2403593, 0.2403629, 109.7113391, 109.7113977, - 0.1416488, - 0.141645)]"

definition track3 :: "box list" where
  "track3 =
    [(92.1676604, 92.1677168, 0.2470652, 0.2470689, 109.5659581, 109.5660201, - 0.1453812, - 0.1453773),
     (92.4195399, 92.4195996, 0.2518793, 0.2518831, 109.4179323, 109.4179977, - 0.1480261, - 0.1480221),
     (92.6745476, 92.6746106, 0.2550074, 0.2550113, 109.2682303, 109.2682992, - 0.1497023, - 0.1496982),
     (92.931186, 92.9312524, 0.2566381, 0.2566421, 109.1177119, 109.1177844, - 0.1505187, - 0.1505145),
     (93.1881302, 93.1882001, 0.2569439, 0.256948, 108.9671374, 108.9672135, - 0.1505749, - 0.1505705),
     (93.4442129, 93.4442864, 0.2560824, 0.2560866, 108.8171759, 108.8172559, - 0.1499618, - 0.1499573),
     (93.6984107, 93.6984879, 0.2541975, 0.2542018, 108.6684138, 108.6684977, - 0.1487625, - 0.1487578),
     (93.9498313, 93.9499123, 0.2514203, 0.2514247, 108.5213616, 108.5214496, - 0.1470525, - 0.1470477),
     (94.1977018, 94.1977866, 0.2478701, 0.2478746, 108.3764613, 108.3765534, - 0.1449007, - 0.1448958),
     (94.4413575, 94.4414461, 0.2436553, 0.2436599, 108.2340921, 108.2341884, - 0.1423696, - 0.1423646),
     (94.680232, 94.6803246, 0.2388742, 0.2388789, 108.0945767, 108.0946773, - 0.1395158, - 0.1395107),
     (94.9138481, 94.9139448, 0.2336157, 0.2336206, 107.9581865, 107.9582915, - 0.1363906, - 0.1363854),
     (95.1418088, 95.1419097, 0.2279603, 0.2279653, 107.8251466, 107.825256, - 0.1330404, - 0.133035)]"

definition track4 :: "box list" where
  "track4 =
    [(95.3637898, 95.3638949, 0.2219805, 0.2219857, 107.6956403, 107.6957542, - 0.1295068, - 0.1295013),
     (95.5795318, 95.5796413, 0.2157416, 0.2157469, 107.5698133, 107.5699319, - 0.1258275, - 0.1258218),
     (95.7888343, 95.7889483, 0.209302, 0.2093075, 107.4477778, 107.4479012, - 0.1220361, - 0.1220302),
     (95.991549, 95.9916677, 0.2027142, 0.2027199, 107.3296157, 107.329744, - 0.1181627, - 0.1181566),
     (96.1875745, 96.187698, 0.196025, 0.1960308, 107.2153821, 107.2155155, - 0.1142342, - 0.114228),
     (96.376851, 96.3769794, 0.189276, 0.1892819, 107.1051082, 107.1052467, - 0.1102745, - 0.1102682),
     (96.5593556, 96.5594889, 0.182504, 0.1825101, 106.998804, 106.9989477, - 0.1063048, - 0.1062983),
     (96.7350978, 96.7352362, 0.1757416, 0.1757479, 106.8964609, 106.89661, - 0.1023437, - 0.1023371),
     (96.9041158, 96.9042595, 0.1690174, 0.1690239, 106.7980539, 106.7982084, - 0.0984077, - 0.0984009),
     (97.0664729, 97.0666219, 0.1623564, 0.1623631, 106.7035435, 106.7037036, - 0.094511, - 0.0945041),
     (97.2222539, 97.2224084, 0.1557803, 0.1557872, 106.6128781, 106.6130438, - 0.0906661, - 0.090659),
     (97.3715625, 97.3717227, 0.1493079, 0.149315, 106.5259951, 106.5261666, - 0.0868837, - 0.0868764),
     (97.5145184, 97.5146845, 0.1429552, 0.1429625, 106.4428229, 106.4430004, - 0.0831729, - 0.0831655),
     (97.6323273, 97.6325024, 0.1177644, 0.1178625, 106.4133113, 106.4134942, - 0.0296061, - 0.0294117)]"

definition track :: "box list" where
  "track = track1 @ track2 @ track3 @ track4"

text \<open>
  The measure of the termination proof: \<open>W t\<close> bounds how many more levels a split can
  add anywhere in \<open>t\<close>, \<open>Wc t\<close> is the same bound over the children of \<open>t\<close>.
\<close>

fun W :: "QuadTree \<Rightarrow> nat" where
  "W (Leaf x0 y0 w0 h0 d its) = 7 - d"
| "W (Node x0 y0 w0 h0 d its a b c e) = max (7 - d) (max (W a) (max (W b) (max (W c) (W e))))"

fun Wc :: "QuadTree \<Rightarrow> nat" where
  "Wc (Leaf x0 y0 w0 h0 d its) = 0"
| "Wc (Node x0 y0 w0 h0 d its a b c e) = max (W a) (max (W b) (max (W c) (W e)))"

text \<open>
  All the references held in a tree, and the invariant of \<open>insert_qt\<close>: whatever a child
  holds was sent to that child by \<open>getIndex\<close> of the parent.
\<close>

fun all_items :: "QuadTree \<Rightarrow> nat set" where
  "all_items (Leaf x0 y0 w0 h0 d its) = set its"
| "all_items (Node x0 y0 w0 h0 d its a b c e) =
     set its \<union> all_items a \<union> all_items b \<union> all_items c \<union> all_items e"

fun wf_qt :: "Particle list \<Rightarrow> QuadTree \<Rightarrow> bool" where
  "wf_qt ps (Leaf x0 y0 w0 h0 d its) = True"
| "wf_qt ps (Node x0 y0 w0 h0 d its a b c e) =
     ((\<forall>m \<in> all_items a. getIndex (Leaf x0 y0 w0 h0 d []) (ps ! m) = 0) \<and>
      (\<forall>m \<in> all_items b. getIndex (Leaf x0 y0 w0 h0 d []) (ps ! m) = 1) \<and>
      (\<forall>m \<in> all_items c. getIndex (Leaf x0 y0 w0 h0 d []) (ps ! m) = 2) \<and>
      (\<forall>m \<in> all_items e. getIndex (Leaf x0 y0 w0 h0 d []) (ps ! m) = 3) \<and>
      wf_qt ps a \<and> wf_qt ps b \<and> wf_qt ps c \<and> wf_qt ps e)"

section \<open>Termination of insertion\<close>

lemma W_child: "W (child t idx) \<le> W t"
  by (cases t) auto

lemma W_child_Wc: "W (child (Node x0 y0 w0 h0 d its a b c e) idx) \<le> Wc (Node x0 y0 w0 h0 d its a b c e)"
  by auto

lemma size_child: "size (child (Node x0 y0 w0 h0 d its a b c e) idx) < size (Node x0 y0 w0 h0 d its a b c e)"
  by auto

lemma Wc_set_child:
  "W k \<le> W (child (Node x0 y0 w0 h0 d its a b c e) idx) \<Longrightarrow>
   Wc (set_child (Node x0 y0 w0 h0 d its' a b c e) idx k) \<le> Wc (Node x0 y0 w0 h0 d its a b c e)"
  by auto

lemma W_Wc: "W t = max (7 - depth t) (Wc t)"
  by (cases t) simp_all

lemma W_set_child:
  assumes "W k \<le> W (child (Node x0 y0 w0 h0 d its a b c e) idx)"
  shows "W (set_child (Node x0 y0 w0 h0 d its' a b c e) idx k) \<le> W (Node x0 y0 w0 h0 d its a b c e)"
proof -
  have "Wc (set_child (Node x0 y0 w0 h0 d its' a b c e) idx k) \<le> Wc (Node x0 y0 w0 h0 d its a b c e)"
    using assms by (rule Wc_set_child)
  moreover have "depth (set_child (Node x0 y0 w0 h0 d its' a b c e) idx k) = d"
    by simp
  ultimately show ?thesis
    unfolding W_Wc[of "set_child (Node x0 y0 w0 h0 d its' a b c e) idx k"]
      W_Wc[of "Node x0 y0 w0 h0 d its a b c e"]
    by (simp del: set_child.simps Wc.simps)
qed

lemma depth_split_qt: "depth (split_qt t) = depth t"
  by (simp add: split_qt_def Let_def)

lemma Wc_split_qt: "Wc (split_qt t) = 6 - depth t"
  by (simp add: split_qt_def Let_def)

lemma W_bound_dom:
  "insert_qt_redistribute_dom (Inl (ps, n, t)) \<Longrightarrow> W (insert_qt ps n t) \<le> W t"
  "insert_qt_redistribute_dom (Inr (ps, t, i)) \<Longrightarrow>
     Wc (redistribute ps t i) \<le> Wc t \<and> depth (redistribute ps t i) = depth t"
proof (induct ps n t and ps t i rule: insert_qt_redistribute.pinduct)
  case (1 ps n x0 y0 w0 h0 d its a b c e)
  let ?t = "Node x0 y0 w0 h0 d its a b c e"
  show ?case
  proof (cases "getIndex ?t (ps ! n) = -1")
    case True
    with 1(1) show ?thesis by (simp add: insert_qt.psimps)
  next
    case False
    with 1(2) have "W (insert_qt ps n (child ?t (getIndex ?t (ps ! n)))) \<le> W (child ?t (getIndex ?t (ps ! n)))"
      by simp
    then have "W (set_child ?t (getIndex ?t (ps ! n)) (insert_qt ps n (child ?t (getIndex ?t (ps ! n))))) \<le> W ?t"
      by (rule W_set_child)
    with False 1(1) show ?thesis by (simp add: insert_qt.psimps Let_def del: W.simps child.simps set_child.simps)
  qed
next
  case (2 ps n x0 y0 w0 h0 d its)
  show ?case
  proof (cases "length (its @ [n]) > 8 \<and> d < 6")
    case True
    with 2(2) have "Wc (redistribute ps (split_qt (Leaf x0 y0 w0 h0 d (its @ [n]))) (length (its @ [n])))
        \<le> Wc (split_qt (Leaf x0 y0 w0 h0 d (its @ [n])))"
      and "depth (redistribute ps (split_qt (Leaf x0 y0 w0 h0 d (its @ [n]))) (length (its @ [n]))) = d"
      by (simp_all add: depth_split_qt)
    moreover have "Wc (split_qt (Leaf x0 y0 w0 h0 d (its @ [n]))) \<le> 7 - d"
      by (simp add: Wc_split_qt)
    ultimately have "W (redistribute ps (split_qt (Leaf x0 y0 w0 h0 d (its @ [n]))) (length (its @ [n]))) \<le> 7 - d"
      by (cases "redistribute ps (split_qt (Leaf x0 y0 w0 h0 d (its @ [n]))) (length (its @ [n]))") simp_all
    with True 2(1) show ?thesis by (simp add: insert_qt.psimps)
  next
    case False
    with 2(1) show ?thesis by (auto simp add: insert_qt.psimps)
  qed
next
  case (3 ps t)
  then show ?case by (simp add: redistribute.psimps)
next
  case (4 ps x0 y0 w0 h0 d its i)
  then show ?case by (simp add: redistribute.psimps)
next
  case (5 ps x0 y0 w0 h0 d its a b c e i)
  let ?t = "Node x0 y0 w0 h0 d its a b c e"
  let ?idx = "getIndex ?t (ps ! (its ! i))"
  show ?case
  proof (cases "?idx = -1")
    case True
    with 5(1,4) show ?thesis by (simp add: redistribute.psimps)
  next
    case False
    let ?t' = "set_child (Node x0 y0 w0 h0 d (take i its @ drop (Suc i) its) a b c e) ?idx
                 (insert_qt ps (its ! i) (child ?t ?idx))"
    from False 5(2) have "W (insert_qt ps (its ! i) (child ?t ?idx)) \<le> W (child ?t ?idx)"
      by simp
    then have "Wc ?t' \<le> Wc ?t" by (rule Wc_set_child)
    moreover have "depth ?t' = d" by simp
    moreover from False 5(3) have "Wc (redistribute ps ?t' i) \<le> Wc ?t' \<and> depth (redistribute ps ?t' i) = depth ?t'"
      by simp
    ultimately have "Wc (redistribute ps ?t' i) \<le> Wc ?t \<and> depth (redistribute ps ?t' i) = d"
      by linarith
    with False 5(1) show ?thesis
      by (simp add: redistribute.psimps Let_def del: W.simps Wc.simps child.simps set_child.simps)
  qed
qed

termination insert_qt
proof (relation "inv_image (less_than <*lex*> less_than <*lex*> less_than)
    (\<lambda>v. case v of Inl (ps, n, t) \<Rightarrow> (W t, 1::nat, size t)
                      | Inr (ps, t, i) \<Rightarrow> (Wc t, 2, i))", goal_cases)
  case 1
  then show ?case by (intro wf_inv_image wf_lex_prod wf_less_than)
next
  case (2 ps n x0 y0 w0 h0 d its a b c e idx)
  have "W (child (Node x0 y0 w0 h0 d its a b c e) idx) \<le> W (Node x0 y0 w0 h0 d its a b c e)"
    by (rule W_child)
  moreover have "size (child (Node x0 y0 w0 h0 d its a b c e) idx) < size (Node x0 y0 w0 h0 d its a b c e)"
    by (rule size_child)
  ultimately show ?case by (simp del: W.simps child.simps QuadTree.size) linarith
next
  case (3 ps n x0 y0 w0 h0 d its)
  then show ?case by (auto simp: Wc_split_qt)
next
  case (4 ps x0 y0 w0 h0 d its a b c e i idx)
  have "W (child (Node x0 y0 w0 h0 d its a b c e) idx) \<le> Wc (Node x0 y0 w0 h0 d its a b c e)"
    by (rule W_child_Wc)
  then show ?case by (simp del: W.simps Wc.simps child.simps) linarith
next
  case (5 ps x0 y0 w0 h0 d its a b c e i idx)
  from 5(3) have "W (insert_qt ps (its ! i) (child (Node x0 y0 w0 h0 d its a b c e) idx))
      \<le> W (child (Node x0 y0 w0 h0 d its a b c e) idx)"
    using W_bound_dom(1) by blast
  then have "Wc (set_child (Node x0 y0 w0 h0 d (take i its @ drop (Suc i) its) a b c e) idx
      (insert_qt ps (its ! i) (child (Node x0 y0 w0 h0 d its a b c e) idx)))
      \<le> Wc (Node x0 y0 w0 h0 d its a b c e)"
    by (rule Wc_set_child)
  then show ?case
    by (simp del: W.simps Wc.simps child.simps set_child.simps add: order_le_less)
next
  case (6 ps x0 y0 w0 h0 d its a b c e i idx)
  then show ?case by simp
qed

section \<open>The invariant of the quadtree\<close>

lemma getIndex_Node:
  "getIndex (Node x0 y0 w0 h0 d its a b c e) p = getIndex (Leaf x0 y0 w0 h0 d []) p"
  by (simp add: getIndex_def)

lemma getIndex_range: "getIndex t p \<in> {-1, 0, 1, 2, 3}"
  by (simp add: getIndex_def Let_def)

lemma set_remove_nth: "i < length its \<Longrightarrow> insert (its ! i) (set (take i its @ drop (Suc i) its)) = set its"
proof -
  assume a: "i < length its"
  then have "its = take i its @ its ! i # drop (Suc i) its"
    by (simp add: id_take_nth_drop)
  then have "set its = set (take i its @ its ! i # drop (Suc i) its)" by simp
  then show ?thesis by auto
qed

lemma items_insert:
  "all_items (insert_qt ps n t) = insert n (all_items t)"
  "i \<le> length (items t) \<Longrightarrow> all_items (redistribute ps t i) = all_items t"
proof (induct ps n t and ps t i rule: insert_qt_redistribute.induct)
  case (1 ps n x0 y0 w0 h0 d its a b c e)
  then show ?case by (auto simp: Let_def)
next
  case (2 ps n x0 y0 w0 h0 d its)
  then show ?case by (auto simp: split_qt_def Let_def)
next
  case (3 ps t)
  then show ?case by simp
next
  case (4 ps x0 y0 w0 h0 d its i)
  then show ?case by simp
next
  case (5 ps x0 y0 w0 h0 d its a b c e i)
  let ?t = "Node x0 y0 w0 h0 d its a b c e"
  let ?idx = "getIndex ?t (ps ! (its ! i))"
  from 5(4) have il: "i < length its" by simp
  show ?case
  proof (cases "?idx = -1")
    case True
    with 5(3) il show ?thesis by simp
  next
    case False
    let ?its' = "take i its @ drop (Suc i) its"
    let ?k = "insert_qt ps (its ! i) (child ?t ?idx)"
    let ?t' = "set_child (Node x0 y0 w0 h0 d ?its' a b c e) ?idx ?k"
    have k: "all_items ?k = insert (its ! i) (all_items (child ?t ?idx))"
      using 5(1) False by simp
    have len: "i \<le> length (items ?t')" using il by simp
    have "all_items (redistribute ps ?t' i) = all_items ?t'"
      using 5(2)[OF refl False len] .
    moreover have "all_items ?t' = all_items ?t"
      using set_remove_nth[OF il] k by (auto simp del: insert_qt.simps)
    ultimately show ?thesis using False by (simp add: Let_def del: set_child.simps child.simps all_items.simps)
  qed
qed

lemma wf_set_child:
  assumes "wf_qt ps (Node x0 y0 w0 h0 d its a b c e)"
    and "wf_qt ps k"
    and "idx \<in> {0, 1, 2, 3}"
    and "\<forall>m \<in> all_items k. getIndex (Leaf x0 y0 w0 h0 d []) (ps ! m) = idx"
  shows "wf_qt ps (set_child (Node x0 y0 w0 h0 d its' a b c e) idx k)"
  using assms by auto

lemma wf_child: "wf_qt ps t \<Longrightarrow> wf_qt ps (child t idx)"
  by (cases t) auto

lemma child_items_index:
  "wf_qt ps (Node x0 y0 w0 h0 d its a b c e) \<Longrightarrow> idx \<in> {0, 1, 2, 3} \<Longrightarrow>
   m \<in> all_items (child (Node x0 y0 w0 h0 d its a b c e) idx) \<Longrightarrow>
   getIndex (Leaf x0 y0 w0 h0 d []) (ps ! m) = idx"
  by auto

lemma wf_insert:
  "wf_qt ps t \<Longrightarrow> wf_qt ps (insert_qt ps n t)"
  "wf_qt ps t \<Longrightarrow> wf_qt ps (redistribute ps t i)"
proof (induct ps n t and ps t i rule: insert_qt_redistribute.induct)
  case (1 ps n x0 y0 w0 h0 d its a b c e)
  let ?t = "Node x0 y0 w0 h0 d its a b c e"
  let ?idx = "getIndex ?t (ps ! n)"
  show ?case
  proof (cases "?idx = -1")
    case True
    with 1(2) show ?thesis by simp
  next
    case False
    then have rg: "?idx \<in> {0, 1, 2, 3}" using getIndex_range[of ?t "ps ! n"] by auto
    have wk: "wf_qt ps (insert_qt ps n (child ?t ?idx))"
      using 1(1)[OF refl False] wf_child[OF 1(2)] by blast
    have "\<forall>m \<in> all_items (insert_qt ps n (child ?t ?idx)). getIndex (Leaf x0 y0 w0 h0 d []) (ps ! m) = ?idx"
      using child_items_index[OF 1(2) rg] by (auto simp: items_insert getIndex_Node simp del: child.simps)
    from wf_set_child[OF 1(2) wk rg this] False
    show ?thesis by (simp add: Let_def del: set_child.simps child.simps wf_qt.simps)
  qed
next
  case (2 ps n x0 y0 w0 h0 d its)
  have "wf_qt ps (split_qt (Leaf x0 y0 w0 h0 d (its @ [n])))"
    by (simp add: split_qt_def Let_def)
  with 2 show ?case by simp
next
  case (3 ps t)
  then show ?case by simp
next
  case (4 ps x0 y0 w0 h0 d its i)
  then show ?case by simp
next
  case (5 ps x0 y0 w0 h0 d its a b c e i)
  let ?t = "Node x0 y0 w0 h0 d its a b c e"
  let ?idx = "getIndex ?t (ps ! (its ! i))"
  show ?case
  proof (cases "?idx = -1")
    case True
    with 5(3,4) show ?thesis by simp
  next
    case False
    then have rg: "?idx \<in> {0, 1, 2, 3}" using getIndex_range[of ?t "ps ! (its ! i)"] by auto
    let ?k = "insert_qt ps (its ! i) (child ?t ?idx)"
    let ?t' = "set_child (Node x0 y0 w0 h0 d (take i its @ drop (Suc i) its) a b c e) ?idx ?k"
    have wk: "wf_qt ps ?k"
      using 5(1)[OF refl False] wf_child[OF 5(4)] by blast
    have "\<forall>m \<in> all_items ?k. getIndex (Leaf x0 y0 w0 h0 d []) (ps ! m) = ?idx"
      using child_items_index[OF 5(4) rg] by (auto simp: items_insert getIndex_Node simp del: child.simps)
    from wf_set_child[OF 5(4) wk rg this] have "wf_qt ps ?t'" .
    from 5(2)[OF refl False this] False
    show ?thesis by (simp add: Let_def del: set_child.simps child.simps wf_qt.simps)
  qed
qed

lemma build_fold:
  "wf_qt ps t \<Longrightarrow> wf_qt ps (fold (\<lambda>i qt. insert_qt ps i qt) js t) \<and>
     all_items (fold (\<lambda>i qt. insert_qt ps i qt) js t) = all_items t \<union> set js"
  by (induction js arbitrary: t) (auto simp: wf_insert items_insert)

lemma wf_build: "wf_qt ps (build env ps)"
  unfolding build_def using build_fold[of ps "Leaf 0 0 (width env) (height env) 0 []"] by simp

lemma all_items_build: "all_items (build env ps) = {0..<length ps}"
  unfolding build_def using build_fold[of ps "Leaf 0 0 (width env) (height env) 0 []" "[0..<length ps]"] by simp

lemma retrieve_mono: "set acc \<subseteq> set (retrieve t p acc)"
proof (induction t arbitrary: acc)
  case (Leaf x1 x2 x3 x4 x5 x6)
  then show ?case by simp
next
  case (Node x0 y0 w0 h0 d its a b c e)
  have "set acc \<subseteq> set (retrieve a p acc)" by (rule Node.IH(1))
  also have "\<dots> \<subseteq> set (retrieve b p (retrieve a p acc))" by (rule Node.IH(2))
  also have "\<dots> \<subseteq> set (retrieve c p (retrieve b p (retrieve a p acc)))" by (rule Node.IH(3))
  also have "\<dots> \<subseteq> set (retrieve e p (retrieve c p (retrieve b p (retrieve a p acc))))" by (rule Node.IH(4))
  finally have all4: "set acc \<subseteq> set (retrieve e p (retrieve c p (retrieve b p (retrieve a p acc))))" .
  show ?case
    using all4 Node.IH(1)[of acc] Node.IH(2)[of acc] Node.IH(3)[of acc] Node.IH(4)[of acc]
    by (auto simp: Let_def)
qed

lemma retrieve_finds:
  assumes compat: "\<And>x0 y0 w0 h0 d. getIndex (Leaf x0 y0 w0 h0 d []) p \<noteq> -1 \<Longrightarrow>
            getIndex (Leaf x0 y0 w0 h0 d []) (ps ! m) \<noteq> -1 \<Longrightarrow>
            getIndex (Leaf x0 y0 w0 h0 d []) p = getIndex (Leaf x0 y0 w0 h0 d []) (ps ! m)"
  shows "wf_qt ps t \<Longrightarrow> m \<in> all_items t \<Longrightarrow> m \<in> set (retrieve t p acc)"
proof (induction t arbitrary: acc)
  case (Leaf x1 x2 x3 x4 x5 x6)
  then show ?case by simp
next
  case (Node x0 y0 w0 h0 d its a b c e)
  let ?t = "Node x0 y0 w0 h0 d its a b c e"
  let ?g = "getIndex (Leaf x0 y0 w0 h0 d [])"
  have rg: "?g p \<in> {-1, 0, 1, 2, 3}" by (rule getIndex_range)
  from Node.prems(2) consider
      (here) "m \<in> set its" | (ca) "m \<in> all_items a" | (cb) "m \<in> all_items b"
    | (cc) "m \<in> all_items c" | (ce) "m \<in> all_items e"
    by auto
  then show ?case
  proof cases
    case here
    then show ?thesis by (simp add: Let_def)
  next
    case ca
    with Node.prems(1) have gm: "?g (ps ! m) = 0" by simp
    have wa: "wf_qt ps a" using Node.prems(1) by simp
    have f1: "\<And>acc. m \<in> set (retrieve a p acc)" using Node.IH(1)[OF wa ca] .
    have "m \<in> set (retrieve e p (retrieve c p (retrieve b p (retrieve a p acc))))"
      using f1[of acc] retrieve_mono by blast
    moreover have "?g p = -1 \<or> ?g p = 0" using compat[of x0 y0 w0 h0 d] gm by auto
    ultimately show ?thesis using f1[of acc] by (auto simp: Let_def getIndex_Node)
  next
    case cb
    with Node.prems(1) have gm: "?g (ps ! m) = 1" by simp
    have wb: "wf_qt ps b" using Node.prems(1) by simp
    have f1: "\<And>acc. m \<in> set (retrieve b p acc)" using Node.IH(2)[OF wb cb] .
    have "m \<in> set (retrieve e p (retrieve c p (retrieve b p (retrieve a p acc))))"
      using f1[of "retrieve a p acc"] retrieve_mono by blast
    moreover have "?g p = -1 \<or> ?g p = 1" using compat[of x0 y0 w0 h0 d] gm by auto
    ultimately show ?thesis using f1[of acc] by (auto simp: Let_def getIndex_Node)
  next
    case cc
    with Node.prems(1) have gm: "?g (ps ! m) = 2" by simp
    have wc: "wf_qt ps c" using Node.prems(1) by simp
    have f1: "\<And>acc. m \<in> set (retrieve c p acc)" using Node.IH(3)[OF wc cc] .
    have "m \<in> set (retrieve e p (retrieve c p (retrieve b p (retrieve a p acc))))"
      using f1[of "retrieve b p (retrieve a p acc)"] retrieve_mono by blast
    moreover have "?g p = -1 \<or> ?g p = 2" using compat[of x0 y0 w0 h0 d] gm by auto
    ultimately show ?thesis using f1[of acc] by (auto simp: Let_def getIndex_Node)
  next
    case ce
    with Node.prems(1) have gm: "?g (ps ! m) = 3" by simp
    have we: "wf_qt ps e" using Node.prems(1) by simp
    have f1: "\<And>acc. m \<in> set (retrieve e p acc)" using Node.IH(4)[OF we ce] .
    have "m \<in> set (retrieve e p (retrieve c p (retrieve b p (retrieve a p acc))))"
      using f1 by blast
    moreover have "?g p = -1 \<or> ?g p = 3" using compat[of x0 y0 w0 h0 d] gm by auto
    ultimately show ?thesis using f1[of acc] by (auto simp: Let_def getIndex_Node)
  qed
qed

lemma abs_le_sqrt_sum: "\<bar>a\<bar> \<le> sqrt (a * a + b * b)" "\<bar>b\<bar> \<le> sqrt (a * a + b * b)"
proof -
  have "sqrt (a * a) \<le> sqrt (a * a + b * b)" by (rule real_sqrt_le_mono) simp
  then show "\<bar>a\<bar> \<le> sqrt (a * a + b * b)" by simp
  have "sqrt (b * b) \<le> sqrt (a * a + b * b)" by (rule real_sqrt_le_mono) simp
  then show "\<bar>b\<bar> \<le> sqrt (a * a + b * b)" by simp
qed

lemma getIndex_cases:
  "getIndex t p = 0 \<Longrightarrow> x p - r p > qx t + qw t / 2 \<and> y p + r p < qy t + qh t / 2"
  "getIndex t p = 2 \<Longrightarrow> x p - r p > qx t + qw t / 2 \<and> y p - r p > qy t + qh t / 2"
  "getIndex t p = 1 \<Longrightarrow> x p + r p < qx t + qw t / 2 \<and> y p + r p < qy t + qh t / 2"
  "getIndex t p = 3 \<Longrightarrow> x p + r p < qx t + qw t / 2 \<and> y p - r p > qy t + qh t / 2"
  by (simp_all add: getIndex_def Let_def split: if_splits)

text \<open>
  Two particles whose circles touch or overlap are never sent to different children: the
  children are separated by a midline that neither box crosses.
\<close>

lemma getIndex_separates:
  assumes "center_dist p q \<le> r p + r q"
    and "getIndex t p \<noteq> -1" and "getIndex t q \<noteq> -1"
  shows "getIndex t p = getIndex t q"
proof -
  have ax: "\<bar>x p - x q\<bar> \<le> r p + r q"
    using abs_le_sqrt_sum(1)[of "x p - x q" "y p - y q"] assms(1)
    unfolding center_dist_def by linarith
  have ay: "\<bar>y p - y q\<bar> \<le> r p + r q"
    using abs_le_sqrt_sum(2)[of "y p - y q" "x p - x q"] assms(1)
    unfolding center_dist_def by linarith
  have rp: "getIndex t p \<in> {-1, 0, 1, 2, 3}" and rq: "getIndex t q \<in> {-1, 0, 1, 2, 3}"
    by (rule getIndex_range)+
  have "False" if ij: "getIndex t p = i" "getIndex t q = j"
      "i \<in> {0, 1, 2, 3}" "j \<in> {0, 1, 2, 3}" "i \<noteq> j" for i j :: int
    using ij getIndex_cases[of t p] getIndex_cases[of t q] ax ay
    by (elim insertE emptyE) (simp_all, linarith+)
  then show ?thesis using rp rq assms(2,3) by auto
qed

lemma center_dist_sym: "center_dist p q = center_dist q p"
proof -
  have "(x p - x q) * (x p - x q) = (x q - x p) * (x q - x p)"
    and "(y p - y q) * (y p - y q) = (y q - y p) * (y q - y p)"
    by (simp_all add: algebra_simps)
  then show ?thesis by (simp add: center_dist_def)
qed

lemma center_dist_level: "y p = y q \<Longrightarrow> center_dist p q = \<bar>x p - x q\<bar>"
  by (simp add: center_dist_def)

lemma retrieve_close:
  assumes "j < length ps" and "center_dist p (ps ! j) \<le> r p + r (ps ! j)"
  shows "j \<in> set (retrieve (build env ps) p [])"
proof (rule retrieve_finds)
  show "wf_qt ps (build env ps)" by (rule wf_build)
  show "j \<in> all_items (build env ps)" using assms(1) by (simp add: all_items_build)
  fix x0 y0 w0 h0 d
  assume "getIndex (Leaf x0 y0 w0 h0 d []) p \<noteq> - 1"
    and "getIndex (Leaf x0 y0 w0 h0 d []) (ps ! j) \<noteq> - 1"
  with assms(2)
  show "getIndex (Leaf x0 y0 w0 h0 d []) p = getIndex (Leaf x0 y0 w0 h0 d []) (ps ! j)"
    by (rule getIndex_separates)
qed

lemma upt9: "[0..<9] = [0, 1, 2, 3, 4, 5, 6, 7, 8]"
  by (simp add: upt_rec)

text \<open>
  The tree of the nine particles: the ninth insertion splits the root and every particle
  moves to a child.
\<close>

lemma build9:
  "build env9 field9 =
     Node 0 0 1000 1000 0 []
       (Leaf 500 0 500 500 1 [7, 4, 1])
       (Leaf 0 0 500 500 1 [2, 0])
       (Leaf 0 500 500 500 1 [8, 5])
       (Leaf 500 500 500 500 1 [6, 3])"
  by (simp add: build_def field9_def env9_def ball_def upt9 getIndex_def split_qt_def Let_def
      numeral_eq_Suc)

lemma retrieve9_0: "retrieve (build env9 field9) (field9 ! 0) [] = [2, 0]"
  by (simp add: build9) (simp add: field9_def ball_def getIndex_def Let_def)

lemma retrieve9_1: "retrieve (build env9 field9) (field9 ! 1) [] = [7, 4, 1]"
  by (simp add: build9) (simp add: field9_def ball_def getIndex_def Let_def)

section \<open>Every reference is held once\<close>

text \<open>
  Insertion adds the reference once and the redistribution after a split moves references
  without copying them, so the candidate list of a built tree has no duplicates.
\<close>

lemma items_mset_set_child:
  assumes "idx \<in> {0, 1, 2, 3}"
    and "items_mset k = add_mset n (items_mset (child (Node x0 y0 w0 h0 d its a b c e) idx))"
  shows "items_mset (set_child (Node x0 y0 w0 h0 d its' a b c e) idx k)
     = add_mset n (mset its' + items_mset a + items_mset b + items_mset c + items_mset e)"
  using assms by (elim insertE emptyE) simp_all

lemma mset_without_nth: "i < length its \<Longrightarrow> add_mset (its ! i) (mset (take i its @ drop (Suc i) its)) = mset its"
proof -
  assume "i < length its"
  then have "its = take i its @ its ! i # drop (Suc i) its" by (rule id_take_nth_drop)
  then have "mset its = mset (take i its @ its ! i # drop (Suc i) its)" by simp
  then show ?thesis by simp
qed

lemma items_mset_insert:
  "items_mset (insert_qt ps n t) = add_mset n (items_mset t)"
  "i \<le> length (items t) \<Longrightarrow> items_mset (redistribute ps t i) = items_mset t"
proof (induct ps n t and ps t i rule: insert_qt_redistribute.induct)
  case (1 ps n x0 y0 w0 h0 d its a b c e)
  let ?t = "Node x0 y0 w0 h0 d its a b c e"
  let ?idx = "getIndex ?t (ps ! n)"
  show ?case
  proof (cases "?idx = -1")
    case True
    then show ?thesis by simp
  next
    case False
    then have rg: "?idx \<in> {0, 1, 2, 3}" using getIndex_range[of ?t "ps ! n"] by auto
    have k: "items_mset (insert_qt ps n (child ?t ?idx)) = add_mset n (items_mset (child ?t ?idx))"
      using 1(1)[OF refl False] .
    have "items_mset (set_child ?t ?idx (insert_qt ps n (child ?t ?idx)))
        = add_mset n (mset its + items_mset a + items_mset b + items_mset c + items_mset e)"
      using rg k by (rule items_mset_set_child)
    then have "items_mset (set_child ?t ?idx (insert_qt ps n (child ?t ?idx))) = add_mset n (items_mset ?t)"
      by simp
    then show ?thesis using False by (simp add: Let_def del: set_child.simps child.simps items_mset.simps)
  qed
next
  case (2 ps n x0 y0 w0 h0 d its)
  then show ?case by (auto simp: split_qt_def Let_def)
next
  case (3 ps t)
  then show ?case by simp
next
  case (4 ps x0 y0 w0 h0 d its i)
  then show ?case by simp
next
  case (5 ps x0 y0 w0 h0 d its a b c e i)
  let ?t = "Node x0 y0 w0 h0 d its a b c e"
  let ?idx = "getIndex ?t (ps ! (its ! i))"
  from 5(4) have il: "i < length its" by simp
  show ?case
  proof (cases "?idx = -1")
    case True
    with 5(3) il show ?thesis by simp
  next
    case False
    then have rg: "?idx \<in> {0, 1, 2, 3}" using getIndex_range[of ?t "ps ! (its ! i)"] by auto
    let ?its' = "take i its @ drop (Suc i) its"
    let ?k = "insert_qt ps (its ! i) (child ?t ?idx)"
    let ?t' = "set_child (Node x0 y0 w0 h0 d ?its' a b c e) ?idx ?k"
    have k: "items_mset ?k = add_mset (its ! i) (items_mset (child ?t ?idx))"
      using 5(1) False by simp
    have len: "i \<le> length (items ?t')" using il by simp
    have "items_mset (redistribute ps ?t' i) = items_mset ?t'"
      using 5(2)[OF refl False len] .
    moreover have "items_mset ?t' = items_mset ?t"
    proof -
      have "items_mset ?t'
          = add_mset (its ! i) (mset ?its' + items_mset a + items_mset b + items_mset c + items_mset e)"
        using rg k by (rule items_mset_set_child)
      also have "\<dots> = add_mset (its ! i) (mset ?its') + items_mset a + items_mset b + items_mset c + items_mset e"
        by simp
      also have "\<dots> = items_mset ?t"
        unfolding mset_without_nth[OF il] by simp
      finally show ?thesis .
    qed
    ultimately show ?thesis using False by (simp add: Let_def del: set_child.simps child.simps items_mset.simps)
  qed
qed

lemma items_mset_fold:
  "items_mset (fold (\<lambda>i qt. insert_qt ps i qt) js t) = items_mset t + mset js"
  by (induction js arbitrary: t) (simp_all add: items_mset_insert)

lemma items_mset_build: "items_mset (build env ps) = mset [0..<length ps]"
  unfolding build_def by (simp add: items_mset_fold)

lemma sub_step:
  fixes A B C R :: "nat multiset"
  assumes "A \<subseteq># B" and "R \<subseteq># A + C"
  shows "R \<subseteq># B + C"
proof -
  from assms(1) have "A + C \<subseteq># B + C" by simp
  with assms(2) show ?thesis by (rule subset_mset.order_trans)
qed

lemma sub_part:
  fixes A B C D E R :: "nat multiset"
  shows "R \<subseteq># A + B \<Longrightarrow> R \<subseteq># A + B + C + D + E"
    and "R \<subseteq># A + C \<Longrightarrow> R \<subseteq># A + B + C + D + E"
    and "R \<subseteq># A + D \<Longrightarrow> R \<subseteq># A + B + C + D + E"
    and "R \<subseteq># A + E \<Longrightarrow> R \<subseteq># A + B + C + D + E"
proof -
  have "A + B \<subseteq># A + B + C + D + E" "A + C \<subseteq># A + B + C + D + E"
    "A + D \<subseteq># A + B + C + D + E" "A + E \<subseteq># A + B + C + D + E"
    by (simp_all add: subseteq_mset_def)
  then show "R \<subseteq># A + B \<Longrightarrow> R \<subseteq># A + B + C + D + E"
    and "R \<subseteq># A + C \<Longrightarrow> R \<subseteq># A + B + C + D + E"
    and "R \<subseteq># A + D \<Longrightarrow> R \<subseteq># A + B + C + D + E"
    and "R \<subseteq># A + E \<Longrightarrow> R \<subseteq># A + B + C + D + E"
    using subset_mset.order_trans by blast+
qed

lemma retrieve_mset: "mset (retrieve t p acc) \<subseteq># mset acc + items_mset t"
proof (induction t arbitrary: acc)
  case (Leaf x1 x2 x3 x4 x5 x6)
  then show ?case by simp
next
  case (Node x0 y0 w0 h0 d its a b c e)
  let ?A = "items_mset a" and ?B = "items_mset b" and ?C = "items_mset c" and ?E = "items_mset e"
  have 1: "mset (retrieve a p acc) \<subseteq># mset acc + ?A" by (rule Node.IH(1))
  have 2: "mset (retrieve b p (retrieve a p acc)) \<subseteq># mset acc + ?A + ?B"
    using 1 Node.IH(2)[of "retrieve a p acc"] by (rule sub_step)
  have 3: "mset (retrieve c p (retrieve b p (retrieve a p acc))) \<subseteq># mset acc + ?A + ?B + ?C"
    using 2 Node.IH(3)[of "retrieve b p (retrieve a p acc)"] by (rule sub_step)
  have 4: "mset (retrieve e p (retrieve c p (retrieve b p (retrieve a p acc))))
      \<subseteq># mset acc + ?A + ?B + ?C + ?E"
    using 3 Node.IH(4)[of "retrieve c p (retrieve b p (retrieve a p acc))"] by (rule sub_step)
  have sa: "mset (retrieve a p acc) \<subseteq># mset acc + ?A + ?B + ?C + ?E"
    using Node.IH(1)[of acc] by (rule sub_part(1))
  have sb: "mset (retrieve b p acc) \<subseteq># mset acc + ?A + ?B + ?C + ?E"
    using Node.IH(2)[of acc] by (rule sub_part(2))
  have sc: "mset (retrieve c p acc) \<subseteq># mset acc + ?A + ?B + ?C + ?E"
    using Node.IH(3)[of acc] by (rule sub_part(3))
  have se: "mset (retrieve e p acc) \<subseteq># mset acc + ?A + ?B + ?C + ?E"
    using Node.IH(4)[of acc] by (rule sub_part(4))
  have "\<exists>R. retrieve (Node x0 y0 w0 h0 d its a b c e) p acc = R @ its
          \<and> mset R \<subseteq># mset acc + ?A + ?B + ?C + ?E"
    using 4 sa sb sc se by (simp add: Let_def)
  then obtain R where R: "retrieve (Node x0 y0 w0 h0 d its a b c e) p acc = R @ its"
    "mset R \<subseteq># mset acc + ?A + ?B + ?C + ?E" by blast
  from R(2) have "mset R + mset its \<subseteq># mset acc + ?A + ?B + ?C + ?E + mset its" by simp
  moreover have "mset acc + items_mset (Node x0 y0 w0 h0 d its a b c e)
      = mset acc + ?A + ?B + ?C + ?E + mset its" by simp
  ultimately show ?case unfolding R(1) by (simp add: ac_simps)
qed

lemma retrieve_distinct: "distinct (retrieve (build env ps) p [])"
proof -
  let ?R = "retrieve (build env ps) p []"
  have sub: "mset ?R \<subseteq># mset [0..<length ps]"
    using retrieve_mset[of "build env ps" p "[]"] by (simp add: items_mset_build)
  have "distinct [0..<length ps]" by simp
  then have up: "count (mset [0..<length ps]) k \<le> 1" for k
    unfolding distinct_count_atmost_1 by simp
  have "count (mset ?R) k = (if k \<in> set ?R then 1 else 0)" for k
  proof (cases "k \<in> set ?R")
    case True
    then have "1 \<le> count (mset ?R) k" by (simp add: Suc_le_eq)
    moreover have "count (mset ?R) k \<le> count (mset [0..<length ps]) k"
      using sub by (rule mset_subset_eq_count)
    ultimately have "count (mset ?R) k = 1" using up[of k] by linarith
    with True show ?thesis by (simp only: if_True)
  next
    case False
    then show ?thesis by (simp add: count_mset_0_iff)
  qed
  then show ?thesis unfolding distinct_count_atmost_1 by blast
qed


section \<open>The loop updates the store in place\<close>

lemma inplace_length: "length (fold (\<lambda>i ns. ns[i := g ns i]) js ns) = length ns"
  by (induction js arbitrary: ns) simp_all

lemma inplace_Suc:
  "fold (\<lambda>i ns. ns[i := g ns i]) [0..<Suc k] ns =
     (fold (\<lambda>i ns. ns[i := g ns i]) [0..<k] ns)[k := g (fold (\<lambda>i ns. ns[i := g ns i]) [0..<k] ns) k]"
  by simp

lemma inplace_drop: "drop k (fold (\<lambda>i ns. ns[i := g ns i]) [0..<k] ns) = drop k ns"
proof (induction k)
  case 0
  then show ?case by simp
next
  case (Suc k)
  have "drop (Suc k) (fold (\<lambda>i ns. ns[i := g ns i]) [0..<Suc k] ns)
      = drop (Suc k) (fold (\<lambda>i ns. ns[i := g ns i]) [0..<k] ns)"
    unfolding inplace_Suc by (simp add: drop_update_cancel)
  also have "\<dots> = drop 1 (drop k (fold (\<lambda>i ns. ns[i := g ns i]) [0..<k] ns))"
    by simp
  also have "\<dots> = drop (Suc k) ns"
    unfolding Suc.IH by simp
  finally show ?case .
qed

lemma inplace_take:
  "k \<le> m \<Longrightarrow> take k (fold (\<lambda>i ns. ns[i := g ns i]) [0..<m] ns)
     = take k (fold (\<lambda>i ns. ns[i := g ns i]) [0..<k] ns)"
proof (induction m)
  case 0
  then show ?case by simp
next
  case (Suc m)
  show ?case
  proof (cases "k = Suc m")
    case True
    then show ?thesis by simp
  next
    case False
    with Suc.prems have km: "k \<le> m" by simp
    have "take k (fold (\<lambda>i ns. ns[i := g ns i]) [0..<Suc m] ns)
        = take k (fold (\<lambda>i ns. ns[i := g ns i]) [0..<m] ns)"
      unfolding inplace_Suc using km by (simp add: take_update_cancel)
    with Suc.IH[OF km] show ?thesis by simp
  qed
qed

lemma inplace_store:
  assumes "k \<le> length ns"
  shows "fold (\<lambda>i ns. ns[i := g ns i]) [0..<k] ns
     = store_at ns (fold (\<lambda>i ns. ns[i := g ns i]) [0..<length ns] ns) k"
proof -
  let ?L = "\<lambda>k. fold (\<lambda>i ns. ns[i := g ns i]) [0..<k] ns"
  have "?L k = take k (?L k) @ drop k (?L k)" by simp
  also have "take k (?L k) = take k (?L (length ns))"
    using inplace_take[OF assms, of g ns] by simp
  also have "drop k (?L k) = drop k ns" by (rule inplace_drop)
  finally show ?thesis by (simp add: store_at_def)
qed

lemma inplace_nth:
  assumes "i < length ns"
  shows "fold (\<lambda>i ns. ns[i := g ns i]) [0..<length ns] ns ! i
     = g (store_at ns (fold (\<lambda>i ns. ns[i := g ns i]) [0..<length ns] ns) i) i"
proof -
  let ?L = "\<lambda>k. fold (\<lambda>i ns. ns[i := g ns i]) [0..<k] ns"
  have "?L (length ns) ! i = take (Suc i) (?L (length ns)) ! i" by simp
  also have "take (Suc i) (?L (length ns)) = take (Suc i) (?L (Suc i))"
    using inplace_take[of "Suc i" "length ns" g ns] assms by simp
  also have "take (Suc i) (?L (Suc i)) ! i = ?L (Suc i) ! i" by simp
  also have "?L (Suc i) ! i = g (?L i) i"
    unfolding inplace_Suc using assms by (simp add: inplace_length)
  also have "?L i = store_at ns (?L (length ns)) i"
    using inplace_store[of i ns g] assms by simp
  finally show ?thesis .
qed

lemma store_at_nth: "i < length pre \<Longrightarrow> length post = length pre \<Longrightarrow> store_at pre post i ! i = pre ! i"
  by (simp add: store_at_def nth_append)

lemma store_at_length: "length post = length pre \<Longrightarrow> length (store_at pre post i) = length pre"
  by (simp add: store_at_def)

lemma simulate_length: "length (snd (simulate env now nodes)) = length nodes"
  by (simp add: simulate_def simulate_loop_def Let_def inplace_length)

lemma simulate_nth:
  assumes "i < length nodes"
  shows "snd (simulate env now nodes) ! i
     = step_particle (prune now env) now (build env nodes)
         (store_at nodes (snd (simulate env now nodes)) i) i"
  using inplace_nth[OF assms, of "step_particle (prune now env) now (build env nodes)"]
  by (simp add: simulate_def simulate_loop_def Let_def)

section \<open>What the steps leave unchanged\<close>

lemma home_pull_keeps [simp]:
  "x (home_pull n) = x n" "y (home_pull n) = y n" "r (home_pull n) = r n"
  "homeX (home_pull n) = homeX n" "homeY (home_pull n) = homeY n"
  by (simp_all add: home_pull_def Let_def)

lemma scroll_disperse_keeps [simp]:
  "x (scroll_disperse env n) = x n" "y (scroll_disperse env n) = y n"
  "r (scroll_disperse env n) = r n"
  by (simp_all add: scroll_disperse_def Let_def split: jsnum.split)

lemma cursor_repel_keeps [simp]:
  "x (cursor_repel env n) = x n" "y (cursor_repel env n) = y n" "r (cursor_repel env n) = r n"
  by (simp_all add: cursor_repel_def Let_def)

lemma shockwave_push_keeps [simp]:
  "x (shockwave_push now sw n) = x n" "y (shockwave_push now sw n) = y n"
  "r (shockwave_push now sw n) = r n"
  by (simp_all add: shockwave_push_def Let_def)

lemma shockwave_fold_keeps:
  "x (fold (shockwave_push now) sws n) = x n \<and> y (fold (shockwave_push now) sws n) = y n
     \<and> r (fold (shockwave_push now) sws n) = r n"
  by (induction sws arbitrary: n) simp_all

lemma shockwave_all_keeps [simp]:
  "x (shockwave_all env now n) = x n" "y (shockwave_all env now n) = y n"
  "r (shockwave_all env now n) = r n"
  by (simp_all add: shockwave_all_def shockwave_fold_keeps)

lemma collide_one_keeps [simp]:
  "x (collide_one n q) = x n" "y (collide_one n q) = y n" "r (collide_one n q) = r n"
  by (simp_all add: collide_one_def Let_def)

lemma collide_fold_keeps:
  "x (fold (\<lambda>j m. if j = i then m else collide_one m (nodes ! j)) js n) = x n
   \<and> y (fold (\<lambda>j m. if j = i then m else collide_one m (nodes ! j)) js n) = y n
   \<and> r (fold (\<lambda>j m. if j = i then m else collide_one m (nodes ! j)) js n) = r n"
  by (induction js arbitrary: n) simp_all

lemma collide_all_keeps [simp]:
  "x (collide_all qt nodes i n) = x n" "y (collide_all qt nodes i n) = y n"
  "r (collide_all qt nodes i n) = r n"
  by (simp_all add: collide_all_def collide_fold_keeps)

lemma accumulate_keeps [simp]:
  "x (accumulate env now qt nodes i) = x (nodes ! i)"
  "y (accumulate env now qt nodes i) = y (nodes ! i)"
  "r (accumulate env now qt nodes i) = r (nodes ! i)"
  by (simp_all add: accumulate_def)

lemma integrate_fields [simp]:
  "vx (integrate n) = vx n * DAMPING" "vy (integrate n) = vy n * DAMPING"
  "x (integrate n) = x n + vx n * DAMPING" "y (integrate n) = y n + vy n * DAMPING"
  "r (integrate n) = r n"
  by (simp_all add: integrate_def Let_def)

lemma keep_in_bounds_r [simp]: "r (keep_in_bounds env n) = r n"
  by (simp add: keep_in_bounds_def Let_def)

text \<open>The result of the four tests, one axis at a time.\<close>

lemma keep_in_bounds_x:
  "x (keep_in_bounds env n) =
     (let x1 = (if x n < r n then r n else x n) in if x1 > width env - r n then width env - r n else x1)"
  "vx (keep_in_bounds env n) =
     (let v1 = (if x n < r n then vx n * (-0.5) else vx n);
          x1 = (if x n < r n then r n else x n)
      in if x1 > width env - r n then v1 * (-0.5) else v1)"
  by (simp_all add: keep_in_bounds_def Let_def)

lemma keep_in_bounds_y:
  "y (keep_in_bounds env n) =
     (let y1 = (if y n < r n then r n else y n) in if y1 > height env - r n then height env - r n else y1)"
  "vy (keep_in_bounds env n) =
     (let v1 = (if y n < r n then vy n * (-0.5) else vy n);
          y1 = (if y n < r n then r n else y n)
      in if y1 > height env - r n then v1 * (-0.5) else v1)"
  by (simp_all add: keep_in_bounds_def Let_def)

lemma prune_dims [simp]:
  "width (prune now env) = width env" "height (prune now env) = height env"
  "centerX (prune now env) = centerX env" "centerY (prune now env) = centerY env"
  "mouseX (prune now env) = mouseX env" "mouseY (prune now env) = mouseY env"
  "scrollProgress (prune now env) = scrollProgress env"
  "shockwaves (prune now env) = filter (\<lambda>s. now - time s < 400) (shockwaves env)"
  by (simp_all add: prune_def)

lemma step_particle_r [simp]: "r (step_particle env now qt ns i) = r (ns ! i)"
  by (simp add: step_particle_def)

lemma store_at_self:
  "i < length nodes \<Longrightarrow> store_at nodes (snd (simulate env now nodes)) i ! i = nodes ! i"
  by (simp add: store_at_nth simulate_length)

lemmas force_defs = accumulate_def home_pull_def scroll_disperse_def cursor_repel_def
  shockwave_all_def collide_all_def prune_def HOME_STRENGTH_def CURSOR_REPULSION_def Let_def

lemmas move_defs = integrate_def keep_in_bounds_def prune_def DAMPING_def Let_def

lemma simulate_single:
  "snd (simulate env now [p]) =
     [step_particle (prune now env) now (Leaf 0 0 (width env) (height env) 0 [0]) [p] 0]"
  by (simp add: simulate_def simulate_loop_def build_def Let_def)

lemma build_single: "build env [p] = Leaf 0 0 (width env) (height env) 0 [0]"
  by (simp add: build_def)

lemma accumulate_wide_ball:
  "accumulate (prune 0 narrow_env) 0 (build narrow_env [wide_ball]) [wide_ball] 0 = wide_ball"
  unfolding build_single by (simp add: force_defs narrow_env_def wide_ball_def)

lemma simulate_wide_ball:
  "snd (simulate narrow_env 0 [wide_ball]) = [wide_ball\<lparr>x := 8, vx := 0.22\<rparr>]"
  unfolding simulate_single step_particle_def accumulate_wide_ball[unfolded build_single]
  by (simp add: move_defs narrow_env_def wide_ball_def)

lemma accumulate_fast_ball:
  "accumulate (prune 0 env9) 0 (build env9 [fast_ball]) [fast_ball] 0 = fast_ball"
  unfolding build_single by (simp add: force_defs env9_def fast_ball_def)

lemma simulate_fast_ball:
  "snd (simulate env9 0 [fast_ball]) = [fast_ball\<lparr>x := 4, vx := 4.4\<rparr>]"
  unfolding simulate_single step_particle_def accumulate_fast_ball[unfolded build_single]
  by (simp add: move_defs env9_def fast_ball_def)

section \<open>Shockwaves\<close>

lemma prune_drops_expired:
  "400 \<le> now - time s \<Longrightarrow> prune now (env\<lparr>shockwaves := pre @ s # post\<rparr>) = prune now (env\<lparr>shockwaves := pre @ post\<rparr>)"
  by (simp add: prune_def)

lemma build_shockwaves: "build (env\<lparr>shockwaves := sws\<rparr>) nodes = build env nodes"
  by (simp add: build_def)

lemma sqrt_sq_sum:
  assumes "0 \<le> f" "0 < d" "d = sqrt (a * a + b * b)"
  shows "sqrt ((a / d * f) * (a / d * f) + (b / d * f) * (b / d * f)) = f"
proof -
  have "0 \<le> a * a + b * b" by simp
  then have "sqrt (a * a + b * b) * sqrt (a * a + b * b) = a * a + b * b"
    by simp
  with assms(3) have dd: "d * d = a * a + b * b" by simp
  have d0: "d \<noteq> 0" using assms(2) by simp
  have "(a / d * f) * (a / d * f) + (b / d * f) * (b / d * f) = (a * a + b * b) / (d * d) * (f * f)"
    using d0 by (simp add: field_simps)
  also have "\<dots> = (d * d) / (d * d) * (f * f)" by (simp only: dd)
  also have "\<dots> = f * f" using d0 by simp
  finally show ?thesis using assms(1) by simp
qed

lemma sqrt_less_300: "0 \<le> s \<Longrightarrow> (sqrt s < 300) = (s < 300 * 300)"
proof -
  have "sqrt (300 * 300) = (300::real)" by simp
  then have "(sqrt s < 300) = (sqrt s < sqrt (300 * 300))" by simp
  also have "\<dots> = (s < 300 * 300)" by (rule real_sqrt_less_iff)
  finally show ?thesis .
qed

lemma shockwave_push_in_range:
  assumes "0 < (x n - sx s) * (x n - sx s) + (y n - sy s) * (y n - sy s)"
    and "(x n - sx s) * (x n - sx s) + (y n - sy s) * (y n - sy s) < 300 * 300"
  shows "shockwave_push now s n =
     n\<lparr>vx := vx n + (x n - sx s) / sqrt ((x n - sx s) * (x n - sx s) + (y n - sy s) * (y n - sy s))
               * ((1 - (now - time s) / 400) * 15
                   * (1 - sqrt ((x n - sx s) * (x n - sx s) + (y n - sy s) * (y n - sy s)) / 300)),
        vy := vy n + (y n - sy s) / sqrt ((x n - sx s) * (x n - sx s) + (y n - sy s) * (y n - sy s))
               * ((1 - (now - time s) / 400) * 15
                   * (1 - sqrt ((x n - sx s) * (x n - sx s) + (y n - sy s) * (y n - sy s)) / 300))\<rparr>"
  unfolding shockwave_push_def Let_def using assms by (simp only: if_True simp_thms)

lemma sqrt_50: "sqrt (30 * 30 + 40 * 40) = (50::real)"
  by (rule real_sqrt_unique) simp_all

text \<open>
  The loop over the shockwaves adds to the velocity a vector that depends on the position
  alone, and the collision loop that follows reads no velocity: the pushes of a tick can be
  added after it.
\<close>

lemma add_v_keeps [simp]:
  "x (add_v a b n) = x n" "y (add_v a b n) = y n" "r (add_v a b n) = r n"
  "vx (add_v a b n) = vx n + a" "vy (add_v a b n) = vy n + b"
  by (simp_all add: add_v_def)

lemma add_v_zero: "add_v 0 0 n = n"
  by (simp add: add_v_def)

lemma add_v_add_v: "add_v a b (add_v c d n) = add_v (c + a) (d + b) n"
  by (simp add: add_v_def add.assoc)

lemma shockwave_push_add_v:
  "shockwave_push now s n
     = add_v (vx (shockwave_push now s n) - vx n) (vy (shockwave_push now s n) - vy n) n"
  by (simp add: shockwave_push_def add_v_def Let_def)

lemma shockwave_push_position:
  assumes "x m = x n" "y m = y n"
  shows "vx (shockwave_push now s m) - vx m = vx (shockwave_push now s n) - vx n"
    and "vy (shockwave_push now s m) - vy m = vy (shockwave_push now s n) - vy n"
  using assms by (simp_all add: shockwave_push_def Let_def)

lemma shockwave_fold_add_v:
  assumes "x m = x n" "y m = y n"
  shows "fold (shockwave_push now) sws m
     = add_v (\<Sum>s\<leftarrow>sws. vx (shockwave_push now s n) - vx n)
             (\<Sum>s\<leftarrow>sws. vy (shockwave_push now s n) - vy n) m"
  using assms
proof (induction sws arbitrary: m)
  case Nil
  then show ?case by (simp add: add_v_zero)
next
  case (Cons s sws)
  let ?a = "vx (shockwave_push now s n) - vx n" and ?b = "vy (shockwave_push now s n) - vy n"
  have p: "shockwave_push now s m = add_v ?a ?b m"
    using shockwave_push_add_v[of now s m] shockwave_push_position[OF Cons.prems, of now s]
    by simp
  have "fold (shockwave_push now) (s # sws) m = fold (shockwave_push now) sws (add_v ?a ?b m)"
    by (simp add: p)
  also have "\<dots> = add_v (\<Sum>s\<leftarrow>sws. vx (shockwave_push now s n) - vx n)
             (\<Sum>s\<leftarrow>sws. vy (shockwave_push now s n) - vy n) (add_v ?a ?b m)"
    by (rule Cons.IH) (simp_all add: Cons.prems)
  finally show ?case by (simp add: add_v_add_v)
qed

lemma getIndex_add_v [simp]: "getIndex t (add_v a b n) = getIndex t n"
  by (simp add: getIndex_def)

lemma retrieve_add_v [simp]: "retrieve t (add_v a b n) acc = retrieve t n acc"
  by (induction t arbitrary: acc) (simp_all add: Let_def)

lemma collide_one_add_v: "collide_one (add_v a b n) q = add_v a b (collide_one n q)"
  by (simp add: collide_one_def add_v_def Let_def)

lemma collide_fold_add_v:
  "fold (\<lambda>j m. if j = i then m else collide_one m (st ! j)) js (add_v a b n)
     = add_v a b (fold (\<lambda>j m. if j = i then m else collide_one m (st ! j)) js n)"
  by (induction js arbitrary: n) (simp_all add: collide_one_add_v)

lemma collide_all_add_v: "collide_all qt st i (add_v a b n) = add_v a b (collide_all qt st i n)"
  by (simp add: collide_all_def collide_fold_add_v)

lemma cursor_repel_shockwaves [simp]: "cursor_repel (env\<lparr>shockwaves := sws\<rparr>) n = cursor_repel env n"
  by (simp add: cursor_repel_def)

lemma scroll_disperse_shockwaves [simp]:
  "scroll_disperse (env\<lparr>shockwaves := sws\<rparr>) n = scroll_disperse env n"
  by (simp add: scroll_disperse_def Let_def split: jsnum.split)

lemma keep_in_bounds_shockwaves [simp]:
  "keep_in_bounds (env\<lparr>shockwaves := sws\<rparr>) n = keep_in_bounds env n"
  by (simp add: keep_in_bounds_def Let_def)

lemma accumulate_shockwaves:
  "accumulate (env\<lparr>shockwaves := sws\<rparr>) now qt st i
     = add_v (\<Sum>s\<leftarrow>sws. vx (shockwave_push now s (st ! i)) - vx (st ! i))
             (\<Sum>s\<leftarrow>sws. vy (shockwave_push now s (st ! i)) - vy (st ! i))
         (accumulate (env\<lparr>shockwaves := []\<rparr>) now qt st i)"
proof -
  let ?p = "cursor_repel env (scroll_disperse env (home_pull (st ! i)))"
  have xy: "x ?p = x (st ! i)" "y ?p = y (st ! i)" by simp_all
  show ?thesis
    unfolding accumulate_def shockwave_all_def
    by (simp add: shockwave_fold_add_v[OF xy] collide_all_add_v)
qed

lemma simulate_shockwaves:
  assumes "i < length nodes"
  shows "snd (simulate env now nodes) ! i
     = keep_in_bounds env (integrate
         (add_v (\<Sum>s\<leftarrow>filter (\<lambda>s. now - time s < 400) (shockwaves env).
                    vx (shockwave_push now s (nodes ! i)) - vx (nodes ! i))
                (\<Sum>s\<leftarrow>filter (\<lambda>s. now - time s < 400) (shockwaves env).
                    vy (shockwave_push now s (nodes ! i)) - vy (nodes ! i))
            (accumulate (env\<lparr>shockwaves := []\<rparr>) now (build env nodes)
               (store_at nodes (snd (simulate env now nodes)) i) i)))"
proof -
  let ?st = "store_at nodes (snd (simulate env now nodes)) i"
  have s: "?st ! i = nodes ! i"
    using assms by (simp add: store_at_nth simulate_length)
  show ?thesis
    unfolding simulate_nth[OF assms] step_particle_def prune_def
      accumulate_shockwaves[where env = env and sws = "filter (\<lambda>s. now - time s < 400) (shockwaves env)"] s
    by simp
qed


lemma simulate_prunes:
  "shockwaves (fst (simulate env now nodes)) = filter (\<lambda>s. now - time s < 400) (shockwaves env)"
  by (simp add: simulate_def prune_def Let_def)

lemma accumulate_lone_ball:
  "accumulate (env9\<lparr>shockwaves := []\<rparr>) now (build env9 [ball 130 140 4]) [ball 130 140 4] 0
     = ball 130 140 4"
  unfolding build_single by (simp add: force_defs env9_def ball_def)

section \<open>The candidate list and the test for identity\<close>

lemma collide_one_self: "x m = x q \<Longrightarrow> y m = y q \<Longrightarrow> collide_one m q = m"
  by (simp add: collide_one_def Let_def)

lemma skip_redundant:
  "x n = x (ps ! i) \<Longrightarrow> y n = y (ps ! i) \<Longrightarrow>
   fold (\<lambda>j m. collide_one m (ps ! j)) js n
     = fold (\<lambda>j m. if j = i then m else collide_one m (ps ! j)) js n"
proof (induction js arbitrary: n)
  case Nil
  then show ?case by simp
next
  case (Cons j js)
  show ?case
  proof (cases "j = i")
    case True
    with Cons.prems have "collide_one n (ps ! j) = n" by (simp add: collide_one_self)
    with True Cons show ?thesis by simp
  next
    case False
    with Cons.IH[of "collide_one n (ps ! j)"] Cons.prems show ?thesis by simp
  qed
qed

section \<open>A tick without cursor, scroll and shockwave\<close>

lemma home_pull_at_home: "x n = homeX n \<Longrightarrow> y n = homeY n \<Longrightarrow> home_pull n = n"
  by (simp add: home_pull_def)

lemma scroll_disperse_off: "scrollProgress env = Num 0 \<Longrightarrow> scroll_disperse env n = n"
  by (simp add: scroll_disperse_def)

lemma cursor_repel_far:
  assumes "mouseX env = - 9999" and "0 \<le> x n"
  shows "cursor_repel env n = n"
proof -
  have "9999 * 9999 \<le> (x n + 9999) * (x n + 9999)"
    using assms(2) by (intro mult_mono) simp_all
  then have a: "200 * 200 \<le> (x n - mouseX env) * (x n - mouseX env)"
    using assms(1) by simp
  have b: "0 \<le> (y n - mouseY env) * (y n - mouseY env)" by simp
  from a b have "\<not> (x n - mouseX env) * (x n - mouseX env)
      + (y n - mouseY env) * (y n - mouseY env) < 200 * 200"
    by linarith
  then show ?thesis unfolding cursor_repel_def Let_def by (simp only: simp_thms if_False)
qed

lemma shockwave_all_none: "shockwaves env = [] \<Longrightarrow> shockwave_all env now n = n"
  by (simp add: shockwave_all_def)

lemma integrate_at_rest: "vx n = 0 \<Longrightarrow> vy n = 0 \<Longrightarrow> integrate n = n"
  by (simp add: integrate_def Let_def)

lemma keep_in_bounds_inside:
  "r n \<le> x n \<Longrightarrow> x n \<le> width env - r n \<Longrightarrow> r n \<le> y n \<Longrightarrow> y n \<le> height env - r n \<Longrightarrow>
   keep_in_bounds env n = n"
  by (simp add: keep_in_bounds_def Let_def)

section \<open>Fields of two particles\<close>

lemma build_pair: "build env [p, q] = Leaf 0 0 (width env) (height env) 0 [0, 1]"
  by (simp add: build_def upt_rec)

lemma simulate_pair:
  "snd (simulate env now [p, q]) =
     [step_particle (prune now env) now (Leaf 0 0 (width env) (height env) 0 [0, 1]) [p, q] 0,
      step_particle (prune now env) now (Leaf 0 0 (width env) (height env) 0 [0, 1])
        [step_particle (prune now env) now (Leaf 0 0 (width env) (height env) 0 [0, 1]) [p, q] 0, q] 1]"
  by (simp add: simulate_def simulate_loop_def build_pair Let_def upt_rec)

lemma collide_all_pair:
  "collide_all (Leaf x0 y0 w0 h0 d [0, Suc 0]) [p, q] 0 n = collide_one n q"
  "collide_all (Leaf x0 y0 w0 h0 d [0, Suc 0]) [p, q] (Suc 0) n = collide_one n p"
  by (simp_all add: collide_all_def)

text \<open>
  The loop body when the centres are \<open>c\<close> apart along the unit vector \<open>(ux, uy)\<close>, inside
  and outside the collision distance.
\<close>

lemma dist_along:
  assumes "ux * ux + uy * uy = 1" and "0 \<le> c"
  shows "sqrt ((c * ux) * (c * ux) + (c * uy) * (c * uy)) = (c::real)"
proof -
  have "(c * ux) * (c * ux) + (c * uy) * (c * uy) = (c * c) * (ux * ux + uy * uy)"
    by (simp add: algebra_simps)
  also have "\<dots> = c * c" using assms(1) by simp
  finally show ?thesis using assms(2) by simp
qed

lemma collide_one_along:
  assumes u: "ux * ux + uy * uy = 1"
    and dx: "x n - x q = c * ux" and dy: "y n - y q = c * uy"
    and c: "0 < c" "c < r n + r q + 1"
  shows "collide_one n q =
     n\<lparr>vx := vx n + ux * (r n + r q + 1 - c) * 0.3, vy := vy n + uy * (r n + r q + 1 - c) * 0.3\<rparr>"
proof -
  let ?m = "r n + r q + 1"
  have sq: "(x n - x q) * (x n - x q) + (y n - y q) * (y n - y q) = c * c"
  proof -
    have "(c * ux) * (c * ux) + (c * uy) * (c * uy) = (c * c) * (ux * ux + uy * uy)"
      by (simp add: algebra_simps)
    then show ?thesis using u dx dy by simp
  qed
  have rt: "sqrt (c * c) = c" using c(1) by simp
  have lt: "c * c < ?m * ?m" using c by (intro mult_strict_mono') simp_all
  have pos: "0 < c * c" using c(1) by simp
  have nx: "(x n - x q) / c = ux" and ny: "(y n - y q) / c = uy"
    using c(1) dx dy by simp_all
  show ?thesis
    unfolding collide_one_def Let_def sq rt nx ny using lt pos by (simp only: simp_thms if_True)
qed

lemma collide_one_apart:
  assumes "r n + r q + 1 \<le> center_dist n q" and "0 \<le> r n + r q + 1"
  shows "collide_one n q = n"
proof -
  let ?m = "r n + r q + 1"
  let ?s = "(x n - x q) * (x n - x q) + (y n - y q) * (y n - y q)"
  have "?m * ?m \<le> sqrt ?s * sqrt ?s"
    using assms unfolding center_dist_def by (intro mult_mono) simp_all
  moreover have "sqrt ?s * sqrt ?s = ?s" by simp
  ultimately have "\<not> ?s < ?m * ?m" by linarith
  then show ?thesis unfolding collide_one_def Let_def by (simp only: simp_thms if_False)
qed

lemma accumulate_quiet_pair:
  assumes "scrollProgress env = Num 0" and "mouseX env = - 9999" and "shockwaves env = []"
  shows "x p = homeX p \<Longrightarrow> y p = homeY p \<Longrightarrow> 0 \<le> x p \<Longrightarrow>
           accumulate env now (Leaf x0 y0 w0 h0 d [0, 1]) [p, q] 0 = collide_one p q"
    and "x q = homeX q \<Longrightarrow> y q = homeY q \<Longrightarrow> 0 \<le> x q \<Longrightarrow>
           accumulate env now (Leaf x0 y0 w0 h0 d [0, 1]) [p, q] 1 = collide_one q p"
  using assms
  by (simp_all add: accumulate_def home_pull_at_home scroll_disperse_off cursor_repel_far
      shockwave_all_none collide_all_pair)

lemma env9_quiet:
  "scrollProgress (prune now env9) = Num 0" "mouseX (prune now env9) = - 9999"
  "shockwaves (prune now env9) = []" "width (prune now env9) = 1000" "height (prune now env9) = 1000"
  by (simp_all add: env9_def)

lemma pair2_step0:
  "step_particle (prune 0 env9) 0 (Leaf 0 0 1000 1000 0 [0, 1]) [ball 100 100 4, ball 105 100 4] 0
     = (ball 100 100 4)\<lparr>x := 98.944, vx := - 1.056\<rparr>"
proof -
  have "collide_one (ball 100 100 4) (ball 105 100 4)
      = (ball 100 100 4)\<lparr>vx := vx (ball 100 100 4) + (- 1) * (r (ball 100 100 4) + r (ball 105 100 4) + 1 - 5) * 0.3,
           vy := vy (ball 100 100 4) + 0 * (r (ball 100 100 4) + r (ball 105 100 4) + 1 - 5) * 0.3\<rparr>"
    by (rule collide_one_along) (simp_all add: ball_def)
  then have c: "collide_one (ball 100 100 4) (ball 105 100 4) = (ball 100 100 4)\<lparr>vx := - 1.2\<rparr>"
    by (simp add: ball_def)
  have a: "accumulate (prune 0 env9) 0 (Leaf 0 0 1000 1000 0 [0, 1]) [ball 100 100 4, ball 105 100 4] 0
      = (ball 100 100 4)\<lparr>vx := - 1.2\<rparr>"
    unfolding c[symmetric] by (rule accumulate_quiet_pair(1)[OF env9_quiet(1,2,3)]) (simp_all add: ball_def)
  show ?thesis
    unfolding step_particle_def a
    by (simp add: integrate_def keep_in_bounds_def DAMPING_def Let_def env9_def ball_def)
qed

lemma pair2_step1:
  "step_particle (prune 0 env9) 0 (Leaf 0 0 1000 1000 0 [0, 1])
     [(ball 100 100 4)\<lparr>x := 98.944, vx := - 1.056\<rparr>, ball 105 100 4] 1
     = (ball 105 100 4)\<lparr>x := 105.777216, vx := 0.777216\<rparr>"
proof -
  let ?p = "(ball 100 100 4)\<lparr>x := 98.944, vx := - 1.056\<rparr>"
  have "collide_one (ball 105 100 4) ?p
      = (ball 105 100 4)\<lparr>vx := vx (ball 105 100 4) + 1 * (r (ball 105 100 4) + r ?p + 1 - 6.056) * 0.3,
           vy := vy (ball 105 100 4) + 0 * (r (ball 105 100 4) + r ?p + 1 - 6.056) * 0.3\<rparr>"
    by (rule collide_one_along) (simp_all add: ball_def)
  then have c: "collide_one (ball 105 100 4) ?p = (ball 105 100 4)\<lparr>vx := 0.8832\<rparr>"
    by (simp add: ball_def)
  have a: "accumulate (prune 0 env9) 0 (Leaf 0 0 1000 1000 0 [0, 1]) [?p, ball 105 100 4] 1
      = (ball 105 100 4)\<lparr>vx := 0.8832\<rparr>"
    unfolding c[symmetric] by (rule accumulate_quiet_pair(2)[OF env9_quiet(1,2,3)]) (simp_all add: ball_def)
  show ?thesis
    unfolding step_particle_def a
    by (simp add: integrate_def keep_in_bounds_def DAMPING_def Let_def env9_def ball_def)
qed

lemma pair2_step1_old:
  "step_particle (prune 0 env9) 0 (Leaf 0 0 1000 1000 0 [0, 1]) [ball 100 100 4, ball 105 100 4] 1
     = (ball 105 100 4)\<lparr>x := 106.056, vx := 1.056\<rparr>"
proof -
  have "collide_one (ball 105 100 4) (ball 100 100 4)
      = (ball 105 100 4)\<lparr>vx := vx (ball 105 100 4) + 1 * (r (ball 105 100 4) + r (ball 100 100 4) + 1 - 5) * 0.3,
           vy := vy (ball 105 100 4) + 0 * (r (ball 105 100 4) + r (ball 100 100 4) + 1 - 5) * 0.3\<rparr>"
    by (rule collide_one_along) (simp_all add: ball_def)
  then have c: "collide_one (ball 105 100 4) (ball 100 100 4) = (ball 105 100 4)\<lparr>vx := 1.2\<rparr>"
    by (simp add: ball_def)
  have a: "accumulate (prune 0 env9) 0 (Leaf 0 0 1000 1000 0 [0, 1]) [ball 100 100 4, ball 105 100 4] 1
      = (ball 105 100 4)\<lparr>vx := 1.2\<rparr>"
    unfolding c[symmetric] by (rule accumulate_quiet_pair(2)[OF env9_quiet(1,2,3)]) (simp_all add: ball_def)
  show ?thesis
    unfolding step_particle_def a
    by (simp add: integrate_def keep_in_bounds_def DAMPING_def Let_def env9_def ball_def)
qed

lemma simulate_pair2:
  "snd (simulate env9 0 pair2) =
     [(ball 100 100 4)\<lparr>x := 98.944, vx := - 1.056\<rparr>, (ball 105 100 4)\<lparr>x := 105.777216, vx := 0.777216\<rparr>]"
proof -
  have w: "width env9 = 1000" "height env9 = 1000" by (simp_all add: env9_def)
  show ?thesis unfolding pair2_def simulate_pair w pair2_step0 pair2_step1 ..
qed

lemma shockwave_push_far:
  assumes "300 \<le> sqrt ((x n - sx s) * (x n - sx s) + (y n - sy s) * (y n - sy s))"
  shows "shockwave_push now s n = n"
proof -
  have "0 \<le> (x n - sx s) * (x n - sx s) + (y n - sy s) * (y n - sy s)" by simp
  from sqrt_less_300[OF this] assms
  have "\<not> (x n - sx s) * (x n - sx s) + (y n - sy s) * (y n - sy s) < 300 * 300" by linarith
  then show ?thesis unfolding shockwave_push_def Let_def by (simp only: simp_thms if_False)
qed

lemma shockwave_fold_far:
  "\<forall>s \<in> set sws. 300 \<le> sqrt ((x n - sx s) * (x n - sx s) + (y n - sy s) * (y n - sy s)) \<Longrightarrow>
   fold (shockwave_push now) sws n = n"
  by (induction sws) (simp_all add: shockwave_push_far)

lemma collide_fold_none:
  "\<forall>j \<in> set js. j \<noteq> i \<longrightarrow> collide_one n (st ! j) = n \<Longrightarrow>
   fold (\<lambda>j m. if j = i then m else collide_one m (st ! j)) js n = n"
  by (induction js) simp_all

lemma retrieve_subset: "set (retrieve t p acc) \<subseteq> set acc \<union> all_items t"
proof (induction t arbitrary: acc)
  case (Leaf x1 x2 x3 x4 x5 x6)
  then show ?case by auto
next
  case (Node x0 y0 w0 h0 d its a b c e)
  have 1: "set (retrieve a p acc) \<subseteq> set acc \<union> all_items a" by (rule Node.IH(1))
  have 2: "set (retrieve b p (retrieve a p acc)) \<subseteq> set acc \<union> all_items a \<union> all_items b"
    using Node.IH(2)[of "retrieve a p acc"] 1 by blast
  have 3: "set (retrieve c p (retrieve b p (retrieve a p acc)))
      \<subseteq> set acc \<union> all_items a \<union> all_items b \<union> all_items c"
    using Node.IH(3)[of "retrieve b p (retrieve a p acc)"] 2 by blast
  have 4: "set (retrieve e p (retrieve c p (retrieve b p (retrieve a p acc))))
      \<subseteq> set acc \<union> all_items a \<union> all_items b \<union> all_items c \<union> all_items e"
    using Node.IH(4)[of "retrieve c p (retrieve b p (retrieve a p acc))"] 3 by blast
  show ?case
    using 4 Node.IH(1)[of acc] Node.IH(2)[of acc] Node.IH(3)[of acc] Node.IH(4)[of acc]
    by (auto simp: Let_def)
qed

lemma retrieve_build_range: "j \<in> set (retrieve (build env ps) p []) \<Longrightarrow> j < length ps"
  using retrieve_subset[of "build env ps" p "[]"] by (auto simp: all_items_build)

lemma simulate_r: "j < length nodes \<Longrightarrow> r (snd (simulate env now nodes) ! j) = r (nodes ! j)"
  by (simp add: simulate_nth store_at_self)

lemma store_at_r:
  "j < length nodes \<Longrightarrow> r (store_at nodes (snd (simulate env now nodes)) i ! j) = r (nodes ! j)"
  by (simp add: store_at_def nth_append simulate_length simulate_r min_def)

text \<open>The loop body leaves a particle at rest at its home when nothing acts on it.\<close>

lemma step_particle_fixed:
  assumes home: "x (st ! i) = homeX (st ! i)" "y (st ! i) = homeY (st ! i)"
    and rest: "vx (st ! i) = 0" "vy (st ! i) = 0"
    and inside: "r (st ! i) \<le> x (st ! i)" "x (st ! i) \<le> width env - r (st ! i)"
      "r (st ! i) \<le> y (st ! i)" "y (st ! i) \<le> height env - r (st ! i)"
    and quiet: "0 \<le> x (st ! i)" "mouseX env = - 9999" "scrollProgress env = Num 0"
    and waves: "\<forall>s \<in> set (shockwaves env).
        300 \<le> sqrt ((x (st ! i) - sx s) * (x (st ! i) - sx s) + (y (st ! i) - sy s) * (y (st ! i) - sy s))"
    and others: "\<forall>j \<in> set (retrieve qt (st ! i) []). j \<noteq> i \<longrightarrow> collide_one (st ! i) (st ! j) = st ! i"
  shows "step_particle env now qt st i = st ! i"
proof -
  have f: "shockwave_all env now (cursor_repel env (scroll_disperse env (home_pull (st ! i)))) = st ! i"
    using home quiet waves
    by (simp add: home_pull_at_home scroll_disperse_off cursor_repel_far shockwave_all_def
        shockwave_fold_far)
  have "accumulate env now qt st i = st ! i"
    unfolding accumulate_def f collide_all_def using others by (rule collide_fold_none)
  then show ?thesis
    unfolding step_particle_def using rest inside
    by (simp add: integrate_at_rest keep_in_bounds_inside)
qed

lemma chase2_step0:
  "step_particle (prune 0 env9) 0 (Leaf 0 0 1000 1000 0 [0, 1]) [runner, ball 115 100 4] 0
     = runner\<lparr>x := 117.6, vx := 17.6\<rparr>"
proof -
  have "center_dist runner (ball 115 100 4) = 15"
    by (simp add: center_dist_level runner_def ball_def)
  then have c: "collide_one runner (ball 115 100 4) = runner"
    by (intro collide_one_apart) (simp_all add: runner_def ball_def)
  have "accumulate (prune 0 env9) 0 (Leaf 0 0 1000 1000 0 [0, 1]) [runner, ball 115 100 4] 0
      = collide_one runner (ball 115 100 4)"
    by (rule accumulate_quiet_pair(1)[OF env9_quiet(1,2,3)]) (simp_all add: runner_def)
  with c have a: "accumulate (prune 0 env9) 0 (Leaf 0 0 1000 1000 0 [0, 1]) [runner, ball 115 100 4] 0
      = runner" by simp
  show ?thesis
    unfolding step_particle_def a
    by (simp add: integrate_def keep_in_bounds_def DAMPING_def Let_def env9_def runner_def)
qed

lemma chase2_step1:
  "step_particle (prune 0 env9) 0 (Leaf 0 0 1000 1000 0 [0, 1])
     [runner\<lparr>x := 117.6, vx := 17.6\<rparr>, ball 115 100 4] 1
     = (ball 115 100 4)\<lparr>x := 113.3104, vx := - 1.6896\<rparr>"
proof -
  let ?p = "runner\<lparr>x := 117.6, vx := 17.6\<rparr>"
  have "collide_one (ball 115 100 4) ?p
      = (ball 115 100 4)\<lparr>vx := vx (ball 115 100 4) + (- 1) * (r (ball 115 100 4) + r ?p + 1 - 2.6) * 0.3,
           vy := vy (ball 115 100 4) + 0 * (r (ball 115 100 4) + r ?p + 1 - 2.6) * 0.3\<rparr>"
    by (rule collide_one_along) (simp_all add: ball_def runner_def)
  then have c: "collide_one (ball 115 100 4) ?p = (ball 115 100 4)\<lparr>vx := - 1.92\<rparr>"
    by (simp add: ball_def runner_def)
  have "accumulate (prune 0 env9) 0 (Leaf 0 0 1000 1000 0 [0, 1]) [?p, ball 115 100 4] 1
      = collide_one (ball 115 100 4) ?p"
    by (rule accumulate_quiet_pair(2)[OF env9_quiet(1,2,3)]) (simp_all add: ball_def)
  with c have a: "accumulate (prune 0 env9) 0 (Leaf 0 0 1000 1000 0 [0, 1]) [?p, ball 115 100 4] 1
      = (ball 115 100 4)\<lparr>vx := - 1.92\<rparr>" by simp
  show ?thesis
    unfolding step_particle_def a
    by (simp add: integrate_def keep_in_bounds_def DAMPING_def Let_def env9_def ball_def)
qed

lemma simulate_chase2:
  "snd (simulate env9 0 chase2) =
     [runner\<lparr>x := 117.6, vx := 17.6\<rparr>, (ball 115 100 4)\<lparr>x := 113.3104, vx := - 1.6896\<rparr>]"
proof -
  have w: "width env9 = 1000" "height env9 = 1000" by (simp_all add: env9_def)
  show ?thesis unfolding chase2_def simulate_pair w chase2_step0 chase2_step1 ..
qed

lemma unit_component_le:
  assumes "ux * ux + uy * uy = (1::real)"
  shows "\<bar>ux\<bar> \<le> 1" and "\<bar>uy\<bar> \<le> 1"
proof -
  have "\<bar>ux\<bar> \<le> sqrt (ux * ux + uy * uy)" by (rule abs_le_sqrt_sum(1))
  then show "\<bar>ux\<bar> \<le> 1" using assms by simp
  have "\<bar>uy\<bar> \<le> sqrt (ux * ux + uy * uy)" by (rule abs_le_sqrt_sum(2))
  then show "\<bar>uy\<bar> \<le> 1" using assms by simp
qed

lemma scaled_component_le:
  assumes "\<bar>u\<bar> \<le> (1::real)" and "0 \<le> k"
  shows "\<bar>k * u\<bar> \<le> k"
proof -
  have "\<bar>k * u\<bar> = k * \<bar>u\<bar>" using assms(2) by (simp add: abs_mult)
  also have "\<dots> \<le> k * 1" using assms by (intro mult_left_mono) simp_all
  finally show ?thesis by simp
qed

text \<open>
  Steps 5 to 7 on a particle at rest whose only neighbour in range lies \<open>c\<close> away along
  \<open>(ux, uy)\<close>, with room to move: the particle moves by \<open>0.88 * 0.3 * overlap\<close>.
\<close>

lemma push_result:
  assumes rest: "vx p = 0" "vy p = 0"
    and u: "ux * ux + uy * uy = 1"
    and dx: "x p - x q = c * ux" and dy: "y p - y q = c * uy"
    and c: "0 < c" "c < r p + r q + 1"
    and k: "k = (r p + r q + 1 - c) * 0.3 * 0.88"
    and room: "r p + k \<le> x p" "x p + k \<le> width env - r p"
      "r p + k \<le> y p" "y p + k \<le> height env - r p"
  shows "keep_in_bounds env (integrate (collide_one p q))
     = p\<lparr>vx := k * ux, vy := k * uy, x := x p + k * ux, y := y p + k * uy\<rparr>"
proof -
  have k0: "0 \<le> k" using c k by simp
  have cx: "\<bar>k * ux\<bar> \<le> k" and cy: "\<bar>k * uy\<bar> \<le> k"
    using unit_component_le[OF u] k0 by (simp_all add: scaled_component_le)
  have co: "collide_one p q =
      p\<lparr>vx := vx p + ux * (r p + r q + 1 - c) * 0.3, vy := vy p + uy * (r p + r q + 1 - c) * 0.3\<rparr>"
    using u dx dy c by (rule collide_one_along)
  have kx: "ux * (r p + r q + 1 - c) * 0.3 * 0.88 = k * ux"
    and ky: "uy * (r p + r q + 1 - c) * 0.3 * 0.88 = k * uy"
    unfolding k by simp_all
  have i: "integrate (collide_one p q)
      = p\<lparr>vx := k * ux, vy := k * uy, x := x p + k * ux, y := y p + k * uy\<rparr>"
    unfolding co integrate_def Let_def DAMPING_def using rest kx ky by simp
  have inx: "r p \<le> x p + k * ux" "x p + k * ux \<le> width env - r p"
    using cx room(1,2) by linarith+
  have iny: "r p \<le> y p + k * uy" "y p + k * uy \<le> height env - r p"
    using cy room(3,4) by linarith+
  show ?thesis
    unfolding i by (rule keep_in_bounds_inside) (use inx iny in simp_all)
qed

lemma prune_all_expired:
  "\<forall>s \<in> set (shockwaves env). 400 \<le> now - time s \<Longrightarrow> shockwaves (prune now env) = []"
  by (auto simp: filter_empty_conv)

lemma unit_direction:
  assumes "0 < center_dist p q"
  shows "((x p - x q) / center_dist p q) * ((x p - x q) / center_dist p q)
       + ((y p - y q) / center_dist p q) * ((y p - y q) / center_dist p q) = 1"
proof -
  let ?s = "(x p - x q) * (x p - x q) + (y p - y q) * (y p - y q)"
  have "0 \<le> ?s" by simp
  then have dd: "center_dist p q * center_dist p q = ?s"
    unfolding center_dist_def by simp
  have d0: "center_dist p q \<noteq> 0" using assms by simp
  have "((x p - x q) / center_dist p q) * ((x p - x q) / center_dist p q)
       + ((y p - y q) / center_dist p q) * ((y p - y q) / center_dist p q)
       = ?s / (center_dist p q * center_dist p q)"
    using d0 by (simp add: field_simps)
  also have "\<dots> = 1" unfolding dd[symmetric] using d0 by simp
  finally show ?thesis .
qed

lemma collide_one_far_x:
  assumes "r p + r q + 1 \<le> \<bar>x p - x q\<bar>" and "0 \<le> r p + r q + 1"
  shows "collide_one p q = p"
proof -
  have "\<bar>x p - x q\<bar> \<le> center_dist p q"
    unfolding center_dist_def by (rule abs_le_sqrt_sum(1))
  with assms(1) have "r p + r q + 1 \<le> center_dist p q" by linarith
  then show ?thesis using assms(2) by (rule collide_one_apart)
qed

text \<open>In the field of nine, the first two particles find no neighbour in range and stay.\<close>

lemma field9_step0: "step_particle (prune 0 env9) 0 (build env9 field9) field9 0 = field9 ! 0"
proof (rule step_particle_fixed)
  show "\<forall>j\<in>set (retrieve (build env9 field9) (field9 ! 0) []).
       j \<noteq> 0 \<longrightarrow> collide_one (field9 ! 0) (field9 ! j) = field9 ! 0"
    unfolding retrieve9_0
    by (simp add: collide_one_far_x field9_def ball_def)
qed (simp_all add: field9_def ball_def env9_def)

lemma field9_step1: "step_particle (prune 0 env9) 0 (build env9 field9) field9 1 = field9 ! 1"
proof (rule step_particle_fixed)
  show "\<forall>j\<in>set (retrieve (build env9 field9) (field9 ! 1) []).
       j \<noteq> 1 \<longrightarrow> collide_one (field9 ! 1) (field9 ! j) = field9 ! 1"
    unfolding retrieve9_1
    by (simp add: collide_one_far_x field9_def ball_def)
qed (simp_all add: field9_def ball_def env9_def)

lemma field9_post0: "snd (simulate env9 0 field9) ! 0 = field9 ! 0"
proof -
  have l: "0 < length field9" by (simp add: field9_def)
  have "store_at field9 (snd (simulate env9 0 field9)) 0 = field9"
    by (simp add: store_at_def)
  with simulate_nth[OF l, of env9 0] field9_step0 show ?thesis by simp
qed

lemma field9_post1: "snd (simulate env9 0 field9) ! 1 = field9 ! 1"
proof -
  have l: "1 < length field9" by (simp add: field9_def)
  have "take 1 (snd (simulate env9 0 field9)) = [snd (simulate env9 0 field9) ! 0]"
    by (simp add: take_Suc_conv_app_nth simulate_length field9_def)
  also have "\<dots> = take 1 field9" unfolding field9_post0 by (simp add: field9_def)
  finally have "store_at field9 (snd (simulate env9 0 field9)) 1 = field9"
    unfolding store_at_def by simp
  with simulate_nth[OF l, of env9 0] field9_step1 show ?thesis by simp
qed

text \<open>The two particles between the edges of the narrow viewport bounce back to where they were.\<close>

lemma tight_quiet:
  "scrollProgress (prune now tight_env) = Num 0" "mouseX (prune now tight_env) = - 9999"
  "shockwaves (prune now tight_env) = []"
  by (simp_all add: tight_env_def)

lemma squeezed2_step0:
  "step_particle (prune 0 tight_env) 0 (Leaf 0 0 16 1000 0 [0, 1]) [ball 4 50 4, ball 12 50 4] 0
     = (ball 4 50 4)\<lparr>vx := 0.132\<rparr>"
proof -
  have "collide_one (ball 4 50 4) (ball 12 50 4)
      = (ball 4 50 4)\<lparr>vx := vx (ball 4 50 4) + (- 1) * (r (ball 4 50 4) + r (ball 12 50 4) + 1 - 8) * 0.3,
           vy := vy (ball 4 50 4) + 0 * (r (ball 4 50 4) + r (ball 12 50 4) + 1 - 8) * 0.3\<rparr>"
    by (rule collide_one_along) (simp_all add: ball_def)
  then have c: "collide_one (ball 4 50 4) (ball 12 50 4) = (ball 4 50 4)\<lparr>vx := - 0.3\<rparr>"
    by (simp add: ball_def)
  have "accumulate (prune 0 tight_env) 0 (Leaf 0 0 16 1000 0 [0, 1]) [ball 4 50 4, ball 12 50 4] 0
      = collide_one (ball 4 50 4) (ball 12 50 4)"
    by (rule accumulate_quiet_pair(1)[OF tight_quiet]) (simp_all add: ball_def)
  with c have a: "accumulate (prune 0 tight_env) 0 (Leaf 0 0 16 1000 0 [0, 1]) [ball 4 50 4, ball 12 50 4] 0
      = (ball 4 50 4)\<lparr>vx := - 0.3\<rparr>" by simp
  show ?thesis
    unfolding step_particle_def a
    by (simp add: integrate_def keep_in_bounds_def DAMPING_def Let_def tight_env_def ball_def)
qed

lemma squeezed2_step1:
  "step_particle (prune 0 tight_env) 0 (Leaf 0 0 16 1000 0 [0, 1])
     [(ball 4 50 4)\<lparr>vx := 0.132\<rparr>, ball 12 50 4] 1
     = (ball 12 50 4)\<lparr>vx := - 0.132\<rparr>"
proof -
  let ?p = "(ball 4 50 4)\<lparr>vx := 0.132\<rparr>"
  have "collide_one (ball 12 50 4) ?p
      = (ball 12 50 4)\<lparr>vx := vx (ball 12 50 4) + 1 * (r (ball 12 50 4) + r ?p + 1 - 8) * 0.3,
           vy := vy (ball 12 50 4) + 0 * (r (ball 12 50 4) + r ?p + 1 - 8) * 0.3\<rparr>"
    by (rule collide_one_along) (simp_all add: ball_def)
  then have c: "collide_one (ball 12 50 4) ?p = (ball 12 50 4)\<lparr>vx := 0.3\<rparr>"
    by (simp add: ball_def)
  have "accumulate (prune 0 tight_env) 0 (Leaf 0 0 16 1000 0 [0, 1]) [?p, ball 12 50 4] 1
      = collide_one (ball 12 50 4) ?p"
    by (rule accumulate_quiet_pair(2)[OF tight_quiet]) (simp_all add: ball_def)
  with c have a: "accumulate (prune 0 tight_env) 0 (Leaf 0 0 16 1000 0 [0, 1]) [?p, ball 12 50 4] 1
      = (ball 12 50 4)\<lparr>vx := 0.3\<rparr>" by simp
  show ?thesis
    unfolding step_particle_def a
    by (simp add: integrate_def keep_in_bounds_def DAMPING_def Let_def tight_env_def ball_def)
qed

lemma simulate_squeezed2:
  "snd (simulate tight_env 0 squeezed2) = [(ball 4 50 4)\<lparr>vx := 0.132\<rparr>, (ball 12 50 4)\<lparr>vx := - 0.132\<rparr>]"
proof -
  have w: "width tight_env = 16" "height tight_env = 1000" by (simp_all add: tight_env_def)
  show ?thesis unfolding squeezed2_def simulate_pair w squeezed2_step0 squeezed2_step1 ..
qed

lemma length_generateNodes: "length (generateNodes env rnd) = BALL_COUNT"
  by (simp add: generateNodes_def)

lemma resize_parts:
  "fst (resize env w h rnd) = env\<lparr>width := w, height := h, centerX := w / 2, centerY := h / 2\<rparr>"
  "snd (resize env w h rnd)
     = generateNodes (env\<lparr>width := w, height := h, centerX := w / 2, centerY := h / 2\<rparr>) rnd"
  by (simp_all add: resize_def Let_def)

lemma resize_zero: "fst (resize env9 0 0 zero_draws) = flat_env"
  by (simp add: resize_parts flat_env_def env9_def)

lemma first_generated:
  "x (snd (resize env9 0 0 zero_draws) ! 0) = 0" "r (snd (resize env9 0 0 zero_draws) ! 0) = 4"
  by (simp_all add: resize_parts generateNodes_def BALL_COUNT_def make_node_def zero_draws_def Let_def)

text \<open>With a width or a height of zero the last two tests of the bounce put the particle at \<open>-r\<close>.\<close>

lemma zero_width_pins:
  assumes "i < length nodes" and "0 < r (nodes ! i)" and "width env = 0"
  shows "x (snd (simulate env now nodes) ! i) = - r (nodes ! i)"
proof -
  let ?st = "store_at nodes (snd (simulate env now nodes)) i"
  let ?a = "integrate (accumulate (prune now env) now (build env nodes) ?st i)"
  have ra: "r ?a = r (nodes ! i)"
    using assms(1) by (simp add: store_at_self)
  have eq: "snd (simulate env now nodes) ! i = keep_in_bounds (prune now env) ?a"
    using simulate_nth[OF assms(1)] by (simp add: step_particle_def)
  show ?thesis
    unfolding eq keep_in_bounds_x(1) Let_def ra using assms(2,3) by simp
qed

lemma zero_height_pins:
  assumes "i < length nodes" and "0 < r (nodes ! i)" and "height env = 0"
  shows "y (snd (simulate env now nodes) ! i) = - r (nodes ! i)"
proof -
  let ?st = "store_at nodes (snd (simulate env now nodes)) i"
  let ?a = "integrate (accumulate (prune now env) now (build env nodes) ?st i)"
  have ra: "r ?a = r (nodes ! i)"
    using assms(1) by (simp add: store_at_self)
  have eq: "snd (simulate env now nodes) ! i = keep_in_bounds (prune now env) ?a"
    using simulate_nth[OF assms(1)] by (simp add: step_particle_def)
  show ?thesis
    unfolding eq keep_in_bounds_y(1) Let_def ra using assms(2,3) by simp
qed

section \<open>One impulse among the candidates\<close>

text \<open>
  When exactly one candidate is within the collision distance, the loop over the candidates
  is the one impulse from it; the push and the move that follow.
\<close>

lemma store_at_get:
  "i < length nodes \<Longrightarrow> k < length nodes \<Longrightarrow>
   store_at nodes (snd (simulate env now nodes)) i ! k
     = (if k < i then snd (simulate env now nodes) ! k else nodes ! k)"
  by (simp add: store_at_def nth_append simulate_length min_def)

lemma center_dist_position: "x m = x n \<Longrightarrow> y m = y n \<Longrightarrow> center_dist m q = center_dist n q"
  by (simp add: center_dist_def)

lemma collide_fold_apart:
  assumes "\<forall>k \<in> set js. k \<noteq> i \<longrightarrow>
      r n + r (st ! k) + 1 \<le> center_dist n (st ! k) \<and> 0 \<le> r n + r (st ! k) + 1"
    and "x m = x n" "y m = y n" "r m = r n"
  shows "fold (\<lambda>k m. if k = i then m else collide_one m (st ! k)) js m = m"
  using assms(1)
proof (induction js)
  case Nil
  then show ?case by simp
next
  case (Cons k js)
  have "collide_one m (st ! k) = m" if "k \<noteq> i"
  proof (rule collide_one_apart)
    from Cons.prems that
    have "r n + r (st ! k) + 1 \<le> center_dist n (st ! k)" "0 \<le> r n + r (st ! k) + 1"
      by simp_all
    then show "r m + r (st ! k) + 1 \<le> center_dist m (st ! k)" "0 \<le> r m + r (st ! k) + 1"
      using assms(2,3,4) by (simp_all add: center_dist_position[of m n])
  qed
  moreover have "fold (\<lambda>k m. if k = i then m else collide_one m (st ! k)) js m = m"
    using Cons.prems by (intro Cons.IH) simp
  ultimately show ?case by simp
qed

lemma collide_fold_one:
  assumes "distinct js" "j \<in> set js" "j \<noteq> i"
    and others: "\<forall>k \<in> set js. k \<noteq> i \<longrightarrow> k \<noteq> j \<longrightarrow>
      r n + r (st ! k) + 1 \<le> center_dist n (st ! k) \<and> 0 \<le> r n + r (st ! k) + 1"
  shows "fold (\<lambda>k m. if k = i then m else collide_one m (st ! k)) js n = collide_one n (st ! j)"
proof -
  from assms(2) obtain pre post where js: "js = pre @ j # post"
    by (meson split_list)
  with assms(1) have nj: "j \<notin> set pre" "j \<notin> set post" by auto
  have p: "fold (\<lambda>k m. if k = i then m else collide_one m (st ! k)) pre n = n"
    by (rule collide_fold_apart[where n = n]) (use others js nj in auto)
  have q: "fold (\<lambda>k m. if k = i then m else collide_one m (st ! k)) post (collide_one n (st ! j))
      = collide_one n (st ! j)"
    by (rule collide_fold_apart[where n = n]) (use others js nj in auto)
  show ?thesis unfolding js using assms(3) p q by simp
qed

lemma accumulate_quiet_one:
  assumes home: "x (st ! i) = homeX (st ! i)" "y (st ! i) = homeY (st ! i)"
    and quiet: "0 \<le> x (st ! i)" "mouseX env = - 9999" "scrollProgress env = Num 0"
    and waves: "\<forall>s \<in> set (shockwaves env).
        300 \<le> sqrt ((x (st ! i) - sx s) * (x (st ! i) - sx s) + (y (st ! i) - sy s) * (y (st ! i) - sy s))"
    and cand: "distinct (retrieve qt (st ! i) [])" "j \<in> set (retrieve qt (st ! i) [])" "j \<noteq> i"
    and others: "\<forall>k \<in> set (retrieve qt (st ! i) []). k \<noteq> i \<longrightarrow> k \<noteq> j \<longrightarrow>
        r (st ! i) + r (st ! k) + 1 \<le> center_dist (st ! i) (st ! k) \<and> 0 \<le> r (st ! i) + r (st ! k) + 1"
  shows "accumulate env now qt st i = collide_one (st ! i) (st ! j)"
proof -
  have f: "shockwave_all env now (cursor_repel env (scroll_disperse env (home_pull (st ! i)))) = st ! i"
    using home quiet waves
    by (simp add: home_pull_at_home scroll_disperse_off cursor_repel_far shockwave_all_def
        shockwave_fold_far)
  show ?thesis
    unfolding accumulate_def f collide_all_def using cand others by (rule collide_fold_one)
qed

lemma push_step:
  assumes rest: "vx p = 0" "vy p = 0"
    and d: "0 < center_dist p q" "center_dist p q < r p + r q + 1"
    and room: "r p + 0.264 * (r p + r q + 1 - center_dist p q) \<le> x p"
      "x p + 0.264 * (r p + r q + 1 - center_dist p q) \<le> width env - r p"
      "r p + 0.264 * (r p + r q + 1 - center_dist p q) \<le> y p"
      "y p + 0.264 * (r p + r q + 1 - center_dist p q) \<le> height env - r p"
  shows "keep_in_bounds env (integrate (collide_one p q)) = integrate (collide_one p q)"
    and "vx (collide_one p q)
           = (x p - x q) / center_dist p q * (r p + r q + 1 - center_dist p q) * 0.3"
    and "vy (collide_one p q)
           = (y p - y q) / center_dist p q * (r p + r q + 1 - center_dist p q) * 0.3"
    and "center_dist (integrate (collide_one p q)) q
           = center_dist p q + 0.264 * (r p + r q + 1 - center_dist p q)"
    and "center_dist q (integrate (collide_one p q))
           = center_dist p q + 0.264 * (r p + r q + 1 - center_dist p q)"
proof -
  let ?m = "r p + r q + 1"
  let ?d = "center_dist p q"
  define ux where "ux = (x p - x q) / ?d"
  define uy where "uy = (y p - y q) / ?d"
  define k where "k = (?m - ?d) * 0.3 * 0.88"
  have kk: "k = 0.264 * (?m - ?d)" unfolding k_def by simp
  have u: "ux * ux + uy * uy = 1"
    unfolding ux_def uy_def using d(1) by (rule unit_direction)
  have d0: "?d \<noteq> 0" using d(1) by simp
  have ex: "x p - x q = ?d * ux" and ey: "y p - y q = ?d * uy"
    unfolding ux_def uy_def using d0 by simp_all
  have k0: "0 \<le> k" using d(2) unfolding kk by simp
  have co: "collide_one p q =
      p\<lparr>vx := vx p + ux * (?m - ?d) * 0.3, vy := vy p + uy * (?m - ?d) * 0.3\<rparr>"
    using u ex ey d by (rule collide_one_along)
  show "vx (collide_one p q) = (x p - x q) / ?d * (?m - ?d) * 0.3"
    unfolding co using rest by (simp add: ux_def)
  show "vy (collide_one p q) = (y p - y q) / ?d * (?m - ?d) * 0.3"
    unfolding co using rest by (simp add: uy_def)
  have kx: "ux * (?m - ?d) * 0.3 * 0.88 = k * ux" and ky: "uy * (?m - ?d) * 0.3 * 0.88 = k * uy"
    unfolding k_def by simp_all
  have i: "integrate (collide_one p q)
      = p\<lparr>vx := k * ux, vy := k * uy, x := x p + k * ux, y := y p + k * uy\<rparr>"
    unfolding co integrate_def Let_def DAMPING_def using rest kx ky by simp
  have "keep_in_bounds env (integrate (collide_one p q))
      = p\<lparr>vx := k * ux, vy := k * uy, x := x p + k * ux, y := y p + k * uy\<rparr>"
    using rest u ex ey d k_def
  proof (rule push_result)
    show "r p + k \<le> x p" "x p + k \<le> width env - r p" "r p + k \<le> y p" "y p + k \<le> height env - r p"
      unfolding kk using room by simp_all
  qed
  then show "keep_in_bounds env (integrate (collide_one p q)) = integrate (collide_one p q)"
    unfolding i .
  have expand: "(?d + k) * ux = ?d * ux + k * ux" "(?d + k) * uy = ?d * uy + k * uy"
    by (simp_all add: algebra_simps)
  have dx': "x (integrate (collide_one p q)) - x q = (?d + k) * ux"
    unfolding i expand using ex by simp
  have dy': "y (integrate (collide_one p q)) - y q = (?d + k) * uy"
    unfolding i expand using ey by simp
  have "0 \<le> ?d + k" using d(1) k0 by simp
  with u have "sqrt (((?d + k) * ux) * ((?d + k) * ux) + ((?d + k) * uy) * ((?d + k) * uy)) = ?d + k"
    by (rule dist_along)
  then show c: "center_dist (integrate (collide_one p q)) q = ?d + 0.264 * (?m - ?d)"
    unfolding center_dist_def[of "integrate (collide_one p q)" q] dx' dy' kk .
  show "center_dist q (integrate (collide_one p q)) = ?d + 0.264 * (?m - ?d)"
    unfolding center_dist_sym[of q] by (rule c)
qed


lemma build_three: "build env [p, q, s] = Leaf 0 0 (width env) (height env) 0 [0, 1, 2]"
  by (simp add: build_def upt_rec)

lemma retrieve_three:
  "retrieve (build env [p, q, s]) n [] = [0, 1, 2]"
  unfolding build_three by simp

section \<open>Particles on a line\<close>

lemma minus_one_times: "a + (- 1) * t * c = a - t * (c::real)" "b + 0 * t * c = b" "a + 1 * t * c = a + t * c"
  by simp_all

lemma collide_one_line:
  assumes "y n = y q"
  shows "x n < x q \<Longrightarrow> x q - x n < r n + r q + 1 \<Longrightarrow>
           collide_one n q = n\<lparr>vx := vx n - (r n + r q + 1 - (x q - x n)) * 0.3\<rparr>"
    and "x q < x n \<Longrightarrow> x n - x q < r n + r q + 1 \<Longrightarrow>
           collide_one n q = n\<lparr>vx := vx n + (r n + r q + 1 - (x n - x q)) * 0.3\<rparr>"
proof -
  assume h: "x n < x q" "x q - x n < r n + r q + 1"
  have "collide_one n q = n\<lparr>vx := vx n + (- 1) * (r n + r q + 1 - (x q - x n)) * 0.3,
      vy := vy n + 0 * (r n + r q + 1 - (x q - x n)) * 0.3\<rparr>"
    by (rule collide_one_along) (use assms h in simp_all)
  then show "collide_one n q = n\<lparr>vx := vx n - (r n + r q + 1 - (x q - x n)) * 0.3\<rparr>"
    unfolding minus_one_times by simp
next
  assume h: "x q < x n" "x n - x q < r n + r q + 1"
  have "collide_one n q = n\<lparr>vx := vx n + 1 * (r n + r q + 1 - (x n - x q)) * 0.3,
      vy := vy n + 0 * (r n + r q + 1 - (x n - x q)) * 0.3\<rparr>"
    by (rule collide_one_along) (use assms h in simp_all)
  then show "collide_one n q = n\<lparr>vx := vx n + (r n + r q + 1 - (x n - x q)) * 0.3\<rparr>"
    unfolding minus_one_times by simp
qed

lemma accumulate_calm_pair:
  assumes "scrollProgress env = Num 0" and "mouseX env = - 9999" and "shockwaves env = []"
  shows "0 \<le> x p \<Longrightarrow>
           accumulate env now (Leaf x0 y0 w0 h0 d [0, 1]) [p, q] 0 = collide_one (home_pull p) q"
    and "0 \<le> x q \<Longrightarrow>
           accumulate env now (Leaf x0 y0 w0 h0 d [0, 1]) [p, q] 1 = collide_one (home_pull q) p"
  using assms
  by (simp_all add: accumulate_def scroll_disperse_off cursor_repel_far
      shockwave_all_none collide_all_pair)

lemma prune_env9: "prune now env9 = env9"
  by (simp add: prune_def env9_def)

lemma line_step:
  assumes "line_ok ha hb s"
  shows "simulate env9 now (line2 ha hb s) = (env9, line2 ha hb (line_tick ha hb s))"
proof -
  obtain xa va xb vb where s: "s = (xa, va, xb, vb)" by (cases s) auto
  define va2 where "va2 = (if xb - xa < 9 then va + (ha - xa) * 0.005 - (9 - (xb - xa)) * 0.3
                            else va + (ha - xa) * 0.005)"
  define xa' where "xa' = xa + va2 * 0.88"
  define vb2 where "vb2 = (if xb - xa' < 9 then vb + (hb - xb) * 0.005 + (9 - (xb - xa')) * 0.3
                            else vb + (hb - xb) * 0.005)"
  define xb' where "xb' = xb + vb2 * 0.88"
  let ?a = "\<lparr>x = xa, y = 100, homeX = ha, homeY = 100, vx = va, vy = 0, r = 4, color = ''#009cde''\<rparr>"
  let ?b = "\<lparr>x = xb, y = 100, homeX = hb, homeY = 100, vx = vb, vy = 0, r = 4, color = ''#009cde''\<rparr>"
  let ?a' = "\<lparr>x = xa', y = 100, homeX = ha, homeY = 100, vx = va2 * 0.88, vy = 0, r = 4, color = ''#009cde''\<rparr>"
  let ?b' = "\<lparr>x = xb', y = 100, homeX = hb, homeY = 100, vx = vb2 * 0.88, vy = 0, r = 4, color = ''#009cde''\<rparr>"
  let ?t = "Leaf 0 0 1000 1000 0 [0, 1]"
  have lt: "line_tick ha hb s = (xa', va2 * 0.88, xb', vb2 * 0.88)"
    unfolding s line_tick_def Let_def xa'_def xb'_def va2_def vb2_def by simp
  from assms have ok: "4 \<le> xa" "xa < xb" "4 \<le> xa'" "xa' < xb" "xa' \<le> 996" "4 \<le> xb'" "xb' \<le> 996"
    unfolding line_ok_def lt unfolding s by simp_all
  have ca: "collide_one (home_pull ?a) ?b = ?a\<lparr>vx := va2\<rparr>"
  proof (cases "xb - xa < 9")
    case True
    have "collide_one (home_pull ?a) ?b
        = (home_pull ?a)\<lparr>vx := vx (home_pull ?a) - (r (home_pull ?a) + r ?b + 1 - (x ?b - x (home_pull ?a))) * 0.3\<rparr>"
      by (rule collide_one_line(1)) (use True ok in simp_all)
    then show ?thesis using True by (simp add: va2_def home_pull_def HOME_STRENGTH_def)
  next
    case False
    have "collide_one (home_pull ?a) ?b = home_pull ?a"
      by (rule collide_one_far_x) (use False ok in simp_all)
    then show ?thesis using False by (simp add: va2_def home_pull_def HOME_STRENGTH_def)
  qed
  have "step_particle env9 now ?t [?a, ?b] 0 = keep_in_bounds env9 (integrate (?a\<lparr>vx := va2\<rparr>))"
    unfolding step_particle_def ca[symmetric]
    using accumulate_calm_pair(1)[of env9 ?a now 0 0 1000 1000 0 ?b] ok
    by (simp add: env9_def)
  also have "integrate (?a\<lparr>vx := va2\<rparr>) = ?a'"
    by (simp add: integrate_def Let_def DAMPING_def xa'_def)
  also have "keep_in_bounds env9 ?a' = ?a'"
    by (rule keep_in_bounds_inside) (use ok in \<open>simp_all add: env9_def\<close>)
  finally have s0: "step_particle env9 now ?t [?a, ?b] 0 = ?a'" .
  have cb: "collide_one (home_pull ?b) ?a' = ?b\<lparr>vx := vb2\<rparr>"
  proof (cases "xb - xa' < 9")
    case True
    have "collide_one (home_pull ?b) ?a'
        = (home_pull ?b)\<lparr>vx := vx (home_pull ?b) + (r (home_pull ?b) + r ?a' + 1 - (x (home_pull ?b) - x ?a')) * 0.3\<rparr>"
      by (rule collide_one_line(2)) (use True ok in simp_all)
    then show ?thesis using True by (simp add: vb2_def home_pull_def HOME_STRENGTH_def)
  next
    case False
    have "collide_one (home_pull ?b) ?a' = home_pull ?b"
      by (rule collide_one_far_x) (use False ok in simp_all)
    then show ?thesis using False by (simp add: vb2_def home_pull_def HOME_STRENGTH_def)
  qed
  have xb0: "0 \<le> xb" using ok by linarith
  have "step_particle env9 now ?t [?a', ?b] 1 = keep_in_bounds env9 (integrate (?b\<lparr>vx := vb2\<rparr>))"
    unfolding step_particle_def cb[symmetric]
    using accumulate_calm_pair(2)[of env9 ?b now 0 0 1000 1000 0 ?a'] xb0
    by (simp add: env9_def)
  also have "integrate (?b\<lparr>vx := vb2\<rparr>) = ?b'"
    by (simp add: integrate_def Let_def DAMPING_def xb'_def)
  also have "keep_in_bounds env9 ?b' = ?b'"
    by (rule keep_in_bounds_inside) (use ok xb0 in \<open>simp_all add: env9_def\<close>)
  finally have s1: "step_particle env9 now ?t [?a', ?b] 1 = ?b'" .
  have w: "width env9 = 1000" "height env9 = 1000" by (simp_all add: env9_def)
  have "snd (simulate env9 now [?a, ?b]) = [?a', ?b']"
    unfolding simulate_pair w prune_env9 s0 s1 ..
  moreover have "fst (simulate env9 now [?a, ?b]) = env9"
    by (simp add: simulate_def Let_def prune_env9)
  ultimately have "simulate env9 now [?a, ?b] = (env9, [?a', ?b'])"
    by (metis prod.collapse)
  then show ?thesis unfolding lt unfolding s line2_def by simp
qed


lemma frames_line:
  assumes "line_ok ha hb s"
  shows "frames (Suc k) now (env9, line2 ha hb s) = frames k now (env9, line2 ha hb (line_tick ha hb s))"
  using line_step[OF assms] by simp

lemma frames_fixed:
  assumes "line_ok ha hb s" and "line_tick ha hb s = s"
  shows "frames k now (env9, line2 ha hb s) = (env9, line2 ha hb s)"
proof (induction k)
  case 0
  then show ?case by simp
next
  case (Suc k)
  then show ?case unfolding frames_line[OF assms(1)] assms(2) .
qed

lemma rest2_fixed: "line_ok 100 107.79 (99.4, 0, 108.39, 0)" "line_tick 100 107.79 (99.4, 0, 108.39, 0) = (99.4, 0, 108.39, 0)"
  by (simp_all add: line_ok_def line_tick_def Let_def)

lemma frames_rest2: "frames k now (env9, rest2) = (env9, rest2)"
  unfolding rest2_def using rest2_fixed by (rule frames_fixed)

lemma rest2_facts:
  "vx (rest2 ! 0) = 0" "vy (rest2 ! 0) = 0" "vx (rest2 ! 1) = 0" "vy (rest2 ! 1) = 0"
  "center_dist (rest2 ! 0) (rest2 ! 1) = 8.99" "r (rest2 ! 0) + r (rest2 ! 1) + 1 = 9"
  by (simp_all add: rest2_def line2_def center_dist_level)


section \<open>Three particles in a row\<close>

lemma simulate_three:
  "snd (simulate env now [p, q, s]) =
     [step_particle (prune now env) now (Leaf 0 0 (width env) (height env) 0 [0, 1, 2]) [p, q, s] 0,
      step_particle (prune now env) now (Leaf 0 0 (width env) (height env) 0 [0, 1, 2])
        [step_particle (prune now env) now (Leaf 0 0 (width env) (height env) 0 [0, 1, 2]) [p, q, s] 0,
         q, s] 1,
      step_particle (prune now env) now (Leaf 0 0 (width env) (height env) 0 [0, 1, 2])
        [step_particle (prune now env) now (Leaf 0 0 (width env) (height env) 0 [0, 1, 2]) [p, q, s] 0,
         step_particle (prune now env) now (Leaf 0 0 (width env) (height env) 0 [0, 1, 2])
           [step_particle (prune now env) now (Leaf 0 0 (width env) (height env) 0 [0, 1, 2]) [p, q, s] 0,
            q, s] 1,
         s] 2]"
  by (simp add: simulate_def simulate_loop_def build_three Let_def upt_rec numeral_2_eq_2)

lemma accumulate_quiet_three:
  assumes "scrollProgress env = Num 0" and "mouseX env = - 9999" and "shockwaves env = []"
  shows "x p = homeX p \<Longrightarrow> y p = homeY p \<Longrightarrow> 0 \<le> x p \<Longrightarrow>
           accumulate env now (Leaf x0 y0 w0 h0 d [0, 1, 2]) [p, q, s] 0
             = collide_one (collide_one p q) s"
    and "x q = homeX q \<Longrightarrow> y q = homeY q \<Longrightarrow> 0 \<le> x q \<Longrightarrow>
           accumulate env now (Leaf x0 y0 w0 h0 d [0, 1, 2]) [p, q, s] 1
             = collide_one (collide_one q p) s"
  using assms
  by (simp_all add: accumulate_def home_pull_at_home scroll_disperse_off cursor_repel_far
      shockwave_all_none collide_all_def)

lemma trio_step0:
  "step_particle (prune 0 env9) 0 (Leaf 0 0 1000 1000 0 [0, 1, 2])
     [ball 100 100 4, ball 108 100 4, ball 110 100 4] 0
     = (ball 100 100 4)\<lparr>x := 99.736, vx := - 0.264\<rparr>"
proof -
  have c1: "collide_one (ball 100 100 4) (ball 108 100 4) = (ball 100 100 4)\<lparr>vx := - 0.3\<rparr>"
    using collide_one_line(1)[of "ball 100 100 4" "ball 108 100 4"] by (simp add: ball_def)
  have c2: "collide_one ((ball 100 100 4)\<lparr>vx := - 0.3\<rparr>) (ball 110 100 4) = (ball 100 100 4)\<lparr>vx := - 0.3\<rparr>"
    by (rule collide_one_far_x) (simp_all add: ball_def)
  have "accumulate (prune 0 env9) 0 (Leaf 0 0 1000 1000 0 [0, 1, 2])
      [ball 100 100 4, ball 108 100 4, ball 110 100 4] 0
      = collide_one (collide_one (ball 100 100 4) (ball 108 100 4)) (ball 110 100 4)"
    by (rule accumulate_quiet_three(1)[OF env9_quiet(1,2,3)]) (simp_all add: ball_def)
  then have a: "accumulate (prune 0 env9) 0 (Leaf 0 0 1000 1000 0 [0, 1, 2])
      [ball 100 100 4, ball 108 100 4, ball 110 100 4] 0 = (ball 100 100 4)\<lparr>vx := - 0.3\<rparr>"
    unfolding c1 c2 .
  show ?thesis
    unfolding step_particle_def a
    by (simp add: integrate_def keep_in_bounds_def DAMPING_def Let_def env9_def ball_def)
qed

lemma trio_step1:
  "step_particle (prune 0 env9) 0 (Leaf 0 0 1000 1000 0 [0, 1, 2])
     [(ball 100 100 4)\<lparr>x := 99.736, vx := - 0.264\<rparr>, ball 108 100 4, ball 110 100 4] 1
     = (ball 108 100 4)\<lparr>x := 106.346304, vx := - 1.653696\<rparr>"
proof -
  let ?p = "(ball 100 100 4)\<lparr>x := 99.736, vx := - 0.264\<rparr>"
  have c1: "collide_one (ball 108 100 4) ?p = (ball 108 100 4)\<lparr>vx := 0.2208\<rparr>"
    using collide_one_line(2)[of "ball 108 100 4" ?p] by (simp add: ball_def)
  have c2: "collide_one ((ball 108 100 4)\<lparr>vx := 0.2208\<rparr>) (ball 110 100 4)
      = (ball 108 100 4)\<lparr>vx := - 1.8792\<rparr>"
    using collide_one_line(1)[of "(ball 108 100 4)\<lparr>vx := 0.2208\<rparr>" "ball 110 100 4"]
    by (simp add: ball_def)
  have "accumulate (prune 0 env9) 0 (Leaf 0 0 1000 1000 0 [0, 1, 2])
      [?p, ball 108 100 4, ball 110 100 4] 1
      = collide_one (collide_one (ball 108 100 4) ?p) (ball 110 100 4)"
    by (rule accumulate_quiet_three(2)[OF env9_quiet(1,2,3)]) (simp_all add: ball_def)
  then have a: "accumulate (prune 0 env9) 0 (Leaf 0 0 1000 1000 0 [0, 1, 2])
      [?p, ball 108 100 4, ball 110 100 4] 1 = (ball 108 100 4)\<lparr>vx := - 1.8792\<rparr>"
    unfolding c1 c2 .
  show ?thesis
    unfolding step_particle_def a
    by (simp add: integrate_def keep_in_bounds_def DAMPING_def Let_def env9_def ball_def)
qed

lemma simulate_trio:
  "snd (simulate env9 0 trio) ! 0 = (ball 100 100 4)\<lparr>x := 99.736, vx := - 0.264\<rparr>"
  "snd (simulate env9 0 trio) ! 1 = (ball 108 100 4)\<lparr>x := 106.346304, vx := - 1.653696\<rparr>"
proof -
  have w: "width env9 = 1000" "height env9 = 1000" by (simp_all add: env9_def)
  show "snd (simulate env9 0 trio) ! 0 = (ball 100 100 4)\<lparr>x := 99.736, vx := - 0.264\<rparr>"
    unfolding trio_def simulate_three w trio_step0 by simp
  show "snd (simulate env9 0 trio) ! 1 = (ball 108 100 4)\<lparr>x := 106.346304, vx := - 1.653696\<rparr>"
    unfolding trio_def simulate_three w trio_step0 trio_step1 by simp
qed

lemma trio_facts:
  "center_dist (trio ! 0) (trio ! 1) = 8" "r (trio ! 0) + r (trio ! 1) + 1 = 9"
  "center_dist (snd (simulate env9 0 trio) ! 0) (snd (simulate env9 0 trio) ! 1) = 6.610304"
  unfolding simulate_trio by (simp_all add: trio_def center_dist_level ball_def)


section \<open>Repeated ticks on an overlapping pair\<close>

text \<open>
  The parts of \<open>line_tick\<close> are monotone in each argument, so the corners of a box bound
  its image; 53 boxes follow the pair \<open>pair2\<close> from its homes through the ticks.
\<close>

lemma push_bound: "b - a \<le> t \<Longrightarrow> 0 \<le> t \<Longrightarrow> push a \<le> push b + (3 / 10) * t"
  unfolding push_def by (simp add: field_simps)

lemma push_anti: "a \<le> b \<Longrightarrow> push b \<le> push a"
  using push_bound[of a b 0] by simp

lemma line_tick_parts:
  "line_tick ha hb (xa, va, xb, vb)
     = (xa + tick_va ha xa va xb, tick_va ha xa va xb,
        xb + tick_vb hb (xa + tick_va ha xa va xb) xb vb,
        tick_vb hb (xa + tick_va ha xa va xb) xb vb)"
  by (simp add: line_tick_def tick_va_def tick_vb_def push_def Let_def)

lemma va_mono:
  assumes "xa \<le> x1" "v1 \<le> va" "x3 \<le> xb"
  shows "tick_va ha x1 v1 x3 \<le> tick_va ha xa va xb"
proof -
  have "push (xb - xa) \<le> push (x3 - x1)" using assms by (intro push_anti) linarith
  then show ?thesis unfolding tick_va_def using assms by (simp add: field_simps)
qed

lemma xa_mono:
  assumes "x1 \<le> xa" "v1 \<le> va" "x3 \<le> xb"
  shows "x1 + tick_va ha x1 v1 x3 \<le> xa + tick_va ha xa va xb"
proof -
  have "push (xb - xa) \<le> push (x3 - x1) + (3 / 10) * (xa - x1)"
    using assms by (intro push_bound) linarith+
  then show ?thesis unfolding tick_va_def using assms by (simp add: field_simps)
qed

lemma vb_mono:
  assumes "xb - p \<le> x3 - p1" "v1 \<le> vb" "xb \<le> x3"
  shows "tick_vb hb p1 x3 v1 \<le> tick_vb hb p xb vb"
proof -
  have "push (x3 - p1) \<le> push (xb - p)" using assms(1) by (rule push_anti)
  then show ?thesis unfolding tick_vb_def using assms by (simp add: field_simps)
qed

lemma xb_mono:
  assumes "p1 \<le> p" "x3 \<le> xb" "v1 \<le> vb"
  shows "x3 + tick_vb hb p1 x3 v1 \<le> xb + tick_vb hb p xb vb"
proof -
  have "push (x3 - p1) \<le> push (xb - p) + (3 / 10) * (xb - x3)"
    using assms by (intro push_bound) linarith+
  then show ?thesis unfolding tick_vb_def using assms by (simp add: field_simps)
qed

lemma hop_sound:
  assumes "hop_ok ha hb B B'" and "in_box B s"
  shows "line_ok ha hb s \<and> in_box B' (line_tick ha hb s)"
proof -
  obtain l1 u1 l2 u2 l3 u3 l4 u4 where B: "B = (l1, u1, l2, u2, l3, u3, l4, u4)"
    by (cases B) auto
  obtain l1' u1' l2' u2' l3' u3' l4' u4' where B': "B' = (l1', u1', l2', u2', l3', u3', l4', u4')"
    by (cases B') auto
  obtain xa va xb vb where s: "s = (xa, va, xb, vb)" by (cases s) auto
  from assms(2) have b: "l1 \<le> xa" "xa \<le> u1" "l2 \<le> va" "va \<le> u2" "l3 \<le> xb" "xb \<le> u3"
    "l4 \<le> vb" "vb \<le> u4"
    unfolding B s in_box_def by simp_all
  let ?pa = "xa + tick_va ha xa va xb"
  from assms(1) have h: "4 \<le> l1" "u1 < l3" "4 \<le> l1'" "u1' \<le> 996" "u1' < l3" "4 \<le> l3'" "u3' \<le> 996"
    "l1' \<le> l1 + tick_va ha l1 l2 l3"
    "u1 + tick_va ha u1 u2 u3 \<le> u1'"
    "l2' \<le> tick_va ha u1 l2 l3"
    "tick_va ha l1 u2 u3 \<le> u2'"
    "l3' \<le> l3 + tick_vb hb l1' l3 l4"
    "u3 + tick_vb hb u1' u3 u4 \<le> u3'"
    "l4' \<le> tick_vb hb (l1' - (u3 - l3)) u3 l4"
    "tick_vb hb (u1' + (u3 - l3)) l3 u4 \<le> u4'"
    unfolding B B' hop_ok_def by simp_all
  have "l1 + tick_va ha l1 l2 l3 \<le> ?pa" using b by (intro xa_mono) simp_all
  with h(8) have xa_lo: "l1' \<le> ?pa" by linarith
  have "?pa \<le> u1 + tick_va ha u1 u2 u3" using b by (intro xa_mono) simp_all
  with h(9) have xa_hi: "?pa \<le> u1'" by linarith
  have "tick_va ha u1 l2 l3 \<le> tick_va ha xa va xb" using b by (intro va_mono) simp_all
  with h(10) have va_lo: "l2' \<le> tick_va ha xa va xb" by linarith
  have "tick_va ha xa va xb \<le> tick_va ha l1 u2 u3" using b by (intro va_mono) simp_all
  with h(11) have va_hi: "tick_va ha xa va xb \<le> u2'" by linarith
  have "l3 + tick_vb hb l1' l3 l4 \<le> xb + tick_vb hb ?pa xb vb"
    using xa_lo b by (intro xb_mono) simp_all
  with h(12) have xb_lo: "l3' \<le> xb + tick_vb hb ?pa xb vb" by linarith
  have "xb + tick_vb hb ?pa xb vb \<le> u3 + tick_vb hb u1' u3 u4"
    using xa_hi b by (intro xb_mono) simp_all
  with h(13) have xb_hi: "xb + tick_vb hb ?pa xb vb \<le> u3'" by linarith
  have "tick_vb hb (l1' - (u3 - l3)) u3 l4 \<le> tick_vb hb ?pa xb vb"
    using b xa_lo by (intro vb_mono) linarith+
  with h(14) have vb_lo: "l4' \<le> tick_vb hb ?pa xb vb" by linarith
  have "tick_vb hb ?pa xb vb \<le> tick_vb hb (u1' + (u3 - l3)) l3 u4"
    using b xa_hi by (intro vb_mono) linarith+
  with h(15) have vb_hi: "tick_vb hb ?pa xb vb \<le> u4'" by linarith
  have box: "in_box B' (line_tick ha hb s)"
    unfolding B' s in_box_def line_tick_parts
    using xa_lo xa_hi va_lo va_hi xb_lo xb_hi vb_lo vb_hi by simp
  have "line_ok ha hb s"
    unfolding s line_ok_def line_tick_parts
    using h(1-7) b xa_lo xa_hi xb_lo xb_hi by simp
  with box show ?thesis by blast
qed

lemma track_sound:
  assumes "track_ok ha hb B Bs" and "in_box B s" and "k \<le> length Bs"
  shows "frames k now (env9, line2 ha hb s) = (env9, line2 ha hb (line_ticks k ha hb s))
       \<and> in_box ((B # Bs) ! k) (line_ticks k ha hb s)"
  using assms
proof (induction k arbitrary: B Bs s)
  case 0
  then show ?case by simp
next
  case (Suc k)
  from Suc.prems(3) obtain B' Bs' where Bs: "Bs = B' # Bs'" by (cases Bs) auto
  from Suc.prems(1) have hop: "hop_ok ha hb B B'" and rest: "track_ok ha hb B' Bs'"
    unfolding Bs by simp_all
  from hop_sound[OF hop Suc.prems(2)]
  have ok: "line_ok ha hb s" and nb: "in_box B' (line_tick ha hb s)" by blast+
  have kl: "k \<le> length Bs'" using Suc.prems(3) unfolding Bs by simp
  from Suc.IH[OF rest nb kl] show ?case
    unfolding Bs frames_line[OF ok] by simp
qed


lemma track1_checked: "track_ok 100 105 (100, 100, 0, 0, 105, 105, 0, 0) track1"
  unfolding track1_def by (simp add: hop_ok_def tick_va_def tick_vb_def push_def)

lemma track2_checked: "track_ok 100 105 (90.382315, 90.3823331, - 0.1534833, - 0.153481, 110.649236, 110.6492576, 0.0835826, 0.0835851) track2"
  unfolding track2_def by (simp add: hop_ok_def tick_va_def tick_vb_def push_def)

lemma track3_checked: "track_ok 100 105 (91.920595, 91.9206481, 0.2403593, 0.2403629, 109.7113391, 109.7113977, - 0.1416488, - 0.141645) track3"
  unfolding track3_def by (simp add: hop_ok_def tick_va_def tick_vb_def push_def)

lemma track4_checked: "track_ok 100 105 (95.1418088, 95.1419097, 0.2279603, 0.2279653, 107.8251466, 107.825256, - 0.1330404, - 0.133035) track4"
  unfolding track4_def by (simp add: hop_ok_def tick_va_def tick_vb_def push_def)

lemma track_ok_append:
  "track_ok ha hb B (Bs @ Cs) = (track_ok ha hb B Bs \<and> track_ok ha hb (last (B # Bs)) Cs)"
  by (induction Bs arbitrary: B) simp_all

lemma track_checked: "track_ok 100 105 (100, 100, 0, 0, 105, 105, 0, 0) track"
proof -
  have l1: "last ((100, 100, 0, 0, 105, 105, 0, 0) # track1) = (90.382315, 90.3823331, - 0.1534833, - 0.153481, 110.649236, 110.6492576, 0.0835826, 0.0835851)"
    by (simp add: track1_def)
  have l2: "last ((100, 100, 0, 0, 105, 105, 0, 0) # track1 @ track2) = (91.920595, 91.9206481, 0.2403593, 0.2403629, 109.7113391, 109.7113977, - 0.1416488, - 0.141645)"
    by (simp add: track2_def)
  have l3: "last ((100, 100, 0, 0, 105, 105, 0, 0) # track1 @ track2 @ track3) = (95.1418088, 95.1419097, 0.2279603, 0.2279653, 107.8251466, 107.825256, - 0.1330404, - 0.133035)"
    by (simp add: track3_def)
  have "track_ok 100 105 (100, 100, 0, 0, 105, 105, 0, 0) ((track1 @ track2 @ track3) @ track4)"
    unfolding track_ok_append[of _ _ _ "track1 @ track2 @ track3"] l3
    unfolding track_ok_append[of _ _ _ "track1 @ track2", simplified] l2[simplified]
    unfolding track_ok_append l1
    using track1_checked track2_checked track3_checked track4_checked by simp
  then show ?thesis by (simp add: track_def)
qed

lemma track_ends:
  "((100, 100, 0, 0, 105, 105, 0, 0) # track) ! 52 = (97.5145184, 97.5146845, 0.1429552, 0.1429625, 106.4428229, 106.4430004, - 0.0831729, - 0.0831655)"
  "((100, 100, 0, 0, 105, 105, 0, 0) # track) ! 53 = (97.6323273, 97.6325024, 0.1177644, 0.1178625, 106.4133113, 106.4134942, - 0.0296061, - 0.0294117)"
  by (simp_all add: track_def track1_def track2_def track3_def track4_def)

lemma track_length: "length track = 53"
  by (simp add: track_def track1_def track2_def track3_def track4_def)

lemma line2_pair2: "line2 100 105 (100, 0, 105, 0) = pair2"
  by (simp add: line2_def pair2_def ball_def)

lemma line2_dist:
  "xa < xb \<Longrightarrow> center_dist (line2 ha hb (xa, va, xb, vb) ! 0) (line2 ha hb (xa, va, xb, vb) ! 1) = xb - xa"
  by (simp add: line2_def center_dist_level)

lemma overlap_grows_again:
  "fst (frames 52 0 (env9, pair2)) = env9"
  "0 < 9 - center_dist (snd (frames 52 0 (env9, pair2)) ! 0) (snd (frames 52 0 (env9, pair2)) ! 1)"
  "9 - center_dist (snd (frames 52 0 (env9, pair2)) ! 0) (snd (frames 52 0 (env9, pair2)) ! 1)
     < 9 - center_dist (snd (frames 53 0 (env9, pair2)) ! 0) (snd (frames 53 0 (env9, pair2)) ! 1)"
proof -
  let ?B0 = "(100, 100, 0, 0, 105, 105, 0, 0) :: box"
  let ?s0 = "(100, 0, 105, 0) :: real \<times> real \<times> real \<times> real"
  have b0: "in_box ?B0 ?s0" by (simp add: in_box_def)
  obtain xa va xb vb where s52: "line_ticks 52 100 105 ?s0 = (xa, va, xb, vb)"
    by (cases "line_ticks 52 100 105 ?s0") auto
  obtain xa' va' xb' vb' where s53: "line_ticks 53 100 105 ?s0 = (xa', va', xb', vb')"
    by (cases "line_ticks 53 100 105 ?s0") auto
  from track_sound[OF track_checked b0, of 52 0]
  have f52: "frames 52 0 (env9, pair2) = (env9, line2 100 105 (xa, va, xb, vb))"
    and i52: "in_box (97.5145184, 97.5146845, 0.1429552, 0.1429625, 106.4428229, 106.4430004, - 0.0831729, - 0.0831655) (xa, va, xb, vb)"
    unfolding track_ends s52 line2_pair2 by (simp_all add: track_length)
  from track_sound[OF track_checked b0, of 53 0]
  have f53: "frames 53 0 (env9, pair2) = (env9, line2 100 105 (xa', va', xb', vb'))"
    and i53: "in_box (97.6323273, 97.6325024, 0.1177644, 0.1178625, 106.4133113, 106.4134942, - 0.0296061, - 0.0294117) (xa', va', xb', vb')"
    unfolding track_ends s53 line2_pair2 by (simp_all add: track_length)
  from i52 have c52: "xa < xb" "xb - xa < 9" "8.9 < xb - xa"
    by (simp_all add: in_box_def)
  from i53 have c53: "xa' < xb'" "xb' - xa' < 8.8"
    by (simp_all add: in_box_def)
  show "fst (frames 52 0 (env9, pair2)) = env9" unfolding f52 by simp
  show "0 < 9 - center_dist (snd (frames 52 0 (env9, pair2)) ! 0) (snd (frames 52 0 (env9, pair2)) ! 1)"
    unfolding f52 snd_conv line2_dist[OF c52(1)] using c52(2) by simp
  show "9 - center_dist (snd (frames 52 0 (env9, pair2)) ! 0) (snd (frames 52 0 (env9, pair2)) ! 1)
     < 9 - center_dist (snd (frames 53 0 (env9, pair2)) ! 0) (snd (frames 53 0 (env9, pair2)) ! 1)"
    unfolding f52 f53 snd_conv line2_dist[OF c52(1)] line2_dist[OF c53(1)] using c52(3) c53(2) by simp
qed


section \<open>The alpha for a scroll progress that is a number\<close>

lemma scroll_handler_range:
  "scrollProgress (scroll_handler env rtop heroH) = NaN
   \<or> (\<exists>p. scrollProgress (scroll_handler env rtop heroH) = Num p \<and> 0 \<le> p \<and> p \<le> 1)"
  by (simp add: scroll_handler_def clamp_def)

lemma globalAlpha_range_num:
  assumes "scrollProgress env = Num p"
  shows "\<exists>a. globalAlpha env n = Num a \<and> 0 \<le> a \<and> a \<le> 1"
proof -
  have g: "0 \<le> glowFactor env n" by (simp add: glowFactor_def Let_def)
  have b: "baseAlpha env = Num (max 0 (0.6 * (1 - p)))" using assms by (simp add: baseAlpha_def)
  have "0 \<le> max 0 (0.6 * (1 - p)) + glowFactor env n * 0.08" using g by simp
  then show ?thesis unfolding globalAlpha_def b by simp
qed

section \<open>The claims\<close>

subsection \<open>C1\<close>

text \<open>
  C1, as stated: two particles closer than \<open>n.r + o.r + 1\<close> are always in each other's
  candidate list. It fails for the first two of the nine particles: their centres are 8.5
  apart, below the collision threshold 9, but their boxes lie on either side of the
  midline of the root, and neither query returns the other.
\<close>

theorem retrieve_misses_pair_within_margin:
  "center_dist (field9 ! 0) (field9 ! 1) < r (field9 ! 0) + r (field9 ! 1) + 1
   \<and> 1 \<notin> set (retrieve (build env9 field9) (field9 ! 0) [])
   \<and> 0 \<notin> set (retrieve (build env9 field9) (field9 ! 1) [])"
proof -
  have "center_dist (field9 ! 0) (field9 ! 1) < r (field9 ! 0) + r (field9 ! 1) + 1"
    by (simp add: center_dist_level field9_def ball_def)
  moreover have "1 \<notin> set (retrieve (build env9 field9) (field9 ! 0) [])"
    unfolding retrieve9_0 by simp
  moreover have "0 \<notin> set (retrieve (build env9 field9) (field9 ! 1) [])"
    unfolding retrieve9_1 by simp
  ultimately show ?thesis by blast
qed

text \<open>
  C1, amended: in the tree built from all the particles, two particles whose centre
  distance is at most the sum of their radii (the circles touch or overlap, without the
  margin of 1) are in each other's candidate list.
\<close>

theorem retrieve_complete_without_margin:
  assumes "i < length ps" and "j < length ps"
    and "center_dist (ps ! i) (ps ! j) \<le> r (ps ! i) + r (ps ! j)"
  shows "j \<in> set (retrieve (build env ps) (ps ! i) [])
       \<and> i \<in> set (retrieve (build env ps) (ps ! j) [])"
proof
  show "j \<in> set (retrieve (build env ps) (ps ! i) [])"
    using assms(2,3) by (rule retrieve_close)
  have "center_dist (ps ! j) (ps ! i) \<le> r (ps ! j) + r (ps ! i)"
    using assms(3) by (simp add: center_dist_sym add.commute)
  with assms(1) show "i \<in> set (retrieve (build env ps) (ps ! j) [])"
    by (rule retrieve_close)
qed

theorem retrieve_complete_without_margin_witness:
  "(0::nat) < length [ball 10 10 4, ball 15 10 4]
   \<and> (1::nat) < length [ball 10 10 4, ball 15 10 4]
   \<and> center_dist ([ball 10 10 4, ball 15 10 4] ! 0) ([ball 10 10 4, ball 15 10 4] ! 1)
       \<le> r ([ball 10 10 4, ball 15 10 4] ! 0) + r ([ball 10 10 4, ball 15 10 4] ! 1)
   \<and> 1 \<in> set (retrieve (build env9 [ball 10 10 4, ball 15 10 4]) ([ball 10 10 4, ball 15 10 4] ! 0) [])
   \<and> 0 \<in> set (retrieve (build env9 [ball 10 10 4, ball 15 10 4]) ([ball 10 10 4, ball 15 10 4] ! 1) [])"
proof -
  have d: "center_dist ([ball 10 10 4, ball 15 10 4] ! 0) ([ball 10 10 4, ball 15 10 4] ! 1)
      \<le> r ([ball 10 10 4, ball 15 10 4] ! 0) + r ([ball 10 10 4, ball 15 10 4] ! 1)"
    by (simp add: center_dist_level ball_def)
  have l0: "(0::nat) < length [ball 10 10 4, ball 15 10 4]"
    and l1: "(1::nat) < length [ball 10 10 4, ball 15 10 4]"
    by simp_all
  from retrieve_complete_without_margin[OF l0 l1 d, of env9] d l0 l1 show ?thesis
    by blast
qed

subsection \<open>C2\<close>

text \<open>
  C2, as stated: every force on a particle is computed from the state that the other
  particles had before the tick, so the two impulses of a colliding pair are equal and
  opposite. Two particles at rest, 5 apart: the first is pushed back with velocity
  \<open>-1.056\<close> and moves; the second then reads the new position of the first, and gets
  \<open>0.777216\<close> where the state before the tick would give \<open>1.056\<close>.
\<close>

theorem later_particle_reads_moved_neighbour:
  "vx (snd (simulate env9 0 pair2) ! 0) = - 1.056
   \<and> vx (snd (simulate env9 0 pair2) ! 1) = 0.777216
   \<and> vx (step_particle (prune 0 env9) 0 (build env9 pair2) pair2 1) = 1.056
   \<and> snd (simulate env9 0 pair2) ! 1 \<noteq> step_particle (prune 0 env9) 0 (build env9 pair2) pair2 1"
proof -
  have w: "width env9 = 1000" "height env9 = 1000" by (simp_all add: env9_def)
  have old: "step_particle (prune 0 env9) 0 (build env9 pair2) pair2 1
      = (ball 105 100 4)\<lparr>x := 106.056, vx := 1.056\<rparr>"
    unfolding pair2_def build_pair w by (rule pair2_step1_old)
  show ?thesis unfolding old simulate_pair2 by (simp add: ball_def)
qed

text \<open>
  C2, amended: the tick updates the particles in place, in array order. The new state of
  particle \<open>i\<close> is the loop body run on the store in which every particle before \<open>i\<close> has
  its state after the tick and every other particle its state before the tick; the tree
  is the one built before the loop.
\<close>

theorem tick_updates_in_place:
  assumes "i < length nodes" and "j < length nodes"
  shows "snd (simulate env now nodes) ! i
           = step_particle (prune now env) now (build env nodes)
               (store_at nodes (snd (simulate env now nodes)) i) i
       \<and> store_at nodes (snd (simulate env now nodes)) i ! j
           = (if j < i then snd (simulate env now nodes) ! j else nodes ! j)"
proof
  show "snd (simulate env now nodes) ! i
           = step_particle (prune now env) now (build env nodes)
               (store_at nodes (snd (simulate env now nodes)) i) i"
    using assms(1) by (rule simulate_nth)
  show "store_at nodes (snd (simulate env now nodes)) i ! j
           = (if j < i then snd (simulate env now nodes) ! j else nodes ! j)"
    using assms by (simp add: store_at_def nth_append simulate_length min_def)
qed

theorem tick_updates_in_place_witness:
  "(1::nat) < length pair2 \<and> (0::nat) < length pair2
   \<and> snd (simulate env9 0 pair2) ! 1
        = step_particle (prune 0 env9) 0 (build env9 pair2)
            (store_at pair2 (snd (simulate env9 0 pair2)) 1) 1
   \<and> store_at pair2 (snd (simulate env9 0 pair2)) 1 ! 0 = snd (simulate env9 0 pair2) ! 0"
proof -
  have l: "(1::nat) < length pair2" "(0::nat) < length pair2" by (simp_all add: pair2_def)
  have "((0::nat) < 1) = True" by simp
  with tick_updates_in_place[OF l, of env9 0] l show ?thesis by (simp only: if_True simp_thms)
qed

subsection \<open>C3\<close>

text \<open>
  C3: after a tick, every particle whose diameter fits in the viewport on both axes lies
  in \<open>[r, width - r]\<close> and in \<open>[r, height - r]\<close> (the radius is not changed by the tick).
\<close>

theorem simulate_contains:
  assumes "i < length nodes"
    and "2 * r (nodes ! i) \<le> width env" and "2 * r (nodes ! i) \<le> height env"
  shows "r (nodes ! i) \<le> x (snd (simulate env now nodes) ! i)
       \<and> x (snd (simulate env now nodes) ! i) \<le> width env - r (nodes ! i)
       \<and> r (nodes ! i) \<le> y (snd (simulate env now nodes) ! i)
       \<and> y (snd (simulate env now nodes) ! i) \<le> height env - r (nodes ! i)"
proof -
  let ?st = "store_at nodes (snd (simulate env now nodes)) i"
  let ?a = "integrate (accumulate (prune now env) now (build env nodes) ?st i)"
  have ra: "r ?a = r (nodes ! i)"
    using assms(1) by (simp add: store_at_self)
  have eq: "snd (simulate env now nodes) ! i = keep_in_bounds (prune now env) ?a"
    using simulate_nth[OF assms(1)] by (simp add: step_particle_def)
  show ?thesis
    unfolding eq using assms(2,3) ra
    by (simp add: keep_in_bounds_x(1) keep_in_bounds_y(1) Let_def del: integrate_fields)
qed

theorem simulate_contains_witness:
  "(0::nat) < length [fast_ball]
   \<and> 2 * r ([fast_ball] ! 0) \<le> width env9 \<and> 2 * r ([fast_ball] ! 0) \<le> height env9
   \<and> r ([fast_ball] ! 0) \<le> x (snd (simulate env9 0 [fast_ball]) ! 0)
   \<and> x (snd (simulate env9 0 [fast_ball]) ! 0) \<le> width env9 - r ([fast_ball] ! 0)
   \<and> r ([fast_ball] ! 0) \<le> y (snd (simulate env9 0 [fast_ball]) ! 0)
   \<and> y (snd (simulate env9 0 [fast_ball]) ! 0) \<le> height env9 - r ([fast_ball] ! 0)"
proof -
  have h: "(0::nat) < length [fast_ball]" "2 * r ([fast_ball] ! 0) \<le> width env9"
    "2 * r ([fast_ball] ! 0) \<le> height env9"
    by (simp_all add: fast_ball_def env9_def)
  from simulate_contains[OF h, of 0] h show ?thesis by blast
qed

subsection \<open>C4\<close>

text \<open>
  C4: a shockwave whose age \<open>now - time\<close> has reached 400 has no effect on the tick and is
  not in the list that the tick leaves; that list holds exactly the shockwaves younger than
  400, in their order. The tick gives particle \<open>i\<close> the push of every one of those and of
  no other: its state after the tick is the bounce and the move applied to what the forces
  without any shockwave give (on the store as the loop finds it at \<open>i\<close>), with the sum of
  the pushes at its position of before the tick added to the velocity. The push of a
  shockwave younger than 400 at a distance \<open>d\<close> in \<open>(0, 300)\<close> is a vector of length
  \<open>(1 - age / 400) * 15 * (1 - d / 300)\<close> pointing away from its origin.
\<close>

theorem shockwave_expiry:
  "(400 \<le> now - time s \<longrightarrow>
      simulate (env\<lparr>shockwaves := pre @ s # post\<rparr>) now nodes
        = simulate (env\<lparr>shockwaves := pre @ post\<rparr>) now nodes
      \<and> s \<notin> set (shockwaves (fst (simulate (env\<lparr>shockwaves := pre @ s # post\<rparr>) now nodes))))
   \<and> shockwaves (fst (simulate env now nodes))
        = filter (\<lambda>s. now - time s < 400) (shockwaves env)
   \<and> (i < length nodes \<longrightarrow>
        (let live = filter (\<lambda>s. now - time s < 400) (shockwaves env);
             a0 = accumulate (env\<lparr>shockwaves := []\<rparr>) now (build env nodes)
                    (store_at nodes (snd (simulate env now nodes)) i) i
         in snd (simulate env now nodes) ! i
              = keep_in_bounds env (integrate
                  (a0\<lparr>vx := vx a0 + (\<Sum>s\<leftarrow>live. vx (shockwave_push now s (nodes ! i)) - vx (nodes ! i)),
                       vy := vy a0 + (\<Sum>s\<leftarrow>live. vy (shockwave_push now s (nodes ! i)) - vy (nodes ! i))\<rparr>))))
   \<and> (let d = sqrt ((x n - sx s) * (x n - sx s) + (y n - sy s) * (y n - sy s));
           force = (1 - (now - time s) / 400) * 15 * (1 - d / 300)
       in now - time s < 400 \<and> 0 < d \<and> d < 300 \<longrightarrow>
            vx (shockwave_push now s n) - vx n = (x n - sx s) / d * force
          \<and> vy (shockwave_push now s n) - vy n = (y n - sy s) / d * force
          \<and> sqrt ((vx (shockwave_push now s n) - vx n) * (vx (shockwave_push now s n) - vx n)
                + (vy (shockwave_push now s n) - vy n) * (vy (shockwave_push now s n) - vy n))
              = force)"
proof (intro conjI impI)
  assume e: "400 \<le> now - time s"
  show "simulate (env\<lparr>shockwaves := pre @ s # post\<rparr>) now nodes
        = simulate (env\<lparr>shockwaves := pre @ post\<rparr>) now nodes"
    unfolding simulate_def prune_drops_expired[OF e] build_shockwaves ..
  show "s \<notin> set (shockwaves (fst (simulate (env\<lparr>shockwaves := pre @ s # post\<rparr>) now nodes)))"
    using e by (simp add: simulate_def Let_def)
next
  show "shockwaves (fst (simulate env now nodes))
        = filter (\<lambda>s. now - time s < 400) (shockwaves env)"
    by (rule simulate_prunes)
next
  assume i: "i < length nodes"
  show "let live = filter (\<lambda>s. now - time s < 400) (shockwaves env);
             a0 = accumulate (env\<lparr>shockwaves := []\<rparr>) now (build env nodes)
                    (store_at nodes (snd (simulate env now nodes)) i) i
         in snd (simulate env now nodes) ! i
              = keep_in_bounds env (integrate
                  (a0\<lparr>vx := vx a0 + (\<Sum>s\<leftarrow>live. vx (shockwave_push now s (nodes ! i)) - vx (nodes ! i)),
                       vy := vy a0 + (\<Sum>s\<leftarrow>live. vy (shockwave_push now s (nodes ! i)) - vy (nodes ! i))\<rparr>))"
    unfolding Let_def simulate_shockwaves[OF i] add_v_def ..
next
  let ?a = "x n - sx s" and ?b = "y n - sy s"
  let ?d = "sqrt (?a * ?a + ?b * ?b)"
  let ?f = "(1 - (now - time s) / 400) * 15 * (1 - ?d / 300)"
  have main: "vx (shockwave_push now s n) - vx n = ?a / ?d * ?f
          \<and> vy (shockwave_push now s n) - vy n = ?b / ?d * ?f
          \<and> sqrt ((vx (shockwave_push now s n) - vx n) * (vx (shockwave_push now s n) - vx n)
                + (vy (shockwave_push now s n) - vy n) * (vy (shockwave_push now s n) - vy n))
              = ?f"
    if h: "now - time s < 400 \<and> 0 < ?d \<and> ?d < 300"
  proof -
    have nn: "0 \<le> ?a * ?a + ?b * ?b" by simp
    have pos: "0 < ?a * ?a + ?b * ?b"
      using h real_sqrt_gt_0_iff[of "?a * ?a + ?b * ?b"] by blast
    have lt: "?a * ?a + ?b * ?b < 300 * 300"
      using h sqrt_less_300[OF nn] by blast
    have px: "vx (shockwave_push now s n) - vx n = ?a / ?d * ?f"
      unfolding shockwave_push_in_range[OF pos lt] by simp
    have py: "vy (shockwave_push now s n) - vy n = ?b / ?d * ?f"
      unfolding shockwave_push_in_range[OF pos lt] by simp
    have "0 \<le> 1 - (now - time s) / 400" and "0 \<le> 1 - ?d / 300"
      using h by simp_all
    then have f0: "0 \<le> ?f" by simp
    have d0: "0 < ?d" using h by blast
    have "sqrt ((?a / ?d * ?f) * (?a / ?d * ?f) + (?b / ?d * ?f) * (?b / ?d * ?f)) = ?f"
      using f0 d0 refl by (rule sqrt_sq_sum)
    then show ?thesis unfolding px py by blast
  qed
  then show "let d = sqrt ((x n - sx s) * (x n - sx s) + (y n - sy s) * (y n - sy s));
           force = (1 - (now - time s) / 400) * 15 * (1 - d / 300)
       in now - time s < 400 \<and> 0 < d \<and> d < 300 \<longrightarrow>
            vx (shockwave_push now s n) - vx n = (x n - sx s) / d * force
          \<and> vy (shockwave_push now s n) - vy n = (y n - sy s) / d * force
          \<and> sqrt ((vx (shockwave_push now s n) - vx n) * (vx (shockwave_push now s n) - vx n)
                + (vy (shockwave_push now s n) - vy n) * (vy (shockwave_push now s n) - vy n))
              = force"
    unfolding Let_def by blast
qed

theorem shockwave_expiry_witness:
  "400 \<le> (400::real) - time wave
   \<and> simulate (env9\<lparr>shockwaves := [] @ wave # []\<rparr>) 400 field9
        = simulate (env9\<lparr>shockwaves := [] @ []\<rparr>) 400 field9
   \<and> wave \<notin> set (shockwaves (fst (simulate (env9\<lparr>shockwaves := [] @ wave # []\<rparr>) 400 field9)))
   \<and> shockwaves (fst (simulate (env9\<lparr>shockwaves := [wave]\<rparr>) 200 [ball 130 140 4])) = [wave]
   \<and> 0 < length [ball 130 140 4]
   \<and> snd (simulate (env9\<lparr>shockwaves := [wave]\<rparr>) 200 [ball 130 140 4]) ! 0
        = (ball 130 140 4)\<lparr>vx := 3.3, vy := 4.4, x := 133.3, y := 144.4\<rparr>
   \<and> (200::real) - time wave < 400
   \<and> vx (shockwave_push 200 wave (ball 130 140 4)) - vx (ball 130 140 4) = 3.75
   \<and> vy (shockwave_push 200 wave (ball 130 140 4)) - vy (ball 130 140 4) = 5
   \<and> sqrt ((vx (shockwave_push 200 wave (ball 130 140 4)) - vx (ball 130 140 4))
             * (vx (shockwave_push 200 wave (ball 130 140 4)) - vx (ball 130 140 4))
           + (vy (shockwave_push 200 wave (ball 130 140 4)) - vy (ball 130 140 4))
             * (vy (shockwave_push 200 wave (ball 130 140 4)) - vy (ball 130 140 4))) = 6.25"
proof -
  have e: "400 \<le> (400::real) - time wave" by (simp add: wave_def)
  have d: "sqrt ((x (ball 130 140 4) - sx wave) * (x (ball 130 140 4) - sx wave)
               + (y (ball 130 140 4) - sy wave) * (y (ball 130 140 4) - sy wave)) = 50"
    using sqrt_50 by (simp add: ball_def wave_def)
  have l: "(200::real) - time wave < 400" by (simp add: wave_def)
  have f: "(1 - (200 - time wave) / 400) * 15 * (1 - 50 / 300) = (6.25::real)"
    by (simp add: wave_def)
  have a: "(x (ball 130 140 4) - sx wave) / 50 * 6.25 = 3.75"
    and b: "(y (ball 130 140 4) - sy wave) / 50 * 6.25 = 5"
    by (simp_all add: ball_def wave_def)
  from shockwave_expiry[where now = 400 and s = wave and env = env9 and pre = "[]" and post = "[]"
      and nodes = field9 and n = "ball 130 140 4"] e
  have p1: "simulate (env9\<lparr>shockwaves := [] @ wave # []\<rparr>) 400 field9
        = simulate (env9\<lparr>shockwaves := [] @ []\<rparr>) 400 field9
     \<and> wave \<notin> set (shockwaves (fst (simulate (env9\<lparr>shockwaves := [] @ wave # []\<rparr>) 400 field9)))"
    by blast
  have n: "(0::real) < 50 \<and> (50::real) < 300" by simp
  note t = shockwave_expiry[where now = 200 and s = wave and env = "env9\<lparr>shockwaves := [wave]\<rparr>"
      and pre = "[]" and post = "[]" and nodes = "[ball 130 140 4]" and n = "ball 130 140 4" and i = 0]
  from t
  have "(200::real) - time wave < 400 \<and> (0::real) < 50 \<and> (50::real) < 300 \<longrightarrow>
     vx (shockwave_push 200 wave (ball 130 140 4)) - vx (ball 130 140 4) = 3.75
   \<and> vy (shockwave_push 200 wave (ball 130 140 4)) - vy (ball 130 140 4) = 5
   \<and> sqrt ((vx (shockwave_push 200 wave (ball 130 140 4)) - vx (ball 130 140 4))
             * (vx (shockwave_push 200 wave (ball 130 140 4)) - vx (ball 130 140 4))
           + (vy (shockwave_push 200 wave (ball 130 140 4)) - vy (ball 130 140 4))
             * (vy (shockwave_push 200 wave (ball 130 140 4)) - vy (ball 130 140 4))) = 6.25"
    unfolding Let_def d f a b by blast
  with l n
  have p2: "vx (shockwave_push 200 wave (ball 130 140 4)) - vx (ball 130 140 4) = 3.75
   \<and> vy (shockwave_push 200 wave (ball 130 140 4)) - vy (ball 130 140 4) = 5
   \<and> sqrt ((vx (shockwave_push 200 wave (ball 130 140 4)) - vx (ball 130 140 4))
             * (vx (shockwave_push 200 wave (ball 130 140 4)) - vx (ball 130 140 4))
           + (vy (shockwave_push 200 wave (ball 130 140 4)) - vy (ball 130 140 4))
             * (vy (shockwave_push 200 wave (ball 130 140 4)) - vy (ball 130 140 4))) = 6.25"
    by blast
  have live: "filter (\<lambda>s. 200 - time s < 400) (shockwaves (env9\<lparr>shockwaves := [wave]\<rparr>)) = [wave]"
    by (simp add: wave_def)
  from t have p3: "shockwaves (fst (simulate (env9\<lparr>shockwaves := [wave]\<rparr>) 200 [ball 130 140 4])) = [wave]"
    unfolding live by blast
  have st: "store_at [ball 130 140 4] (snd (simulate (env9\<lparr>shockwaves := [wave]\<rparr>) 200 [ball 130 140 4])) 0
      = [ball 130 140 4]"
    by (simp add: store_at_def)
  have a0: "accumulate (env9\<lparr>shockwaves := [wave], shockwaves := []\<rparr>) 200
       (build (env9\<lparr>shockwaves := [wave]\<rparr>) [ball 130 140 4]) [ball 130 140 4] 0 = ball 130 140 4"
    using accumulate_lone_ball[of 200] by (simp add: build_shockwaves)
  from t have "0 < length [ball 130 140 4] \<longrightarrow>
      snd (simulate (env9\<lparr>shockwaves := [wave]\<rparr>) 200 [ball 130 140 4]) ! 0
        = keep_in_bounds (env9\<lparr>shockwaves := [wave]\<rparr>) (integrate
            ((ball 130 140 4)\<lparr>vx := vx (ball 130 140 4) + (3.75 + 0), vy := vy (ball 130 140 4) + (5 + 0)\<rparr>))"
    unfolding Let_def live st a0 using p2 by simp
  then have p4: "snd (simulate (env9\<lparr>shockwaves := [wave]\<rparr>) 200 [ball 130 140 4]) ! 0
        = (ball 130 140 4)\<lparr>vx := 3.3, vy := 4.4, x := 133.3, y := 144.4\<rparr>"
    by (simp add: move_defs env9_def ball_def)
  have len: "0 < length [ball 130 140 4]" by simp
  from e l p1 p2 p3 p4 len show ?thesis by blast
qed

subsection \<open>C5\<close>

text \<open>
  C5, as stated: a position that crosses the range is clamped and the velocity on that
  axis is multiplied by \<open>-0.5\<close>. In a viewport of width 20 a particle of radius 12 that
  moves to \<open>x = 11.88\<close> fails the first test and then, at \<open>x = 12 > 20 - 12\<close>, the second:
  its velocity is multiplied by \<open>-0.5\<close> twice, that is by \<open>0.25\<close>.
\<close>

theorem bounce_twice_in_narrow_viewport:
  "x (accumulate (prune 0 narrow_env) 0 (build narrow_env [wide_ball]) [wide_ball] 0)
     + vx (accumulate (prune 0 narrow_env) 0 (build narrow_env [wide_ball]) [wide_ball] 0) * 0.88
     < r wide_ball
   \<and> vx (snd (simulate narrow_env 0 [wide_ball]) ! 0)
     \<noteq> vx (accumulate (prune 0 narrow_env) 0 (build narrow_env [wide_ball]) [wide_ball] 0) * 0.88 * (- 0.5)
   \<and> vx (snd (simulate narrow_env 0 [wide_ball]) ! 0)
     = vx (accumulate (prune 0 narrow_env) 0 (build narrow_env [wide_ball]) [wide_ball] 0) * 0.88 * 0.25"
  unfolding accumulate_wide_ball simulate_wide_ball by (simp add: wide_ball_def)

text \<open>
  C5, amended: when the diameter of the particle fits in the viewport on both axes, the
  tick multiplies the accumulated velocity by 0.88, adds it to the position, and on each
  axis clamps a position outside \<open>[r, dimension - r]\<close> to the bound it passed and
  multiplies the velocity on that axis by \<open>-0.5\<close>.
\<close>

theorem integrator_semantics:
  assumes "i < length nodes"
    and "2 * r (nodes ! i) \<le> width env" and "2 * r (nodes ! i) \<le> height env"
  shows "let a = accumulate (prune now env) now (build env nodes)
                   (store_at nodes (snd (simulate env now nodes)) i) i;
             n' = snd (simulate env now nodes) ! i;
             v = vx a * 0.88; u = vy a * 0.88;
             px = x a + v; py = y a + u
         in x n' = (if px < r a then r a else if px > width env - r a then width env - r a else px)
          \<and> vx n' = (if px < r a \<or> px > width env - r a then v * (- 0.5) else v)
          \<and> y n' = (if py < r a then r a else if py > height env - r a then height env - r a else py)
          \<and> vy n' = (if py < r a \<or> py > height env - r a then u * (- 0.5) else u)"
proof -
  let ?st = "store_at nodes (snd (simulate env now nodes)) i"
  let ?a = "accumulate (prune now env) now (build env nodes) ?st i"
  have ra: "r ?a = r (nodes ! i)"
    using assms(1) by (simp add: store_at_self)
  have eq: "snd (simulate env now nodes) ! i = keep_in_bounds (prune now env) (integrate ?a)"
    using simulate_nth[OF assms(1)] by (simp add: step_particle_def)
  have w: "2 * r ?a \<le> width env" and h: "2 * r ?a \<le> height env"
    using assms(2,3) ra by simp_all
  show ?thesis
    unfolding eq Let_def keep_in_bounds_x keep_in_bounds_y
    using w h by (simp add: DAMPING_def del: accumulate_keeps)
qed

theorem integrator_semantics_witness:
  "(0::nat) < length [fast_ball]
   \<and> 2 * r ([fast_ball] ! 0) \<le> width env9 \<and> 2 * r ([fast_ball] ! 0) \<le> height env9
   \<and> x (snd (simulate env9 0 [fast_ball]) ! 0) = 4
   \<and> vx (snd (simulate env9 0 [fast_ball]) ! 0) = 4.4"
proof -
  have h: "(0::nat) < length [fast_ball]" "2 * r ([fast_ball] ! 0) \<le> width env9"
    "2 * r ([fast_ball] ! 0) \<le> height env9"
    by (simp_all add: fast_ball_def env9_def)
  from integrator_semantics[OF h, of 0] h show ?thesis
    unfolding simulate_fast_ball by simp
qed

subsection \<open>C6\<close>

text \<open>
  C6, as stated, fails in five ways; every pair below starts closer than the collision
  distance and at rest, with no cursor, scroll or shockwave, and the first four start at
  their homes. In the field of nine particles the first two are 8.5 apart (threshold 9) on
  either side of the midline of the root; neither is a candidate of the other, no impulse
  is applied and the distance stays. In a viewport of width 16 two particles of radius 4 at
  \<open>x = 4\<close> and \<open>x = 12\<close> are pushed into the edges and clamped back to where they were. Of
  three particles at \<open>x = 100\<close>, 108 and 110 the second is pushed towards the first by the
  third, and the first two end the tick closer than they began. Under repeated ticks the
  pull to the homes works against the impulses: the pair \<open>pair2\<close> separates, comes back,
  overlaps again after 52 ticks, and the 53rd tick increases that overlap; and the pair
  \<open>rest2\<close>, 0.6 off its homes with an overlap of 0.01, is left as it is by every tick, here
  1000 of them.
\<close>

theorem overlap_not_reduced:
  "0 < center_dist (field9 ! 0) (field9 ! 1)
   \<and> center_dist (field9 ! 0) (field9 ! 1) < r (field9 ! 0) + r (field9 ! 1) + 1
   \<and> center_dist (snd (simulate env9 0 field9) ! 0) (snd (simulate env9 0 field9) ! 1)
       = center_dist (field9 ! 0) (field9 ! 1)
   \<and> 0 < center_dist (squeezed2 ! 0) (squeezed2 ! 1)
   \<and> center_dist (squeezed2 ! 0) (squeezed2 ! 1) < r (squeezed2 ! 0) + r (squeezed2 ! 1) + 1
   \<and> center_dist (snd (simulate tight_env 0 squeezed2) ! 0) (snd (simulate tight_env 0 squeezed2) ! 1)
       = center_dist (squeezed2 ! 0) (squeezed2 ! 1)
   \<and> 0 < center_dist (trio ! 0) (trio ! 1)
   \<and> center_dist (trio ! 0) (trio ! 1) < r (trio ! 0) + r (trio ! 1) + 1
   \<and> center_dist (snd (simulate env9 0 trio) ! 0) (snd (simulate env9 0 trio) ! 1)
       < center_dist (trio ! 0) (trio ! 1)
   \<and> 0 < center_dist (pair2 ! 0) (pair2 ! 1)
   \<and> center_dist (pair2 ! 0) (pair2 ! 1) < r (pair2 ! 0) + r (pair2 ! 1) + 1
   \<and> fst (frames 52 0 (env9, pair2)) = env9
   \<and> 0 < 9 - center_dist (snd (frames 52 0 (env9, pair2)) ! 0) (snd (frames 52 0 (env9, pair2)) ! 1)
   \<and> 9 - center_dist (snd (frames 52 0 (env9, pair2)) ! 0) (snd (frames 52 0 (env9, pair2)) ! 1)
       < 9 - center_dist (snd (frames 53 0 (env9, pair2)) ! 0) (snd (frames 53 0 (env9, pair2)) ! 1)
   \<and> vx (rest2 ! 0) = 0 \<and> vy (rest2 ! 0) = 0 \<and> vx (rest2 ! 1) = 0 \<and> vy (rest2 ! 1) = 0
   \<and> 0 < center_dist (rest2 ! 0) (rest2 ! 1)
   \<and> center_dist (rest2 ! 0) (rest2 ! 1) < r (rest2 ! 0) + r (rest2 ! 1) + 1
   \<and> frames 1000 0 (env9, rest2) = (env9, rest2)"
proof -
  have f9: "center_dist (field9 ! 0) (field9 ! 1) = 8.5" "r (field9 ! 0) + r (field9 ! 1) + 1 = 9"
    by (simp_all add: center_dist_level field9_def ball_def)
  have s2: "center_dist (squeezed2 ! 0) (squeezed2 ! 1) = 8" "r (squeezed2 ! 0) + r (squeezed2 ! 1) + 1 = 9"
    by (simp_all add: center_dist_level squeezed2_def ball_def)
  have s2': "center_dist (snd (simulate tight_env 0 squeezed2) ! 0) (snd (simulate tight_env 0 squeezed2) ! 1) = 8"
    unfolding simulate_squeezed2 by (simp add: center_dist_level ball_def)
  have p2: "center_dist (pair2 ! 0) (pair2 ! 1) = 5" "r (pair2 ! 0) + r (pair2 ! 1) + 1 = 9"
    by (simp_all add: center_dist_level pair2_def ball_def)
  have one: "0 < center_dist (field9 ! 0) (field9 ! 1)
     \<and> center_dist (field9 ! 0) (field9 ! 1) < r (field9 ! 0) + r (field9 ! 1) + 1
     \<and> center_dist (snd (simulate env9 0 field9) ! 0) (snd (simulate env9 0 field9) ! 1)
         = center_dist (field9 ! 0) (field9 ! 1)"
    unfolding field9_post0 field9_post1 f9 by simp
  have two: "0 < center_dist (squeezed2 ! 0) (squeezed2 ! 1)
     \<and> center_dist (squeezed2 ! 0) (squeezed2 ! 1) < r (squeezed2 ! 0) + r (squeezed2 ! 1) + 1
     \<and> center_dist (snd (simulate tight_env 0 squeezed2) ! 0) (snd (simulate tight_env 0 squeezed2) ! 1)
         = center_dist (squeezed2 ! 0) (squeezed2 ! 1)"
    unfolding s2' s2 by simp
  have three: "0 < center_dist (trio ! 0) (trio ! 1)
     \<and> center_dist (trio ! 0) (trio ! 1) < r (trio ! 0) + r (trio ! 1) + 1
     \<and> center_dist (snd (simulate env9 0 trio) ! 0) (snd (simulate env9 0 trio) ! 1)
         < center_dist (trio ! 0) (trio ! 1)"
    unfolding trio_facts by simp
  have four: "0 < center_dist (pair2 ! 0) (pair2 ! 1)
     \<and> center_dist (pair2 ! 0) (pair2 ! 1) < r (pair2 ! 0) + r (pair2 ! 1) + 1"
    unfolding p2 by simp
  have five: "0 < center_dist (rest2 ! 0) (rest2 ! 1)
     \<and> center_dist (rest2 ! 0) (rest2 ! 1) < r (rest2 ! 0) + r (rest2 ! 1) + 1"
    unfolding rest2_facts by simp
  from one two three four overlap_grows_again rest2_facts(1,2,3,4) five frames_rest2[of 1000 0]
  show ?thesis by blast
qed

text \<open>
  C6, amended: let \<open>i < j\<close> be two particles at rest at their homes, with centres closer
  than \<open>m = r1 + r2 + 1\<close> and not equal, the cursor at the sentinel, the scroll progress 0,
  every live shockwave at least 300 away from both, no radius negative, each of the two at
  least \<open>0.264\<close> times the overlap inside the bounds on both axes, each among the candidates
  that the tree returns for the other, and every third particle at least the collision
  distance away from either in the store that the loop holds when it reaches it. Then the
  tick gives each of the two the separation impulse of length \<open>0.3\<close> times the overlap, the
  first from the positions before the tick and the second from the new position of the
  first, which is still closer than \<open>m\<close>; the velocity of each is multiplied by \<open>0.88\<close> and
  added to its position, and neither is clamped; and the overlap after the tick is not
  larger than before. (It is smaller in exact arithmetic; a push that is less than the
  spacing of the floating-point numbers at the coordinate leaves the position, and the
  overlap, as they were.)
\<close>

theorem separation_pushes_apart:
  assumes ij: "i < j" "j < length nodes"
    and quiet: "mouseX env = - 9999" "mouseY env = - 9999" "scrollProgress env = Num 0"
    and waves_i: "\<forall>s \<in> set (shockwaves env). now - time s < 400 \<longrightarrow>
           300 \<le> sqrt ((x (nodes ! i) - sx s) * (x (nodes ! i) - sx s)
                         + (y (nodes ! i) - sy s) * (y (nodes ! i) - sy s))"
    and waves_j: "\<forall>s \<in> set (shockwaves env). now - time s < 400 \<longrightarrow>
           300 \<le> sqrt ((x (nodes ! j) - sx s) * (x (nodes ! j) - sx s)
                         + (y (nodes ! j) - sy s) * (y (nodes ! j) - sy s))"
    and rest_i: "x (nodes ! i) = homeX (nodes ! i)" "y (nodes ! i) = homeY (nodes ! i)"
      "vx (nodes ! i) = 0" "vy (nodes ! i) = 0"
    and rest_j: "x (nodes ! j) = homeX (nodes ! j)" "y (nodes ! j) = homeY (nodes ! j)"
      "vx (nodes ! j) = 0" "vy (nodes ! j) = 0"
    and radii: "\<forall>k < length nodes. 0 \<le> r (nodes ! k)"
    and d: "0 < center_dist (nodes ! i) (nodes ! j)"
      "center_dist (nodes ! i) (nodes ! j) < r (nodes ! i) + r (nodes ! j) + 1"
    and room_i:
      "r (nodes ! i) + 0.264 * (r (nodes ! i) + r (nodes ! j) + 1 - center_dist (nodes ! i) (nodes ! j))
         \<le> x (nodes ! i)"
      "x (nodes ! i) + 0.264 * (r (nodes ! i) + r (nodes ! j) + 1 - center_dist (nodes ! i) (nodes ! j))
         \<le> width env - r (nodes ! i)"
      "r (nodes ! i) + 0.264 * (r (nodes ! i) + r (nodes ! j) + 1 - center_dist (nodes ! i) (nodes ! j))
         \<le> y (nodes ! i)"
      "y (nodes ! i) + 0.264 * (r (nodes ! i) + r (nodes ! j) + 1 - center_dist (nodes ! i) (nodes ! j))
         \<le> height env - r (nodes ! i)"
    and room_j:
      "r (nodes ! j) + 0.264 * (r (nodes ! i) + r (nodes ! j) + 1 - center_dist (nodes ! i) (nodes ! j))
         \<le> x (nodes ! j)"
      "x (nodes ! j) + 0.264 * (r (nodes ! i) + r (nodes ! j) + 1 - center_dist (nodes ! i) (nodes ! j))
         \<le> width env - r (nodes ! j)"
      "r (nodes ! j) + 0.264 * (r (nodes ! i) + r (nodes ! j) + 1 - center_dist (nodes ! i) (nodes ! j))
         \<le> y (nodes ! j)"
      "y (nodes ! j) + 0.264 * (r (nodes ! i) + r (nodes ! j) + 1 - center_dist (nodes ! i) (nodes ! j))
         \<le> height env - r (nodes ! j)"
    and cand: "j \<in> set (retrieve (build env nodes) (nodes ! i) [])"
      "i \<in> set (retrieve (build env nodes) (nodes ! j) [])"
    and third_i: "\<forall>k < length nodes. k \<noteq> i \<longrightarrow> k \<noteq> j \<longrightarrow>
           r (nodes ! i) + r (nodes ! k) + 1
             \<le> center_dist (nodes ! i) (store_at nodes (snd (simulate env now nodes)) i ! k)"
    and third_j: "\<forall>k < length nodes. k \<noteq> i \<longrightarrow> k \<noteq> j \<longrightarrow>
           r (nodes ! j) + r (nodes ! k) + 1
             \<le> center_dist (nodes ! j) (store_at nodes (snd (simulate env now nodes)) j ! k)"
  shows "let a = nodes ! i; b = nodes ! j;
             a' = snd (simulate env now nodes) ! i; b' = snd (simulate env now nodes) ! j;
             m = r a + r b + 1
         in a' = integrate (collide_one a b)
          \<and> vx (collide_one a b) = (x a - x b) / center_dist a b * (m - center_dist a b) * 0.3
          \<and> vy (collide_one a b) = (y a - y b) / center_dist a b * (m - center_dist a b) * 0.3
          \<and> vx a' = vx (collide_one a b) * 0.88 \<and> vy a' = vy (collide_one a b) * 0.88
          \<and> x a' = x a + vx a' \<and> y a' = y a + vy a'
          \<and> 0 < center_dist b a' \<and> center_dist b a' < m
          \<and> b' = integrate (collide_one b a')
          \<and> vx (collide_one b a') = (x b - x a') / center_dist b a' * (m - center_dist b a') * 0.3
          \<and> vy (collide_one b a') = (y b - y a') / center_dist b a' * (m - center_dist b a') * 0.3
          \<and> vx b' = vx (collide_one b a') * 0.88 \<and> vy b' = vy (collide_one b a') * 0.88
          \<and> x b' = x b + vx b' \<and> y b' = y b + vy b'
          \<and> m - center_dist a' b' \<le> m - center_dist a b"
proof -
  let ?post = "snd (simulate env now nodes)"
  let ?a = "nodes ! i" and ?b = "nodes ! j"
  let ?a' = "?post ! i" and ?b' = "?post ! j"
  let ?m = "r ?a + r ?b + 1"
  let ?d = "center_dist ?a ?b"
  let ?si = "store_at nodes ?post i" and ?sj = "store_at nodes ?post j"
  let ?e = "prune now env"
  let ?qt = "build env nodes"
  have il: "i < length nodes" using ij by simp
  have ne: "i \<noteq> j" "j \<noteq> i" using ij(1) by simp_all
  have ra: "0 \<le> r ?a" and rb: "0 \<le> r ?b" using radii il ij(2) by blast+
  have sii: "?si ! i = ?a" using il by (rule store_at_self)
  have sij: "?si ! j = ?b" using store_at_get[OF il ij(2), of env now] ij(1) by simp
  have sjj: "?sj ! j = ?b" using ij(2) by (rule store_at_self)
  have sji: "?sj ! i = ?a'" using store_at_get[OF ij(2) il, of env now] ij(1) by simp
  have ov: "0 \<le> 0.264 * (?m - ?d)" using d(2) by simp
  have xa0: "0 \<le> x ?a" using ra ov room_i(1) by linarith
  have xb0: "0 \<le> x ?b" using rb ov room_j(1) by linarith
  \<comment> \<open>the first of the two\<close>
  have acc_i: "accumulate ?e now ?qt ?si i = collide_one (?si ! i) (?si ! j)"
  proof (rule accumulate_quiet_one)
    show "\<forall>s\<in>set (shockwaves ?e).
       300 \<le> sqrt ((x (?si ! i) - sx s) * (x (?si ! i) - sx s) + (y (?si ! i) - sy s) * (y (?si ! i) - sy s))"
      unfolding sii using waves_i by simp
    show "distinct (retrieve ?qt (?si ! i) [])" by (rule retrieve_distinct)
    show "j \<in> set (retrieve ?qt (?si ! i) [])" unfolding sii by (rule cand(1))
    show "\<forall>k\<in>set (retrieve ?qt (?si ! i) []). k \<noteq> i \<longrightarrow> k \<noteq> j \<longrightarrow>
        r (?si ! i) + r (?si ! k) + 1 \<le> center_dist (?si ! i) (?si ! k) \<and> 0 \<le> r (?si ! i) + r (?si ! k) + 1"
    proof (intro ballI impI)
      fix k assume k: "k \<in> set (retrieve ?qt (?si ! i) [])" and n: "k \<noteq> i" "k \<noteq> j"
      from k have kl: "k < length nodes" by (rule retrieve_build_range)
      have rk: "r (?si ! k) = r (nodes ! k)" using kl by (rule store_at_r)
      have "0 \<le> r (nodes ! k)" using kl radii by blast
      then show "r (?si ! i) + r (?si ! k) + 1 \<le> center_dist (?si ! i) (?si ! k)
          \<and> 0 \<le> r (?si ! i) + r (?si ! k) + 1"
        unfolding sii rk using third_i kl n ra by simp
    qed
  qed (use rest_i quiet xa0 ne in \<open>simp_all add: sii\<close>)
  have step_i: "?a' = keep_in_bounds ?e (integrate (collide_one ?a ?b))"
    unfolding simulate_nth[OF il] step_particle_def acc_i sii sij ..
  have room_i': "r ?a + 0.264 * (?m - ?d) \<le> x ?a" "x ?a + 0.264 * (?m - ?d) \<le> width ?e - r ?a"
    "r ?a + 0.264 * (?m - ?d) \<le> y ?a" "y ?a + 0.264 * (?m - ?d) \<le> height ?e - r ?a"
    using room_i by simp_all
  note pi = push_step[OF rest_i(3,4) d room_i']
  have a': "?a' = integrate (collide_one ?a ?b)" unfolding step_i pi(1) ..
  have ra': "r ?a' = r ?a" using il by (rule simulate_r)
  \<comment> \<open>the second, which reads the new position of the first\<close>
  have d1: "center_dist ?b ?a' = ?d + 0.264 * (?m - ?d)"
    unfolding a' by (rule pi(5))
  have d1_pos: "0 < center_dist ?b ?a'" unfolding d1 using d(1) ov by linarith
  have t: "0 < ?m - ?d" using d(2) by simp
  have "0.264 * (?m - ?d) < 1 * (?m - ?d)"
    using t by (intro mult_strict_right_mono) simp_all
  then have "0.264 * (?m - ?d) < ?m - ?d" by (simp only: mult_1)
  then have "?d + 0.264 * (?m - ?d) < r ?b + r ?a + 1" by (simp only: less_diff_eq add.commute)
  then have d1_lt: "center_dist ?b ?a' < r ?b + r ?a' + 1" unfolding d1 ra' .
  have acc_j: "accumulate ?e now ?qt ?sj j = collide_one (?sj ! j) (?sj ! i)"
  proof (rule accumulate_quiet_one)
    show "\<forall>s\<in>set (shockwaves ?e).
       300 \<le> sqrt ((x (?sj ! j) - sx s) * (x (?sj ! j) - sx s) + (y (?sj ! j) - sy s) * (y (?sj ! j) - sy s))"
      unfolding sjj using waves_j by simp
    show "distinct (retrieve ?qt (?sj ! j) [])" by (rule retrieve_distinct)
    show "i \<in> set (retrieve ?qt (?sj ! j) [])" unfolding sjj by (rule cand(2))
    show "\<forall>k\<in>set (retrieve ?qt (?sj ! j) []). k \<noteq> j \<longrightarrow> k \<noteq> i \<longrightarrow>
        r (?sj ! j) + r (?sj ! k) + 1 \<le> center_dist (?sj ! j) (?sj ! k) \<and> 0 \<le> r (?sj ! j) + r (?sj ! k) + 1"
    proof (intro ballI impI)
      fix k assume k: "k \<in> set (retrieve ?qt (?sj ! j) [])" and n: "k \<noteq> j" "k \<noteq> i"
      from k have kl: "k < length nodes" by (rule retrieve_build_range)
      have rk: "r (?sj ! k) = r (nodes ! k)" using kl by (rule store_at_r)
      have "0 \<le> r (nodes ! k)" using kl radii by blast
      then show "r (?sj ! j) + r (?sj ! k) + 1 \<le> center_dist (?sj ! j) (?sj ! k)
          \<and> 0 \<le> r (?sj ! j) + r (?sj ! k) + 1"
        unfolding sjj rk using third_j kl n rb by simp
    qed
  qed (use rest_j quiet xb0 ne in \<open>simp_all add: sjj\<close>)
  have step_j: "?b' = keep_in_bounds ?e (integrate (collide_one ?b ?a'))"
    unfolding simulate_nth[OF ij(2)] step_particle_def acc_j sjj sji ..
  define w where "w = 0.264 * (?m - ?d)"
  define w1 where "w1 = 0.264 * (r ?b + r ?a' + 1 - center_dist ?b ?a')"
  have less: "w1 \<le> w" unfolding w_def w1_def d1 ra' using ov by simp
  have rj: "r ?b + w \<le> x ?b" "x ?b + w \<le> width ?e - r ?b"
    "r ?b + w \<le> y ?b" "y ?b + w \<le> height ?e - r ?b"
    unfolding w_def using room_j by simp_all
  have "r ?b + w1 \<le> x ?b" "x ?b + w1 \<le> width ?e - r ?b"
    "r ?b + w1 \<le> y ?b" "y ?b + w1 \<le> height ?e - r ?b"
    using rj less by linarith+
  then have room_j': "r ?b + 0.264 * (r ?b + r ?a' + 1 - center_dist ?b ?a') \<le> x ?b"
    "x ?b + 0.264 * (r ?b + r ?a' + 1 - center_dist ?b ?a') \<le> width ?e - r ?b"
    "r ?b + 0.264 * (r ?b + r ?a' + 1 - center_dist ?b ?a') \<le> y ?b"
    "y ?b + 0.264 * (r ?b + r ?a' + 1 - center_dist ?b ?a') \<le> height ?e - r ?b"
    unfolding w1_def .
  note pj = push_step[OF rest_j(3,4) d1_pos d1_lt room_j']
  have b': "?b' = integrate (collide_one ?b ?a')" unfolding step_j pj(1) ..
  \<comment> \<open>the new distance\<close>
  have "center_dist ?a' ?b' = center_dist ?b ?a' + 0.264 * (r ?b + r ?a' + 1 - center_dist ?b ?a')"
    using pj(5) b' by simp
  moreover have "0 \<le> 0.264 * (r ?b + r ?a' + 1 - center_dist ?b ?a')" using d1_lt by simp
  ultimately have far: "?d \<le> center_dist ?a' ?b'" using d1 ov by linarith
  have m': "r ?b + r ?a' + 1 = ?m" unfolding ra' by simp
  have mv_a: "vx ?a' = vx (collide_one ?a ?b) * 0.88" "vy ?a' = vy (collide_one ?a ?b) * 0.88"
    "x ?a' = x ?a + vx ?a'" "y ?a' = y ?a + vy ?a'"
    using a' by (simp_all add: DAMPING_def)
  have mv_b: "vx ?b' = vx (collide_one ?b ?a') * 0.88" "vy ?b' = vy (collide_one ?b ?a') * 0.88"
    "x ?b' = x ?b + vx ?b'" "y ?b' = y ?b + vy ?b'"
    using b' by (simp_all add: DAMPING_def)
  have less: "?m - center_dist ?a' ?b' \<le> ?m - ?d" using far by simp
  show ?thesis
    unfolding Let_def
    using a' pi(2,3) mv_a d1_pos d1_lt[unfolded m'] b' pj(2,3)[unfolded m'] mv_b less by blast
qed


theorem separation_pushes_apart_witness:
  "(0::nat) < 1 \<and> 1 < length far3
   \<and> mouseX env9 = - 9999 \<and> mouseY env9 = - 9999 \<and> scrollProgress env9 = Num 0
   \<and> shockwaves env9 = []
   \<and> x (far3 ! 0) = homeX (far3 ! 0) \<and> y (far3 ! 0) = homeY (far3 ! 0)
   \<and> vx (far3 ! 0) = 0 \<and> vy (far3 ! 0) = 0
   \<and> x (far3 ! 1) = homeX (far3 ! 1) \<and> y (far3 ! 1) = homeY (far3 ! 1)
   \<and> vx (far3 ! 1) = 0 \<and> vy (far3 ! 1) = 0
   \<and> length far3 = 3 \<and> 0 \<le> r (far3 ! 0) \<and> 0 \<le> r (far3 ! 1) \<and> 0 \<le> r (far3 ! 2)
   \<and> center_dist (far3 ! 0) (far3 ! 1) = 5 \<and> r (far3 ! 0) + r (far3 ! 1) + 1 = 9
   \<and> 1 \<in> set (retrieve (build env9 far3) (far3 ! 0) [])
   \<and> 0 \<in> set (retrieve (build env9 far3) (far3 ! 1) [])
   \<and> r (far3 ! 0) + r (far3 ! 2) + 1
         \<le> center_dist (far3 ! 0) (store_at far3 (snd (simulate env9 0 far3)) 0 ! 2)
   \<and> r (far3 ! 1) + r (far3 ! 2) + 1
         \<le> center_dist (far3 ! 1) (store_at far3 (snd (simulate env9 0 far3)) 1 ! 2)
   \<and> snd (simulate env9 0 far3) ! 0 = integrate (collide_one (far3 ! 0) (far3 ! 1))
   \<and> vx (collide_one (far3 ! 0) (far3 ! 1)) = - 1.2
   \<and> vy (collide_one (far3 ! 0) (far3 ! 1)) = 0
   \<and> vx (snd (simulate env9 0 far3) ! 0) = - 1.056 \<and> x (snd (simulate env9 0 far3) ! 0) = 98.944
   \<and> snd (simulate env9 0 far3) ! 1
        = integrate (collide_one (far3 ! 1) (snd (simulate env9 0 far3) ! 0))
   \<and> 9 - center_dist (snd (simulate env9 0 far3) ! 0) (snd (simulate env9 0 far3) ! 1)
        \<le> 9 - center_dist (far3 ! 0) (far3 ! 1)"
proof -
  have f0: "far3 ! 0 = ball 100 100 4" and f1: "far3 ! 1 = ball 105 100 4"
    and f2: "far3 ! 2 = ball 500 500 4" and len: "length far3 = 3"
    by (simp_all add: far3_def)
  have ij: "(0::nat) < 1" "1 < length far3" by (simp_all add: len)
  have quiet: "mouseX env9 = - 9999" "mouseY env9 = - 9999" "scrollProgress env9 = Num 0"
    by (simp_all add: env9_def)
  have nosw: "shockwaves env9 = []" by (simp add: env9_def)
  have waves: "\<forall>s \<in> set (shockwaves env9). 0 - time s < 400 \<longrightarrow>
      300 \<le> sqrt ((x (far3 ! k) - sx s) * (x (far3 ! k) - sx s)
                    + (y (far3 ! k) - sy s) * (y (far3 ! k) - sy s))" for k
    by (simp add: nosw)
  have rest0: "x (far3 ! 0) = homeX (far3 ! 0)" "y (far3 ! 0) = homeY (far3 ! 0)"
    "vx (far3 ! 0) = 0" "vy (far3 ! 0) = 0"
    by (simp_all add: f0 ball_def)
  have rest1: "x (far3 ! 1) = homeX (far3 ! 1)" "y (far3 ! 1) = homeY (far3 ! 1)"
    "vx (far3 ! 1) = 0" "vy (far3 ! 1) = 0"
    unfolding f1 by (simp_all add: ball_def)
  have rad: "0 \<le> r (far3 ! 0)" "0 \<le> r (far3 ! 1)" "0 \<le> r (far3 ! 2)"
    unfolding f0 f1 f2 by (simp_all add: ball_def)
  have radii: "\<forall>k < length far3. 0 \<le> r (far3 ! k)"
  proof (intro allI impI)
    fix k :: nat assume "k < length far3"
    then have "k = 0 \<or> k = 1 \<or> k = 2" unfolding len by linarith
    with rad show "0 \<le> r (far3 ! k)" by blast
  qed
  have cd: "center_dist (far3 ! 0) (far3 ! 1) = 5"
    unfolding f0 f1 by (simp add: center_dist_level ball_def)
  have m: "r (far3 ! 0) + r (far3 ! 1) + 1 = 9" unfolding f0 f1 by (simp add: ball_def)
  have d: "0 < center_dist (far3 ! 0) (far3 ! 1)"
    "center_dist (far3 ! 0) (far3 ! 1) < r (far3 ! 0) + r (far3 ! 1) + 1"
    unfolding cd m by simp_all
  have room0:
    "r (far3 ! 0) + 0.264 * (r (far3 ! 0) + r (far3 ! 1) + 1 - center_dist (far3 ! 0) (far3 ! 1))
       \<le> x (far3 ! 0)"
    "x (far3 ! 0) + 0.264 * (r (far3 ! 0) + r (far3 ! 1) + 1 - center_dist (far3 ! 0) (far3 ! 1))
       \<le> width env9 - r (far3 ! 0)"
    "r (far3 ! 0) + 0.264 * (r (far3 ! 0) + r (far3 ! 1) + 1 - center_dist (far3 ! 0) (far3 ! 1))
       \<le> y (far3 ! 0)"
    "y (far3 ! 0) + 0.264 * (r (far3 ! 0) + r (far3 ! 1) + 1 - center_dist (far3 ! 0) (far3 ! 1))
       \<le> height env9 - r (far3 ! 0)"
    unfolding cd m unfolding f0 by (simp_all add: ball_def env9_def)
  have room1:
    "r (far3 ! 1) + 0.264 * (r (far3 ! 0) + r (far3 ! 1) + 1 - center_dist (far3 ! 0) (far3 ! 1))
       \<le> x (far3 ! 1)"
    "x (far3 ! 1) + 0.264 * (r (far3 ! 0) + r (far3 ! 1) + 1 - center_dist (far3 ! 0) (far3 ! 1))
       \<le> width env9 - r (far3 ! 1)"
    "r (far3 ! 1) + 0.264 * (r (far3 ! 0) + r (far3 ! 1) + 1 - center_dist (far3 ! 0) (far3 ! 1))
       \<le> y (far3 ! 1)"
    "y (far3 ! 1) + 0.264 * (r (far3 ! 0) + r (far3 ! 1) + 1 - center_dist (far3 ! 0) (far3 ! 1))
       \<le> height env9 - r (far3 ! 1)"
    unfolding cd m unfolding f1 by (simp_all add: ball_def env9_def)
  have cand: "1 \<in> set (retrieve (build env9 far3) (far3 ! 0) [])"
    "0 \<in> set (retrieve (build env9 far3) (far3 ! 1) [])"
    unfolding far3_def retrieve_three by simp_all
  have s0: "store_at far3 (snd (simulate env9 0 far3)) 0 ! 2 = far3 ! 2"
    and s1: "store_at far3 (snd (simulate env9 0 far3)) 1 ! 2 = far3 ! 2"
    by (simp_all add: store_at_get len)
  have "\<bar>x (far3 ! 0) - x (far3 ! 2)\<bar> \<le> center_dist (far3 ! 0) (far3 ! 2)"
    and "\<bar>x (far3 ! 1) - x (far3 ! 2)\<bar> \<le> center_dist (far3 ! 1) (far3 ! 2)"
    unfolding center_dist_def by (rule abs_le_sqrt_sum(1))+
  then have t: "r (far3 ! 0) + r (far3 ! 2) + 1
         \<le> center_dist (far3 ! 0) (store_at far3 (snd (simulate env9 0 far3)) 0 ! 2)"
    "r (far3 ! 1) + r (far3 ! 2) + 1
         \<le> center_dist (far3 ! 1) (store_at far3 (snd (simulate env9 0 far3)) 1 ! 2)"
    unfolding s0 s1 f0 f1 f2 by (simp_all add: ball_def)
  have third0: "\<forall>k < length far3. k \<noteq> 0 \<longrightarrow> k \<noteq> 1 \<longrightarrow>
      r (far3 ! 0) + r (far3 ! k) + 1
        \<le> center_dist (far3 ! 0) (store_at far3 (snd (simulate env9 0 far3)) 0 ! k)"
  proof (intro allI impI)
    fix k :: nat assume "k < length far3" "k \<noteq> 0" "k \<noteq> 1"
    then have "k = 2" unfolding len by linarith
    with t(1) show "r (far3 ! 0) + r (far3 ! k) + 1
        \<le> center_dist (far3 ! 0) (store_at far3 (snd (simulate env9 0 far3)) 0 ! k)"
      by blast
  qed
  have third1: "\<forall>k < length far3. k \<noteq> 0 \<longrightarrow> k \<noteq> 1 \<longrightarrow>
      r (far3 ! 1) + r (far3 ! k) + 1
        \<le> center_dist (far3 ! 1) (store_at far3 (snd (simulate env9 0 far3)) 1 ! k)"
  proof (intro allI impI)
    fix k :: nat assume "k < length far3" "k \<noteq> 0" "k \<noteq> 1"
    then have "k = 2" unfolding len by linarith
    with t(2) show "r (far3 ! 1) + r (far3 ! k) + 1
        \<le> center_dist (far3 ! 1) (store_at far3 (snd (simulate env9 0 far3)) 1 ! k)"
      by blast
  qed
  note th = separation_pushes_apart[OF ij quiet waves waves rest0 rest1 radii d room0 room1 cand
      third0 third1, unfolded Let_def m cd]
  have v: "(x (far3 ! 0) - x (far3 ! 1)) / 5 * (9 - 5) * 0.3 = - 1.2"
    "(y (far3 ! 0) - y (far3 ! 1)) / 5 * (9 - 5) * 0.3 = 0"
    unfolding f0 f1 by (simp_all add: ball_def)
  from th have c: "snd (simulate env9 0 far3) ! 0 = integrate (collide_one (far3 ! 0) (far3 ! 1))"
    "vx (collide_one (far3 ! 0) (far3 ! 1)) = - 1.2"
    "vy (collide_one (far3 ! 0) (far3 ! 1)) = 0"
    "vx (snd (simulate env9 0 far3) ! 0) = vx (collide_one (far3 ! 0) (far3 ! 1)) * 0.88"
    "x (snd (simulate env9 0 far3) ! 0) = x (far3 ! 0) + vx (snd (simulate env9 0 far3) ! 0)"
    "snd (simulate env9 0 far3) ! 1
        = integrate (collide_one (far3 ! 1) (snd (simulate env9 0 far3) ! 0))"
    "9 - center_dist (snd (simulate env9 0 far3) ! 0) (snd (simulate env9 0 far3) ! 1)
        \<le> 9 - center_dist (far3 ! 0) (far3 ! 1)"
    unfolding v cd by blast+
  have x0: "x (far3 ! 0) = 100" unfolding f0 by (simp add: ball_def)
  have n: "vx (snd (simulate env9 0 far3) ! 0) = - 1.056" unfolding c(4) c(2) by simp
  have n': "x (snd (simulate env9 0 far3) ! 0) = 98.944" unfolding c(5) n x0 by simp
  from ij quiet nosw rest0 rest1 len rad cd m cand t c(1,2,3,6,7) n n' show ?thesis by blast
qed

subsection \<open>C7\<close>

text \<open>
  C7, as stated: with a viewport of zero width or height, \<^verbatim>\<open>generateNodes\<close> and the tick do
  nothing. After \<^verbatim>\<open>resize\<close> to 0 by 0 (every random draw 0) there are 280 particles, and one
  tick moves the first of them from \<open>x = 0\<close> to \<open>x = -4\<close>.
\<close>

theorem zero_viewport_creates_and_moves:
  "width (fst (resize env9 0 0 zero_draws)) = 0 \<and> height (fst (resize env9 0 0 zero_draws)) = 0
   \<and> length (snd (resize env9 0 0 zero_draws)) = 280
   \<and> x (snd (resize env9 0 0 zero_draws) ! 0) = 0
   \<and> x (snd (simulate (fst (resize env9 0 0 zero_draws)) 0 (snd (resize env9 0 0 zero_draws))) ! 0) = - 4"
proof -
  have l: "length (snd (resize env9 0 0 zero_draws)) = 280"
    by (simp add: resize_parts length_generateNodes BALL_COUNT_def)
  then have i: "0 < length (snd (resize env9 0 0 zero_draws))" by simp
  have w: "width (fst (resize env9 0 0 zero_draws)) = 0" "height (fst (resize env9 0 0 zero_draws)) = 0"
    by (simp_all add: resize_zero flat_env_def)
  have r0: "0 < r (snd (resize env9 0 0 zero_draws) ! 0)" by (simp add: first_generated)
  from zero_width_pins[OF i r0 w(1), of 0] l w first_generated show ?thesis by simp
qed

text \<open>
  C7, amended: \<^verbatim>\<open>resize\<close> creates \<open>BALL_COUNT\<close> particles whatever the width and the
  height, zero included; and the tick runs: with a width of zero it puts every particle of
  positive radius at \<open>x = -r\<close>, with a height of zero at \<open>y = -r\<close>.
\<close>

theorem zero_viewport_still_runs:
  "length (snd (resize env w h rnd)) = BALL_COUNT
   \<and> (i < length nodes \<and> 0 < r (nodes ! i) \<and> width env = 0
        \<longrightarrow> x (snd (simulate env now nodes) ! i) = - r (nodes ! i))
   \<and> (i < length nodes \<and> 0 < r (nodes ! i) \<and> height env = 0
        \<longrightarrow> y (snd (simulate env now nodes) ! i) = - r (nodes ! i))"
  by (simp add: resize_parts length_generateNodes zero_width_pins zero_height_pins)

theorem zero_viewport_still_runs_witness:
  "length (snd (resize env9 0 0 zero_draws)) = BALL_COUNT
   \<and> (0::nat) < length [ball 5 5 4] \<and> 0 < r ([ball 5 5 4] ! 0)
   \<and> width flat_env = 0 \<and> height flat_env = 0
   \<and> x (snd (simulate flat_env 0 [ball 5 5 4]) ! 0) = - r ([ball 5 5 4] ! 0)
   \<and> y (snd (simulate flat_env 0 [ball 5 5 4]) ! 0) = - r ([ball 5 5 4] ! 0)"
proof -
  have h: "(0::nat) < length [ball 5 5 4]" "0 < r ([ball 5 5 4] ! 0)"
    "width flat_env = 0" "height flat_env = 0"
    by (simp_all add: ball_def flat_env_def)
  from zero_viewport_still_runs[where env = flat_env and w = 0 and h = 0 and rnd = zero_draws
      and i = 0 and nodes = "[ball 5 5 4]" and now = 0]
    zero_viewport_still_runs[where env = env9 and w = 0 and h = 0 and rnd = zero_draws
      and i = 0 and nodes = "[ball 5 5 4]" and now = 0]
    h show ?thesis by blast
qed

subsection \<open>C8\<close>

text \<open>
  C8, as stated: the candidate list contains the particle itself, hence the test
  \<^verbatim>\<open>o === n\<close> of the collision loop is necessary. The first part holds; but the body of
  the loop, run on the particle and itself, changes nothing (the squared distance is 0 and
  the body requires it to be positive), so the test is not necessary.
\<close>

theorem self_candidate_changes_nothing:
  "0 \<in> set (retrieve (build env9 field9) (field9 ! 0) [])
   \<and> collide_one (field9 ! 0) (field9 ! 0) = field9 ! 0"
  unfolding retrieve9_0 by (simp add: collide_one_self)

text \<open>
  C8, amended: in the tree built from all the particles, the candidate list of a particle
  contains the particle itself; and the collision loop without the test \<^verbatim>\<open>o === n\<close>
  computes the same as the loop with it, whatever the candidates.
\<close>

theorem retrieve_contains_self:
  assumes "i < length ps" and "x n = x (ps ! i)" and "y n = y (ps ! i)"
  shows "i \<in> set (retrieve (build env ps) (ps ! i) [])
       \<and> fold (\<lambda>j m. collide_one m (ps ! j)) (retrieve qt n []) n = collide_all qt ps i n"
proof
  show "i \<in> set (retrieve (build env ps) (ps ! i) [])"
    by (rule retrieve_finds[where ps = ps]) (simp_all add: wf_build all_items_build assms(1))
  show "fold (\<lambda>j m. collide_one m (ps ! j)) (retrieve qt n []) n = collide_all qt ps i n"
    unfolding collide_all_def using assms(2,3) by (rule skip_redundant)
qed

theorem retrieve_contains_self_witness:
  "(0::nat) < length field9
   \<and> 0 \<in> set (retrieve (build env9 field9) (field9 ! 0) [])
   \<and> fold (\<lambda>j m. collide_one m (field9 ! j)) (retrieve (build env9 field9) (field9 ! 0) []) (field9 ! 0)
       = collide_all (build env9 field9) field9 0 (field9 ! 0)"
proof -
  have l: "(0::nat) < length field9" by (simp add: field9_def)
  from retrieve_contains_self[OF l refl refl, of env9 "build env9 field9"] l
  show ?thesis by blast
qed

subsection \<open>C9\<close>

text \<open>
  C9, as stated, with every condition read on the state before the tick: the second of
  two particles rests at its home, 15 away from the first (collision distance 9); the
  first moves by 17.6 in its own iteration, and the second, which reads that new position,
  is pushed.
\<close>

theorem neighbour_moved_earlier_in_tick_pushes:
  "x (chase2 ! 1) = homeX (chase2 ! 1) \<and> y (chase2 ! 1) = homeY (chase2 ! 1)
   \<and> vx (chase2 ! 1) = 0 \<and> vy (chase2 ! 1) = 0
   \<and> r (chase2 ! 1) \<le> homeX (chase2 ! 1) \<and> homeX (chase2 ! 1) \<le> width env9 - r (chase2 ! 1)
   \<and> r (chase2 ! 1) \<le> homeY (chase2 ! 1) \<and> homeY (chase2 ! 1) \<le> height env9 - r (chase2 ! 1)
   \<and> mouseX env9 = - 9999 \<and> mouseY env9 = - 9999 \<and> scrollProgress env9 = Num 0
   \<and> shockwaves env9 = []
   \<and> r (chase2 ! 1) + r (chase2 ! 0) + 1 \<le> center_dist (chase2 ! 1) (chase2 ! 0)
   \<and> snd (simulate env9 0 chase2) ! 1 \<noteq> chase2 ! 1"
proof -
  have "center_dist (chase2 ! 1) (chase2 ! 0) = 15"
    by (simp add: center_dist_level chase2_def runner_def ball_def)
  then show ?thesis
    unfolding simulate_chase2 by (simp add: chase2_def runner_def ball_def env9_def)
qed

text \<open>
  C9, amended: a particle at rest at its home, inside the bounds, is left unchanged by the
  tick when the cursor is at the sentinel, the scroll progress is 0, every live shockwave
  is at least 300 away, no radius is negative, and every other particle is at least the
  collision distance away in the store that the loop holds when it reaches the particle
  (the particles before it already moved).
\<close>

theorem home_is_fixed_point:
  assumes "i < length nodes"
    and "x (nodes ! i) = homeX (nodes ! i)" and "y (nodes ! i) = homeY (nodes ! i)"
    and "vx (nodes ! i) = 0" and "vy (nodes ! i) = 0"
    and "r (nodes ! i) \<le> x (nodes ! i)" and "x (nodes ! i) \<le> width env - r (nodes ! i)"
    and "r (nodes ! i) \<le> y (nodes ! i)" and "y (nodes ! i) \<le> height env - r (nodes ! i)"
    and "\<forall>j < length nodes. 0 \<le> r (nodes ! j)"
    and "mouseX env = - 9999" and "mouseY env = - 9999"
    and "scrollProgress env = Num 0"
    and "\<forall>s \<in> set (shockwaves env). now - time s < 400 \<longrightarrow>
           300 \<le> sqrt ((x (nodes ! i) - sx s) * (x (nodes ! i) - sx s)
                         + (y (nodes ! i) - sy s) * (y (nodes ! i) - sy s))"
    and "\<forall>j < length nodes. j \<noteq> i \<longrightarrow>
           r (nodes ! i) + r (nodes ! j) + 1
             \<le> center_dist (nodes ! i) (store_at nodes (snd (simulate env now nodes)) i ! j)"
  shows "snd (simulate env now nodes) ! i = nodes ! i"
proof -
  let ?st = "store_at nodes (snd (simulate env now nodes)) i"
  have si: "?st ! i = nodes ! i" using assms(1) by (rule store_at_self)
  have r0: "0 \<le> r (nodes ! i)" using assms(1,10) by blast
  with assms(6) have x0: "0 \<le> x (?st ! i)" unfolding si by linarith
  have "step_particle (prune now env) now (build env nodes) ?st i = ?st ! i"
  proof (rule step_particle_fixed)
    show "\<forall>s\<in>set (shockwaves (prune now env)).
       300 \<le> sqrt ((x (?st ! i) - sx s) * (x (?st ! i) - sx s) + (y (?st ! i) - sy s) * (y (?st ! i) - sy s))"
      unfolding si using assms(14) by simp
    show "\<forall>j\<in>set (retrieve (build env nodes) (?st ! i) []). j \<noteq> i \<longrightarrow> collide_one (?st ! i) (?st ! j) = ?st ! i"
    proof (intro ballI impI)
      fix j assume j: "j \<in> set (retrieve (build env nodes) (?st ! i) [])" and ne: "j \<noteq> i"
      from j have jl: "j < length nodes" by (rule retrieve_build_range)
      have rj: "r (?st ! j) = r (nodes ! j)" using jl by (rule store_at_r)
      have "0 \<le> r (nodes ! j)" using jl assms(10) by blast
      with r0 rj have m: "0 \<le> r (?st ! i) + r (?st ! j) + 1" unfolding si by simp
      have "r (?st ! i) + r (?st ! j) + 1 \<le> center_dist (?st ! i) (?st ! j)"
        unfolding si rj using assms(15) jl ne by blast
      then show "collide_one (?st ! i) (?st ! j) = ?st ! i" using m by (rule collide_one_apart)
    qed
  qed (use assms x0 in \<open>simp_all add: si\<close>)
  then show ?thesis using simulate_nth[OF assms(1), of env now] si by simp
qed

theorem home_is_fixed_point_witness:
  "(0::nat) < length apart2
   \<and> x (apart2 ! 0) = homeX (apart2 ! 0) \<and> y (apart2 ! 0) = homeY (apart2 ! 0)
   \<and> vx (apart2 ! 0) = 0 \<and> vy (apart2 ! 0) = 0
   \<and> r (apart2 ! 0) \<le> x (apart2 ! 0) \<and> x (apart2 ! 0) \<le> width env9 - r (apart2 ! 0)
   \<and> r (apart2 ! 0) \<le> y (apart2 ! 0) \<and> y (apart2 ! 0) \<le> height env9 - r (apart2 ! 0)
   \<and> length apart2 = 2 \<and> 0 \<le> r (apart2 ! 0) \<and> 0 \<le> r (apart2 ! 1)
   \<and> mouseX env9 = - 9999 \<and> mouseY env9 = - 9999 \<and> scrollProgress env9 = Num 0
   \<and> shockwaves env9 = []
   \<and> r (apart2 ! 0) + r (apart2 ! 1) + 1
         \<le> center_dist (apart2 ! 0) (store_at apart2 (snd (simulate env9 0 apart2)) 0 ! 1)
   \<and> snd (simulate env9 0 apart2) ! 0 = apart2 ! 0"
proof -
  have h1: "(0::nat) < length apart2" by (simp add: apart2_def)
  have h2: "x (apart2 ! 0) = homeX (apart2 ! 0)" "y (apart2 ! 0) = homeY (apart2 ! 0)"
    "vx (apart2 ! 0) = 0" "vy (apart2 ! 0) = 0"
    "r (apart2 ! 0) \<le> x (apart2 ! 0)" "x (apart2 ! 0) \<le> width env9 - r (apart2 ! 0)"
    "r (apart2 ! 0) \<le> y (apart2 ! 0)" "y (apart2 ! 0) \<le> height env9 - r (apart2 ! 0)"
    by (simp_all add: apart2_def ball_def env9_def)
  have h3: "\<forall>j < length apart2. 0 \<le> r (apart2 ! j)"
    by (simp add: apart2_def ball_def less_Suc_eq nth_Cons')
  have h4: "mouseX env9 = - 9999" "mouseY env9 = - 9999" "scrollProgress env9 = Num 0"
    by (simp_all add: env9_def)
  have h5: "\<forall>s \<in> set (shockwaves env9). 0 - time s < 400 \<longrightarrow>
           300 \<le> sqrt ((x (apart2 ! 0) - sx s) * (x (apart2 ! 0) - sx s)
                         + (y (apart2 ! 0) - sy s) * (y (apart2 ! 0) - sy s))"
    by (simp add: env9_def)
  have d: "center_dist (ball 100 100 4) (ball 200 100 4) = 100"
    by (simp add: center_dist_level ball_def)
  have h6: "\<forall>j < length apart2. j \<noteq> 0 \<longrightarrow>
           r (apart2 ! 0) + r (apart2 ! j) + 1
             \<le> center_dist (apart2 ! 0) (store_at apart2 (snd (simulate env9 0 apart2)) 0 ! j)"
    using d by (simp add: apart2_def store_at_def less_Suc_eq nth_Cons') (simp add: ball_def)
  have g: "length apart2 = 2" "0 \<le> r (apart2 ! 0)" "0 \<le> r (apart2 ! 1)" "shockwaves env9 = []"
    "r (apart2 ! 0) + r (apart2 ! 1) + 1
       \<le> center_dist (apart2 ! 0) (store_at apart2 (snd (simulate env9 0 apart2)) 0 ! 1)"
    using d by (simp_all add: apart2_def ball_def env9_def store_at_def)
  from home_is_fixed_point[OF h1 h2 h3 h4 h5 h6] h1 h2 h4 g show ?thesis by blast
qed

subsection \<open>C10\<close>

text \<open>
  C10: the value that \<^verbatim>\<open>draw\<close> assigns to \<^verbatim>\<open>ctx.globalAlpha\<close> is meant to lie in
  \<open>[0, 1]\<close>, and the code clamps three times to keep it there. It misses one case: after a
  scroll event that finds the hero rectangle with top 0 and height 0 (an element that is not
  displayed), \<^verbatim>\<open>scrollProgress\<close> is NaN, and the value assigned is NaN for every particle
  and every cursor position. For every \<^verbatim>\<open>scrollProgress\<close> that is a number, whatever the
  number, the particle and the cursor position, the value assigned is a number in \<open>[0, 1]\<close>.
\<close>

theorem globalAlpha_NaN_after_scroll_on_empty_rect:
  "scrollProgress (scroll_handler env 0 0) = NaN
   \<and> globalAlpha (scroll_handler env 0 0) n = NaN
   \<and> (\<exists>a. globalAlpha (env\<lparr>scrollProgress := Num p\<rparr>) n = Num a \<and> 0 \<le> a \<and> a \<le> 1)"
proof -
  have "scrollProgress (scroll_handler env 0 0) = NaN"
    by (simp add: scroll_handler_def)
  moreover from this have "globalAlpha (scroll_handler env 0 0) n = NaN"
    by (simp add: globalAlpha_def baseAlpha_def)
  moreover have "\<exists>a. globalAlpha (env\<lparr>scrollProgress := Num p\<rparr>) n = Num a \<and> 0 \<le> a \<and> a \<le> 1"
    by (rule globalAlpha_range_num) simp
  ultimately show ?thesis by blast
qed

end
